(* ===== verification/Prelude.thy ===== *)
theory Prelude
  imports Complex_Main "HOL-Library.Word" "HOL-Library.AList" "HOL-Library.Multiset"
    "HOL-Library.Monad_Syntax" "HOL-Library.Char_ord" "HOL-Library.List_Lexorder"
begin

unbundle bit_operations_syntax

section \<open>Shared vocabulary of the development\<close>

text \<open>
  This theory fixes how the Go program's basic types are read in HOL and collects the lemmas
  that every component uses.

  \<^item> Unsigned machine integers are words of their width (\<open>u8\<close>, \<open>u16\<close>, \<open>u32\<close>, \<open>u64\<close>).
    Signed 64-bit integers are \<open>int\<close> with the wrap-around written out by \<open>i64\<close>.
  \<^item> A byte slice is a list of bytes. Reading it out of range is a run-time panic in Go, so
    the readers return \<open>None\<close> there.
  \<^item> \<open>time.Time\<close> and \<open>time.Duration\<close> are nanosecond counts of type \<open>int\<close>.
  \<^item> A Go map is an association list with distinct keys (\<open>gomap_ok\<close>). Go visits a map in an
    unspecified order, so every operation that ranges over a map takes the order as an
    argument: a function \<open>rng\<close> that permutes the entries (\<open>is_range rng\<close>).
  \<^item> A \<open>range\<close> loop over a slice whose body may panic is \<open>range_loop\<close>.
\<close>

subsection \<open>Machine integers, bytes and time\<close>

type_synonym u8 = "8 word"
type_synonym u16 = "16 word"
type_synonym u32 = "32 word"
type_synonym u64 = "64 word"
type_synonym bytes = "u8 list"
type_synonym gotime = int
type_synonym duration = int
type_synonym ('k, 'v) gomap = "('k \<times> 'v) list"

text \<open>Lemma collections: \<open>wire_simps\<close> evaluates the byte-level codecs, \<open>gomap_simps\<close> the
  finite-map operations, \<open>frame_simps\<close> holds the facts that an operation leaves a field alone.\<close>

named_theorems wire_simps
named_theorems gomap_simps
named_theorems frame_simps

definition i64 :: "int \<Rightarrow> int" where
  "i64 x = (x + 2 ^ 63) mod 2 ^ 64 - 2 ^ 63"

definition i32 :: "int \<Rightarrow> int" where
  "i32 x = (x + 2 ^ 31) mod 2 ^ 32 - 2 ^ 31"

definition in_i32 :: "int \<Rightarrow> bool" where
  "in_i32 x \<longleftrightarrow> - (2 ^ 31) \<le> x \<and> x < 2 ^ 31"

definition in_i64 :: "int \<Rightarrow> bool" where
  "in_i64 x \<longleftrightarrow> - (2 ^ 63) \<le> x \<and> x < 2 ^ 63"

text \<open>Go's integer division truncates towards zero.\<close>

definition go_div :: "int \<Rightarrow> int \<Rightarrow> int" where
  "go_div a b = sgn a * sgn b * (\<bar>a\<bar> div \<bar>b\<bar>)"

text \<open>\<open>Time.Sub\<close> saturates at the smallest and the largest \<open>Duration\<close>.\<close>

definition time_sub :: "gotime \<Rightarrow> gotime \<Rightarrow> duration" where
  "time_sub a b = max (- (2 ^ 63)) (min (2 ^ 63 - 1) (a - b))"

abbreviation millisecond :: duration where "millisecond \<equiv> 1000000"
abbreviation second :: duration where "second \<equiv> 1000000000"

subsection \<open>Big-endian access to byte slices (encoding/binary)\<close>

definition be16 :: "u8 \<Rightarrow> u8 \<Rightarrow> u16" where
  "be16 hi lo = push_bit 8 (ucast hi) OR ucast lo"

definition be32 :: "u8 \<Rightarrow> u8 \<Rightarrow> u8 \<Rightarrow> u8 \<Rightarrow> u32" where
  "be32 b0 b1 b2 b3 =
     push_bit 24 (ucast b0) OR push_bit 16 (ucast b1) OR push_bit 8 (ucast b2) OR ucast b3"

definition get_u8 :: "bytes \<Rightarrow> nat \<Rightarrow> u8 option" where
  "get_u8 d i = (if i < length d then Some (d ! i) else None)"

definition get_u16 :: "bytes \<Rightarrow> nat \<Rightarrow> u16 option" where
  "get_u16 d i = (if i + 1 < length d then Some (be16 (d ! i) (d ! (i + 1))) else None)"

definition get_u32 :: "bytes \<Rightarrow> nat \<Rightarrow> u32 option" where
  "get_u32 d i = (if i + 3 < length d
     then Some (be32 (d ! i) (d ! (i + 1)) (d ! (i + 2)) (d ! (i + 3))) else None)"

definition u16_hi :: "u16 \<Rightarrow> u8" where "u16_hi v = ucast (drop_bit 8 v)"
definition u16_lo :: "u16 \<Rightarrow> u8" where "u16_lo v = ucast v"
definition u32_b3 :: "u32 \<Rightarrow> u8" where "u32_b3 v = ucast (drop_bit 24 v)"
definition u32_b2 :: "u32 \<Rightarrow> u8" where "u32_b2 v = ucast (drop_bit 16 v)"
definition u32_b1 :: "u32 \<Rightarrow> u8" where "u32_b1 v = ucast (drop_bit 8 v)"
definition u32_b0 :: "u32 \<Rightarrow> u8" where "u32_b0 v = ucast v"

definition put_u16 :: "bytes \<Rightarrow> nat \<Rightarrow> u16 \<Rightarrow> bytes" where
  "put_u16 d i v = d[i := u16_hi v, i + 1 := u16_lo v]"

definition put_u32 :: "bytes \<Rightarrow> nat \<Rightarrow> u32 \<Rightarrow> bytes" where
  "put_u32 d i v = d[i := u32_b3 v, i + 1 := u32_b2 v, i + 2 := u32_b1 v, i + 3 := u32_b0 v]"

text \<open>\<open>copy(dst[i:], src)\<close> overwrites as much of \<open>dst\<close> as \<open>src\<close> fills.\<close>

definition copy_at :: "bytes \<Rightarrow> nat \<Rightarrow> bytes \<Rightarrow> bytes" where
  "copy_at dst i src = take i dst @ take (length dst - i) src @ drop (i + length src) dst"

text \<open>\<open>strings.Contains\<close>, needle first.\<close>

fun contains :: "string \<Rightarrow> string \<Rightarrow> bool" where
  "contains needle [] = (needle = [])"
| "contains needle (c # cs) = (take (length needle) (c # cs) = needle \<or> contains needle cs)"

text \<open>\<open>strings.ToLower\<close> on ASCII.\<close>

definition to_lower :: "string \<Rightarrow> string" where
  "to_lower s = map (\<lambda>c. let n = of_char c :: nat in if 65 \<le> n \<and> n \<le> 90 then char_of (n + 32) else c) s"

text \<open>JSON values, the data behind \<open>interface{}\<close> and \<open>map[string]interface{}\<close>.\<close>

datatype json = JNull | JBool bool | JNum real | JStr string | JArr "json list"
  | JObj "(string \<times> json) list"

subsection \<open>Formatting\<close>

text \<open>The padding of the verbs \<open>%6d\<close> and \<open>%-12s\<close>, and \<open>strings.Join\<close>.\<close>

definition the_default :: "'a \<Rightarrow> 'a option \<Rightarrow> 'a" where
  "the_default d x = (case x of None \<Rightarrow> d | Some v \<Rightarrow> v)"

definition pad_left :: "nat \<Rightarrow> string \<Rightarrow> string" where
  "pad_left w s = replicate (w - length s) CHR '' '' @ s"

definition pad_right :: "nat \<Rightarrow> string \<Rightarrow> string" where
  "pad_right w s = s @ replicate (w - length s) CHR '' ''"

fun join :: "string \<Rightarrow> string list \<Rightarrow> string" where
  "join sep [] = []"
| "join sep [x] = x"
| "join sep (x # y # xs) = x @ sep @ join sep (y # xs)"

text \<open>\<open>encoding/hex\<close>: two lower-case digits per byte.\<close>

definition hex_digit :: "nat \<Rightarrow> char" where
  "hex_digit n = (if n < 10 then char_of (48 + n) else char_of (87 + n))"

definition hex_encode :: "bytes \<Rightarrow> string" where
  "hex_encode b = concat (map (\<lambda>c. [hex_digit (unat c div 16), hex_digit (unat c mod 16)]) b)"

subsection \<open>Go maps\<close>

definition gomap_ok :: "('k, 'v) gomap \<Rightarrow> bool" where
  "gomap_ok m \<longleftrightarrow> distinct (map fst m)"

definition is_range :: "(('k, 'v) gomap \<Rightarrow> ('k, 'v) gomap) \<Rightarrow> bool" where
  "is_range rng \<longleftrightarrow> (\<forall>m. mset (rng m) = mset m)"

text \<open>\<open>all_vals P m\<close>: every value stored in the map satisfies \<open>P\<close>.\<close>

definition all_vals :: "('v \<Rightarrow> bool) \<Rightarrow> ('k, 'v) gomap \<Rightarrow> bool" where
  "all_vals P m \<longleftrightarrow> (\<forall>e \<in> set m. P (snd e))"

subsection \<open>Range loops whose body may panic\<close>

primrec range_loop :: "('a \<Rightarrow> 's \<Rightarrow> 's option) \<Rightarrow> 'a list \<Rightarrow> 's \<Rightarrow> 's option" where
  "range_loop body [] s = Some s"
| "range_loop body (x # xs) s = body x s \<bind> range_loop body xs"

text \<open>A simulation between two loop bodies is one between the loops.\<close>

lemma range_loop_simulation:
  assumes "\<And>x s. map_option view (f x s) = g x (view s)"
  shows "map_option view (range_loop f xs s) = range_loop g xs (view s)"
proof (induction xs arbitrary: s)
  case (Cons x xs)
  show ?case using assms [of x s, symmetric] by (cases "f x s") (simp_all add: Cons.IH)
qed simp

lemma range_loop_inv:
  "range_loop body xs s = Some s' \<Longrightarrow> I s \<Longrightarrow> (\<And>x s s'. x \<in> set xs \<Longrightarrow> I s \<Longrightarrow> body x s = Some s' \<Longrightarrow> I s') \<Longrightarrow> I s'"
proof (induction xs arbitrary: s)
  case (Cons x xs)
  then obtain s1 where "body x s = Some s1" "range_loop body xs s1 = Some s'" by (cases "body x s") auto
  then show ?case using Cons by auto
qed simp

lemma range_loop_appends:
  "range_loop body xs s = Some s' \<Longrightarrow> (\<And>x s s'. body x s = Some s' \<Longrightarrow> key s' = key s @ f x)
     \<Longrightarrow> key s' = key s @ concat (map f xs)"
proof (induction xs arbitrary: s)
  case (Cons x xs)
  then obtain s1 where "body x s = Some s1" "range_loop body xs s1 = Some s'" by (cases "body x s") auto
  then show ?case using Cons by auto
qed simp

lemma range_loop_total:
  "(\<And>x s. x \<in> set xs \<Longrightarrow> \<exists>s'. body x s = Some s') \<Longrightarrow> \<exists>s'. range_loop body xs s = Some s'"
proof (induction xs arbitrary: s)
  case (Cons x xs)
  obtain s1 where "body x s = Some s1" using Cons.prems by auto
  then show ?case using Cons by simp
qed simp

subsection \<open>Lemmas on integers and time\<close>

lemma i64_id [simp]: "in_i64 x \<Longrightarrow> i64 x = x"
  unfolding i64_def in_i64_def by (subst mod_pos_pos_trivial) auto

lemma i32_id [simp]: "in_i32 x \<Longrightarrow> i32 x = x"
  unfolding i32_def in_i32_def by (subst mod_pos_pos_trivial) auto

lemma i64_bounds: "- (2 ^ 63) \<le> i64 x" "i64 x < 2 ^ 63"
proof -
  have "0 \<le> (x + 2 ^ 63) mod 2 ^ 64" "(x + 2 ^ 63) mod 2 ^ 64 < 2 ^ 64"
    by (rule pos_mod_sign pos_mod_bound, simp)+
  then show "- (2 ^ 63) \<le> i64 x" "i64 x < 2 ^ 63" unfolding i64_def by simp_all
qed

lemma in_i64_i64 [simp]: "in_i64 (i64 x)"
  using i64_bounds [of x] by (simp add: in_i64_def)

lemma go_div_nonneg: "0 \<le> a \<Longrightarrow> 0 < b \<Longrightarrow> go_div a b = a div b"
  by (cases "a = 0") (auto simp: go_div_def)

lemma time_sub_exact: "in_i64 (a - b) \<Longrightarrow> time_sub a b = a - b"
  by (auto simp: time_sub_def in_i64_def)

lemma time_sub_gt_iff: "0 \<le> r \<Longrightarrow> r < 2 ^ 63 - 1 \<Longrightarrow> r < time_sub a b \<longleftrightarrow> r < a - b"
  by (auto simp: time_sub_def)

subsection \<open>Lemmas on bytes\<close>

lemma be16_split [wire_simps, simp]: "be16 (u16_hi v) (u16_lo v) = v"
  unfolding be16_def u16_hi_def u16_lo_def
  by (intro bit_word_eqI) (auto simp: bit_simps)

lemma be32_split [wire_simps, simp]:
  "be32 (u32_b3 v) (u32_b2 v) (u32_b1 v) (u32_b0 v) = v"
proof (rule bit_word_eqI)
  fix n assume n: "n < LENGTH(32)"
  consider "n < 8" | "8 \<le> n" "n < 16" | "16 \<le> n" "n < 24" | "24 \<le> n" by linarith
  then show "bit (be32 (u32_b3 v) (u32_b2 v) (u32_b1 v) (u32_b0 v)) n = bit v n"
    using n by cases
      (auto simp: be32_def u32_b3_def u32_b2_def u32_b1_def u32_b0_def bit_simps)
qed

lemma u16_bytes_0 [wire_simps, simp]: "u16_hi 0 = 0" "u16_lo 0 = 0"
  by (simp_all add: u16_hi_def u16_lo_def)

lemma unat_ucast_up: "LENGTH('a) \<le> LENGTH('b) \<Longrightarrow> unat (ucast (a :: 'a::len word) :: 'b::len word) = unat a"
proof -
  assume le: "LENGTH('a) \<le> LENGTH('b)"
  have "unat a < 2 ^ LENGTH('a)" by simp
  also have "\<dots> \<le> 2 ^ LENGTH('b)" using le by (intro power_increasing) simp_all
  finally show ?thesis by (simp add: unsigned_ucast_eq take_bit_nat_eq_self_iff)
qed

lemma unat_be16: "unat (be16 a b) = 256 * unat a + unat b"
proof -
  have disj: "push_bit 8 (ucast a :: u16) AND ucast b = 0"
    by (intro bit_word_eqI) (auto simp: bit_simps dest: bit_imp_le_length)
  have "be16 a b = push_bit 8 (ucast a) + ucast b"
    unfolding be16_def using disj by (simp add: disjunctive_add_eq_or)
  moreover have "unat (ucast a :: u16) = unat a" "unat (ucast b :: u16) = unat b"
    by (simp_all add: unat_ucast_up)
  ultimately show ?thesis
    using unsigned_less [of a, where ?'a = nat] unsigned_less [of b, where ?'a = nat]
    by (simp add: push_bit_eq_mult unat_word_ariths mult.commute)
qed

lemma unat_plus_one: "(x :: 'a::len word) \<noteq> - 1 \<Longrightarrow> unat (x + 1) = Suc (unat x)"
  by (metis add.commute eq_neg_iff_add_eq_0 unatSuc)

lemma word_less_plus_one: "(x :: 'a::len word) \<noteq> - 1 \<Longrightarrow> x < x + 1"
  by (simp add: word_less_nat_alt unat_plus_one)

lemma length_put_u16 [simp]: "length (put_u16 d i v) = length d"
  by (simp add: put_u16_def)

lemma length_put_u32 [simp]: "length (put_u32 d i v) = length d"
  by (simp add: put_u32_def)

lemma length_copy_at [simp]: "i + length src \<le> length dst \<Longrightarrow> length (copy_at dst i src) = length dst"
  by (simp add: copy_at_def)

subsection \<open>Lemmas on Go maps\<close>

lemma gomap_ok_Nil [simp, gomap_simps]: "gomap_ok []"
  by (simp add: gomap_ok_def)

lemma gomap_ok_single [simp, gomap_simps]: "gomap_ok [e]"
  by (simp add: gomap_ok_def)

lemma map_of_filter_keep: "map_of m k = Some v \<Longrightarrow> P (k, v) \<Longrightarrow> map_of (filter P m) k = Some v"
  by (induction m) (auto split: if_splits)

lemma gomap_ok_update [simp, gomap_simps]: "gomap_ok m \<Longrightarrow> gomap_ok (AList.update k v m)"
  by (simp add: gomap_ok_def distinct_update)

lemma gomap_ok_delete [simp, gomap_simps]: "gomap_ok m \<Longrightarrow> gomap_ok (AList.delete k m)"
  by (simp add: gomap_ok_def distinct_delete)

lemma gomap_ok_filter [simp, gomap_simps]: "gomap_ok m \<Longrightarrow> gomap_ok (filter P m)"
  by (simp add: gomap_ok_def distinct_map_filter)

lemma gomap_ok_map_values: "(\<And>e. fst (f e) = fst e) \<Longrightarrow> gomap_ok (map f m) = gomap_ok m"
  by (simp add: gomap_ok_def comp_def)

lemma gomap_lookup_iff: "gomap_ok m \<Longrightarrow> map_of m k = Some v \<longleftrightarrow> (k, v) \<in> set m"
  by (simp add: gomap_ok_def)

lemma is_rangeD:
  assumes "is_range rng"
  shows "mset (rng m) = mset m" "set (rng m) = set m" "length (rng m) = length m"
proof -
  show m: "mset (rng m) = mset m" using assms by (simp add: is_range_def)
  from m show "set (rng m) = set m" by (rule mset_eq_setD)
  from m show "length (rng m) = length m" by (rule mset_eq_length)
qed

lemma is_range_rev [simp]: "is_range rev" and is_range_id [simp]: "is_range (\<lambda>m. m)"
  by (simp_all add: is_range_def)

lemma is_range_gomap_ok: "is_range rng \<Longrightarrow> gomap_ok (rng m) = gomap_ok m"
  using mset_map [of fst m] mset_map [of fst "rng m"]
  by (metis gomap_ok_def is_range_def mset_eq_imp_distinct_iff)

lemma length_delete_present:
  "gomap_ok m \<Longrightarrow> (k, v) \<in> set m \<Longrightarrow> Suc (length (AList.delete k m)) = length m"
proof (induction m)
  case (Cons e m)
  then show ?case
  proof (cases "fst e = k")
    case True
    with Cons.prems have "k \<notin> fst ` set m" by (auto simp: gomap_ok_def)
    then have "AList.delete k m = m" by (simp add: delete_idem)
    with True show ?thesis by (cases e) simp
  next
    case False
    with Cons show ?thesis by (cases e) (auto simp: gomap_ok_def)
  qed
qed simp

lemma update_fresh: "k \<notin> fst ` set m \<Longrightarrow> AList.update k v m = m @ [(k, v)]"
  by (induction m) auto

lemma length_update_fresh: "k \<notin> fst ` set m \<Longrightarrow> length (AList.update k v m) = Suc (length m)"
  by (induction m) auto


lemma all_vals_Nil [simp, gomap_simps]: "all_vals P []"
  by (simp add: all_vals_def)

lemma all_vals_update [simp, gomap_simps]: "all_vals P m \<Longrightarrow> P v \<Longrightarrow> all_vals P (AList.update k v m)"
  by (induction m) (auto simp: all_vals_def)

lemma all_vals_delete [simp, gomap_simps]: "all_vals P m \<Longrightarrow> all_vals P (AList.delete k m)"
  by (induction m) (auto simp: all_vals_def)

lemma all_vals_filter [simp, gomap_simps]: "all_vals P m \<Longrightarrow> all_vals P (filter Q m)"
  by (auto simp: all_vals_def)

lemma all_vals_lookup: "all_vals P m \<Longrightarrow> map_of m k = Some v \<Longrightarrow> P v"
  by (force simp: all_vals_def dest: map_of_SomeD)

lemma all_vals_mono: "all_vals P m \<Longrightarrow> (\<And>v. P v \<Longrightarrow> Q v) \<Longrightarrow> all_vals Q m"
  by (auto simp: all_vals_def)

end
