(* ===== verification/Wire_Format.thy ===== *)
theory Wire_Format
  imports Prelude
begin

unbundle bit_operations_syntax

section \<open>The AgenticUDP wire format\<close>

text \<open>
  The V2 datagram (14-byte header) and the V3 datagram (22-byte header) as the client builds
  them (\<open>transport/agenticudp.go\<close>, \<open>transport/agenticudp_v3.go\<close>) and the V2 datagram as the core
  receiver builds, parses and verifies it (\<open>receiver/agenticudp.go\<close>). The lemmas reduce the
  one's-complement checksum to arithmetic modulo 65535 on the sum of the 16-bit words
  (\<open>word_sum\<close>), which gives the round trip and the detection of any single corrupted byte.
\<close>

subsection \<open>Constants\<close>

abbreviation (input) protoV2 :: u8 where "protoV2 \<equiv> 2"
abbreviation (input) protoV3 :: u8 where "protoV3 \<equiv> 3"
abbreviation headerSize :: nat where "headerSize \<equiv> 14"
abbreviation headerSizeV3 :: nat where "headerSizeV3 \<equiv> 22"
abbreviation maxPayload :: nat where "maxPayload \<equiv> 65000"
abbreviation maxPayloadV3 :: nat where "maxPayloadV3 \<equiv> maxPayload - headerSizeV3"

abbreviation (input) pktData :: u8 where "pktData \<equiv> 1"
abbreviation (input) pktACK :: u8 where "pktACK \<equiv> 2"
abbreviation (input) pktNACK :: u8 where "pktNACK \<equiv> 3"
abbreviation (input) pktSACK :: u8 where "pktSACK \<equiv> 4"
abbreviation (input) pktKeepalive :: u8 where "pktKeepalive \<equiv> 5"
abbreviation (input) pktHandshake :: u8 where "pktHandshake \<equiv> 6"
abbreviation (input) pktFIN :: u8 where "pktFIN \<equiv> 7"
abbreviation (input) pktMTUProbe :: u8 where "pktMTUProbe \<equiv> 9"
abbreviation (input) pktMetrics :: u8 where "pktMetrics \<equiv> 10"
abbreviation (input) pktConfig :: u8 where "pktConfig \<equiv> 11"

abbreviation (input) flagFragment :: u8 where "flagFragment \<equiv> 16"
abbreviation (input) flagLastFragment :: u8 where "flagLastFragment \<equiv> 32"
abbreviation (input) flagProtobuf :: u8 where "flagProtobuf \<equiv> 64"
abbreviation (input) flagV3Fragmented :: u8 where "flagV3Fragmented \<equiv> 1"
abbreviation (input) flagV3FragStart :: u8 where "flagV3FragStart \<equiv> 2"
abbreviation (input) flagV3FragEnd :: u8 where "flagV3FragEnd \<equiv> 4"

type_synonym tier = u8

abbreviation (input) TierGuaranteed :: tier where "TierGuaranteed \<equiv> 0"
abbreviation (input) TierReliable :: tier where "TierReliable \<equiv> 1"
abbreviation (input) TierBesteff :: tier where "TierBesteff \<equiv> 2"

subsection \<open>Checksum and content hash\<close>

text \<open>The loop \<open>for i := 0; i+1 < len(data); i += 2\<close> with its accumulator.\<close>

fun checksum_pairs :: "bytes \<Rightarrow> u32 \<Rightarrow> u32" where
  "checksum_pairs (a # b # rest) s = checksum_pairs rest (s + ucast (be16 a b))"
| "checksum_pairs [a] s = s"
| "checksum_pairs [] s = s"

text \<open>The loop \<open>for sum>>16 != 0\<close> that folds the carries back in.\<close>

lemma fold_carry_decreases:
  fixes s :: u32
  assumes "drop_bit 16 s \<noteq> 0"
  shows "unat ((s AND 0xFFFF) + drop_bit 16 s) < unat s"
    and "unat ((s AND 0xFFFF) + drop_bit 16 s) = unat s mod 65536 + unat s div 65536"
proof -
  let ?hi = "unat s div 65536" and ?lo = "unat s mod 65536"
  have hi: "unat (drop_bit 16 s) = ?hi" unfolding unat_drop_bit_eq by (simp add: drop_bit_eq_div)
  have mask: "s AND 0xFFFF = take_bit 16 s" by (simp add: take_bit_eq_mask mask_eq_exp_minus_1)
  have lo: "unat (s AND 0xFFFF) = ?lo"
    unfolding mask unsigned_take_bit_eq by (simp add: take_bit_eq_mod)
  have bound: "unat s < 2 ^ 32" using unsigned_less [of s, where ?'a = nat] by simp
  from bound have "?hi < 65536" by (simp add: div_less_iff_less_mult)
  moreover have "?lo < 65536" by simp
  ultimately have "?lo + ?hi < 2 ^ 32" by simp
  then show eq: "unat ((s AND 0xFFFF) + drop_bit 16 s) = ?lo + ?hi"
    using hi lo by (simp add: unat_word_ariths)
  have "?hi \<noteq> 0" using assms hi by (metis unat_eq_zero)
  moreover have "unat s = 65536 * ?hi + ?lo" by simp
  ultimately show "unat ((s AND 0xFFFF) + drop_bit 16 s) < unat s"
    unfolding eq by linarith
qed

function checksum_fold :: "u32 \<Rightarrow> u32" where
  "checksum_fold s =
     (if drop_bit 16 s \<noteq> 0 then checksum_fold ((s AND 0xFFFF) + drop_bit 16 s) else s)"
  by pat_completeness auto
termination
  by (relation "measure unat") (auto intro: fold_carry_decreases)

declare checksum_fold.simps [simp del]

definition checksumV2 :: "bytes \<Rightarrow> u16" where
  "checksumV2 data =
     (let s = checksum_pairs data 0;
          s = (if length data mod 2 = 1 then s + ucast (last data) else s)
      in NOT (ucast (checksum_fold s)))"

definition fnv1a :: "bytes \<Rightarrow> u32" where
  "fnv1a data = fold (\<lambda>b hash. (hash XOR ucast b) * 16777619) data 2166136261"

subsection \<open>Packet builders\<close>

definition buildPacket ::
  "u8 \<Rightarrow> u8 \<Rightarrow> u8 \<Rightarrow> u16 \<Rightarrow> u16 \<Rightarrow> u32 \<Rightarrow> bytes \<Rightarrow> bytes" where
  "buildPacket pktType tier flags seq streamID contentID payload =
     (let pkt = replicate (headerSize + length payload) 0;
          pkt = pkt[0 := protoV2, 1 := pktType, 2 := tier, 3 := flags];
          pkt = put_u16 pkt 4 seq;
          pkt = put_u16 pkt 6 streamID;
          pkt = put_u32 pkt 8 contentID;
          pkt = put_u16 pkt 12 0;
          pkt = (if length payload > 0 then copy_at pkt headerSize payload else pkt);
          cs = checksumV2 pkt
      in put_u16 pkt 12 cs)"

definition buildPacketV3 ::
  "u8 \<Rightarrow> u8 \<Rightarrow> u8 \<Rightarrow> u16 \<Rightarrow> u16 \<Rightarrow> u32 \<Rightarrow> u16 \<Rightarrow> u16 \<Rightarrow> u32 \<Rightarrow> bytes \<Rightarrow> bytes" where
  "buildPacketV3 pktType tier flags seq streamID msgID fragOffset fragTotal contentID payload =
     (let pkt = replicate (headerSizeV3 + length payload) 0;
          pkt = pkt[0 := protoV3, 1 := pktType, 2 := tier, 3 := flags];
          pkt = put_u16 pkt 4 seq;
          pkt = put_u16 pkt 6 streamID;
          pkt = put_u32 pkt 8 msgID;
          pkt = put_u16 pkt 12 fragOffset;
          pkt = put_u16 pkt 14 fragTotal;
          pkt = put_u32 pkt 16 contentID;
          pkt = put_u16 pkt 20 0;
          pkt = (if length payload > 0 then copy_at pkt headerSizeV3 payload else pkt);
          cs = checksumV2 pkt
      in put_u16 pkt 20 cs)"

subsection \<open>The receiver's parser and verifier\<close>

record PacketHeaderV2 =
  hVersion :: u8
  hType :: u8
  hTier :: u8
  hFlags :: u8
  hSeq :: u16
  hStreamID :: u16
  hContentID :: u32
  hChecksum :: u16

text \<open>\<open>None\<close> is the index-out-of-range panic of a slice that is too short.\<close>

definition parseHeaderV2 :: "bytes \<Rightarrow> PacketHeaderV2 option" where
  "parseHeaderV2 data = do {
     version \<leftarrow> get_u8 data 0;
     type \<leftarrow> get_u8 data 1;
     tier \<leftarrow> get_u8 data 2;
     flags \<leftarrow> get_u8 data 3;
     seq \<leftarrow> get_u16 data 4;
     streamID \<leftarrow> get_u16 data 6;
     contentID \<leftarrow> get_u32 data 8;
     checksum \<leftarrow> get_u16 data 12;
     Some \<lparr>hVersion = version, hType = type, hTier = tier, hFlags = flags, hSeq = seq,
           hStreamID = streamID, hContentID = contentID, hChecksum = checksum\<rparr> }"

definition calculateChecksum :: "bytes \<Rightarrow> u16" where
  "calculateChecksum data =
     (let s = checksum_pairs data 0;
          s = (if length data mod 2 = 1 then s + ucast (last data) else s)
      in NOT (ucast (checksum_fold s)))"

definition buildPacketV2 ::
  "u8 \<Rightarrow> u8 \<Rightarrow> u8 \<Rightarrow> u16 \<Rightarrow> u16 \<Rightarrow> u32 \<Rightarrow> bytes \<Rightarrow> bytes" where
  "buildPacketV2 pktType tier flags seq streamID contentID payload =
     (let pkt = replicate (headerSize + length payload) 0;
          pkt = pkt[0 := protoV2, 1 := pktType, 2 := tier, 3 := flags];
          pkt = put_u16 pkt 4 seq;
          pkt = put_u16 pkt 6 streamID;
          pkt = put_u32 pkt 8 contentID;
          pkt = put_u16 pkt 12 0;
          pkt = (if length payload > 0 then copy_at pkt headerSize payload else pkt);
          cs = calculateChecksum pkt
      in put_u16 pkt 12 cs)"

definition verifyChecksum :: "bytes \<Rightarrow> bool option" where
  "verifyChecksum data = do {
     stored \<leftarrow> get_u16 data 12;
     let tmp = put_u16 data 12 0;
     Some (stored = calculateChecksum tmp) }"

subsection \<open>The checksum as arithmetic modulo 65535\<close>

text \<open>The sum of the 16-bit words of a datagram, an odd last byte counting for itself, and its
  one's-complement reduction to 16 bits.\<close>

fun word_sum :: "bytes \<Rightarrow> nat" where
  "word_sum (a # b # rest) = 256 * unat a + unat b + word_sum rest"
| "word_sum [a] = unat a"
| "word_sum [] = 0"

definition oc16 :: "nat \<Rightarrow> nat" where
  "oc16 n = (if n = 0 then 0 else (n - 1) mod 65535 + 1)"

lemma oc16_le: "oc16 n \<le> 65535"
  by (simp add: oc16_def Suc_le_eq)

lemma oc16_small: "n \<le> 65535 \<Longrightarrow> oc16 n = n"
  by (simp add: oc16_def)

lemma oc16_fold: "oc16 (n mod 65536 + n div 65536) = oc16 n"
proof -
  have n: "n = 65535 * (n div 65536) + (n mod 65536 + n div 65536)" (is "n = 65535 * ?q + ?m")
    using div_mult_mod_eq [of n 65536] by linarith
  show ?thesis
  proof (cases "?m = 0")
    case True
    then show ?thesis using n by (metis add_0_right add_is_0 mult_0_right)
  next
    case False
    then have "n - 1 = (?m - 1) + 65535 * ?q" using n by linarith
    then have "(n - 1) mod 65535 = (?m - 1) mod 65535" by (metis mod_mult_self2)
    moreover have "n \<noteq> 0" using False by auto
    ultimately show ?thesis using False unfolding oc16_def by (simp only: if_False)
  qed
qed

lemma oc16_inj_close:
  assumes "oc16 m = oc16 n" and "m \<le> n" and "n < m + 65535"
  shows "m = n"
proof (cases "m = 0")
  case True
  with assms show ?thesis by (auto simp: oc16_def split: if_splits)
next
  case False
  with assms have eq: "(n - 1) mod 65535 = (m - 1) mod 65535" by (simp add: oc16_def)
  have "(n - 1) - (m - 1) < 65535" using assms False by linarith
  moreover have "65535 dvd (n - 1) - (m - 1)" using eq assms(2) by (metis diff_le_mono mod_eq_dvd_iff_nat)
  ultimately have "(n - 1) - (m - 1) = 0" by (metis dvd_imp_le gr_zeroI leD)
  with assms False show ?thesis by linarith
qed

lemma unat_checksum_fold: "unat (checksum_fold s) = oc16 (unat s)"
proof (induction s rule: checksum_fold.induct)
  case (1 s)
  show ?case
  proof (cases "drop_bit 16 s = 0")
    case True
    then have "unat (drop_bit 16 s) = 0" by (simp only: unsigned_0)
    then have "unat s div 65536 = 0" unfolding unat_drop_bit_eq by (simp add: drop_bit_eq_div)
    then have "unat s \<le> 65535" by linarith
    with True show ?thesis by (simp add: checksum_fold.simps [of s] oc16_small)
  next
    case False
    with "1.IH" show ?thesis
      by (simp add: checksum_fold.simps [of s] fold_carry_decreases(2) oc16_fold)
  qed
qed

lemma word_sum_bound: "word_sum d \<le> 65535 * length d"
proof (induction d rule: word_sum.induct)
  case (1 a b rest)
  have "unat a < 256" "unat b < 256"
    using unsigned_less [of a, where ?'a = nat] unsigned_less [of b, where ?'a = nat] by simp_all
  with 1 show ?case by simp
next
  case (2 a)
  then show ?case using unsigned_less [of a, where ?'a = nat] by simp
qed simp

lemma unat_checksum_pairs:
  "unat s + word_sum d < 2 ^ 32 \<Longrightarrow>
   unat (if length d mod 2 = 1 then checksum_pairs d s + ucast (last d) else checksum_pairs d s)
     = unat s + word_sum d"
proof (induction d s rule: checksum_pairs.induct)
  case (1 a b rest s)
  have w: "unat (ucast (be16 a b) :: u32) = 256 * unat a + unat b"
    by (simp add: unat_ucast_up unat_be16)
  have s: "unat (s + ucast (be16 a b)) = unat s + (256 * unat a + unat b)"
    using "1.prems" by (subst unat_word_ariths) (simp add: w)
  have "last (a # b # rest) = last rest" if "length rest mod 2 = 1"
    using that by (cases rest) auto
  with 1 s show ?case by (auto simp: add.assoc)
next
  case (2 a s)
  then show ?case by (simp add: unat_word_ariths unat_ucast_up)
qed simp

lemma unat_checksumV2:
  assumes "length d \<le> 65535"
  shows "unat (checksumV2 d) = 65535 - oc16 (word_sum d)"
proof -
  let ?s = "if length d mod 2 = 1 then checksum_pairs d 0 + ucast (last d) else checksum_pairs d 0"
  have "word_sum d \<le> 65535 * 65535" using word_sum_bound [of d] assms by (meson le_trans mult_le_mono2)
  then have s: "unat ?s = word_sum d" using unat_checksum_pairs [of 0 d] by simp
  have f: "unat (checksum_fold ?s) = oc16 (word_sum d)" by (simp only: unat_checksum_fold s)
  have "unat (ucast (checksum_fold ?s) :: u16) = oc16 (word_sum d)"
    using f oc16_le [of "word_sum d"] by (simp add: unsigned_ucast_eq take_bit_nat_eq_self_iff)
  moreover have "checksumV2 d = - ucast (checksum_fold ?s) - 1"
    by (simp only: checksumV2_def Let_def not_eq_complement)
  moreover have "unat (- x - 1) = 65535 - unat x" for x :: u16
  proof -
    have "unat (- 1 - x) = unat (- 1 :: u16) - unat x" by (rule unat_sub) simp
    moreover have "- x - 1 = - 1 - x" by simp
    moreover have "unat (- 1 :: u16) = 65535"
      by (simp add: unsigned_minus_1_eq_mask mask_eq_exp_minus_1)
    ultimately show ?thesis by (simp only:)
  qed
  ultimately show ?thesis by simp
qed

subsection \<open>The layout of a built packet\<close>

abbreviation hdr_bytes :: "u8 \<Rightarrow> u8 \<Rightarrow> u8 \<Rightarrow> u16 \<Rightarrow> u16 \<Rightarrow> u32 \<Rightarrow> u16 \<Rightarrow> bytes" where
  "hdr_bytes pt tr fl sq st ci cs \<equiv>
     [2, pt, tr, fl, u16_hi sq, u16_lo sq, u16_hi st, u16_lo st,
      u32_b3 ci, u32_b2 ci, u32_b1 ci, u32_b0 ci, u16_hi cs, u16_lo cs]"

lemma calculateChecksum_eq: "calculateChecksum = checksumV2"
  by (simp add: fun_eq_iff calculateChecksum_def checksumV2_def)

lemma buildPacketV2_eq: "buildPacketV2 = buildPacket"
  by (simp add: fun_eq_iff buildPacketV2_def buildPacket_def calculateChecksum_eq)

lemma buildPacket_layout:
  "buildPacket pt tr fl sq st ci p =
     hdr_bytes pt tr fl sq st ci (checksumV2 (hdr_bytes pt tr fl sq st ci 0 @ p)) @ p"
proof -
  have r: "replicate (14 + length p) (0 :: u8) = replicate 14 0 @ replicate (length p) 0"
    by (simp only: replicate_add)
  have r14: "replicate 14 (0 :: u8) = [0,0,0,0,0,0,0,0,0,0,0,0,0,0]"
    by (simp add: numeral_eq_Suc)
  show ?thesis
    by (cases "p = []")
      (simp_all add: buildPacket_def r r14 put_u16_def put_u32_def copy_at_def Let_def
        numeral_eq_Suc)
qed

lemma length_buildPacket [simp]: "length (buildPacket pt tr fl sq st ci p) = 14 + length p"
  by (simp add: buildPacket_layout)

lemma drop_buildPacket [simp]: "drop 14 (buildPacket pt tr fl sq st ci p) = p"
  by (simp add: buildPacket_layout)

lemma parse_buildPacket:
  "parseHeaderV2 (buildPacket pt tr fl sq st ci p) =
     Some \<lparr>hVersion = 2, hType = pt, hTier = tr, hFlags = fl, hSeq = sq, hStreamID = st,
       hContentID = ci, hChecksum = checksumV2 (hdr_bytes pt tr fl sq st ci 0 @ p)\<rparr>"
  by (simp add: buildPacket_layout parseHeaderV2_def get_u8_def get_u16_def get_u32_def
      numeral_eq_Suc)

lemma verify_buildPacket: "verifyChecksum (buildPacket pt tr fl sq st ci p) = Some True"
  by (simp add: buildPacket_layout verifyChecksum_def get_u16_def put_u16_def
      calculateChecksum_eq numeral_eq_Suc)

lemma buildPacketV3_layout:
  "buildPacketV3 pt tr fl sq st mi fo ft ci p =
     (let h = (\<lambda>cs. [3, pt, tr, fl, u16_hi sq, u16_lo sq, u16_hi st, u16_lo st,
        u32_b3 mi, u32_b2 mi, u32_b1 mi, u32_b0 mi, u16_hi fo, u16_lo fo, u16_hi ft, u16_lo ft,
        u32_b3 ci, u32_b2 ci, u32_b1 ci, u32_b0 ci, u16_hi cs, u16_lo cs])
      in h (checksumV2 (h 0 @ p)) @ p)"
proof -
  have r: "replicate (22 + length p) (0 :: u8) = replicate 22 0 @ replicate (length p) 0"
    by (simp only: replicate_add)
  have r22: "replicate 22 (0 :: u8) = [0,0,0,0,0,0,0,0,0,0,0,0,0,0,0,0,0,0,0,0,0,0]"
    by (simp add: numeral_eq_Suc)
  show ?thesis
    by (cases "p = []")
      (simp_all add: buildPacketV3_def r r22 put_u16_def put_u32_def copy_at_def Let_def
        numeral_eq_Suc)
qed

lemma length_buildPacketV3 [simp]:
  "length (buildPacketV3 pt tr fl sq st mi fo ft ci p) = 22 + length p"
  by (simp add: buildPacketV3_layout Let_def)

lemma drop_buildPacketV3 [simp]:
  "drop 22 (buildPacketV3 pt tr fl sq st mi fo ft ci p) = p"
  by (simp add: buildPacketV3_layout Let_def)

text \<open>The three header fields the client's receive loop reads, and the version byte.\<close>

lemma buildPacketV3_fields:
  "get_u8 (buildPacketV3 pt tr fl sq st mi fo ft ci p) 0 = Some 3"
  "get_u8 (buildPacketV3 pt tr fl sq st mi fo ft ci p) 1 = Some pt"
  "get_u8 (buildPacketV3 pt tr fl sq st mi fo ft ci p) 3 = Some fl"
  "get_u16 (buildPacketV3 pt tr fl sq st mi fo ft ci p) 4 = Some sq"
  "get_u16 (buildPacketV3 pt tr fl sq st mi fo ft ci p) 6 = Some st"
  "get_u32 (buildPacketV3 pt tr fl sq st mi fo ft ci p) 8 = Some mi"
  "get_u16 (buildPacketV3 pt tr fl sq st mi fo ft ci p) 12 = Some fo"
  "get_u16 (buildPacketV3 pt tr fl sq st mi fo ft ci p) 14 = Some ft"
  by (simp_all add: buildPacketV3_layout Let_def get_u8_def get_u16_def get_u32_def numeral_eq_Suc)

lemma buildPacket_fields:
  "get_u8 (buildPacket pt tr fl sq st ci p) 0 = Some 2"
  "get_u8 (buildPacket pt tr fl sq st ci p) 1 = Some pt"
  "get_u16 (buildPacket pt tr fl sq st ci p) 4 = Some sq"
  "get_u16 (buildPacket pt tr fl sq st ci p) 6 = Some st"
  by (simp_all add: buildPacket_layout get_u8_def get_u16_def numeral_eq_Suc)

subsection \<open>Corruption of one byte\<close>

lemma word_sum_update:
  "i < length d \<Longrightarrow> \<exists>w \<in> {1, 256}. word_sum (d[i := b]) + w * unat (d ! i) = word_sum d + w * unat b"
proof (induction d arbitrary: i rule: word_sum.induct)
  case (1 x y rest)
  show ?case
  proof (cases i)
    case 0
    then show ?thesis by (intro bexI [of _ 256]) auto
  next
    case (Suc j)
    show ?thesis
    proof (cases j)
      case 0
      with Suc show ?thesis by (intro bexI [of _ 1]) auto
    next
      case (Suc k)
      with \<open>i = Suc j\<close> "1.prems" have "k < length rest" by simp
      from "1.IH" [OF this] Suc \<open>i = Suc j\<close> show ?thesis by auto
    qed
  qed
qed auto

lemma oc16_word_sum_update:
  assumes "i < length d" and "b \<noteq> d ! i"
  shows "oc16 (word_sum (d[i := b])) \<noteq> oc16 (word_sum d)"
proof
  assume eq: "oc16 (word_sum (d[i := b])) = oc16 (word_sum d)"
  from word_sum_update [OF assms(1), of b] obtain w where "w \<in> {1, 256}"
    and upd: "word_sum (d[i := b]) + w * unat (d ! i) = word_sum d + w * unat b" by blast
  then have w: "w = 1 \<or> w = 256" by simp
  have lt: "unat b < 256" "unat (d ! i) < 256"
    using unsigned_less [of b, where ?'a = nat] unsigned_less [of "d ! i", where ?'a = nat] by simp_all
  with w have "w * unat b < 65535" "w * unat (d ! i) < 65535" by auto
  with upd have "word_sum (d[i := b]) = word_sum d"
    using oc16_inj_close [OF eq] oc16_inj_close [OF eq [symmetric]] by linarith
  with upd w have "unat b = unat (d ! i)" by auto
  with assms(2) show False by (simp add: word_unat_eq_iff)
qed

lemma put_u16_zero_same: "put_u16 (d[i := b]) 12 0 = put_u16 d 12 0" if "i = 12 \<or> i = 13"
  using that by (auto simp: put_u16_def list_update_swap)

lemma put_u16_zero_other:
  "i \<noteq> 12 \<Longrightarrow> i \<noteq> 13 \<Longrightarrow> put_u16 (d[i := b]) 12 0 = (put_u16 d 12 0)[i := b]"
  by (simp add: put_u16_def list_update_swap)

subsection \<open>Properties\<close>

text \<open>Property C22. Whatever the client builds, the receiver parses back: every header field, a
  checksum that verifies, and the payload after the 14 header bytes.\<close>

theorem client_packet_round_trip:
  "\<exists>cs. parseHeaderV2 (buildPacket pt tr fl sq st ci p) =
       Some \<lparr>hVersion = protoV2, hType = pt, hTier = tr, hFlags = fl, hSeq = sq, hStreamID = st,
         hContentID = ci, hChecksum = cs\<rparr>
     \<and> verifyChecksum (buildPacket pt tr fl sq st ci p) = Some True
     \<and> drop headerSize (buildPacket pt tr fl sq st ci p) = p"
  by (auto simp: parse_buildPacket verify_buildPacket drop_buildPacket)

text \<open>Changing any one byte of a datagram that verifies makes it fail to verify: the
  checksum detects every single corrupted byte, the checksum field included.\<close>

theorem corrupted_byte_rejected:
  assumes len: "headerSize \<le> length d" "length d \<le> 65535"
    and ok: "verifyChecksum d = Some True" and i: "i < length d" "b \<noteq> d ! i"
  shows "verifyChecksum (d[i := b]) = Some False"
proof (cases "i = 12 \<or> i = 13")
  case True
  have "be16 ((d[i := b]) ! 12) ((d[i := b]) ! 13) \<noteq> be16 (d ! 12) (d ! 13)"
    using True i len by (auto simp: word_unat_eq_iff unat_be16)
  with True ok len show ?thesis
    by (auto simp: verifyChecksum_def get_u16_def put_u16_zero_same)
next
  case False
  let ?t = "put_u16 d 12 0"
  have "?t ! i = d ! i" using False by (simp add: put_u16_def)
  then have "oc16 (word_sum (?t[i := b])) \<noteq> oc16 (word_sum ?t)"
    using i by (intro oc16_word_sum_update) simp_all
  then have "unat (checksumV2 (?t[i := b])) \<noteq> unat (checksumV2 ?t)"
    using len oc16_le [of "word_sum ?t"] oc16_le [of "word_sum (?t[i := b])"]
    by (simp add: unat_checksumV2)
  then have "checksumV2 (?t[i := b]) \<noteq> checksumV2 ?t" by auto
  with False ok len show ?thesis
    by (auto simp: verifyChecksum_def get_u16_def put_u16_zero_other calculateChecksum_eq)
qed

theorem corrupted_byte_rejected_witness:
  "verifyChecksum ((buildPacket 1 0 0 1 0 0 [7])[14 := 8]) = Some False"
  using corrupted_byte_rejected [of "buildPacket 1 0 0 1 0 0 [7]" 14 8]
  by (simp add: verify_buildPacket) (simp add: buildPacket_layout)

text \<open>Property C23. The checksum loop ends and computes the complement of the one's-complement
  sum of the datagram's 16-bit words, without overflow, for every UDP-sized datagram.\<close>

theorem checksum_is_ones_complement:
  assumes "length d \<le> 65535"
  shows "unat (checksumV2 d) = 65535 - oc16 (word_sum d) \<and> calculateChecksum d = checksumV2 d"
  using assms by (simp_all add: unat_checksumV2 calculateChecksum_eq)

theorem checksum_is_ones_complement_witness:
  "unat (checksumV2 [0x45, 0x00, 0x01]) = 65535 - oc16 (256 * 0x45 + 1)"
  using checksum_is_ones_complement [of "[0x45, 0x00, 0x01]"] by simp

end
