(* ===== verification/Client_Config.thy ===== *)
theory Client_Config
  imports Prelude
begin

section \<open>Environment knobs and the retransmission timeout\<close>

text \<open>
  The tunables that the client (\<open>transport/agenticudp.go\<close>) and the receiver
  (\<open>receiver/agenticudp.go\<close>) read from the environment, and \<open>computeRTO\<close>, the per-packet
  timeout with capped exponential backoff. \<open>os.Getenv\<close> is the argument \<open>env\<close> (it returns the
  empty string for an unset variable). \<open>strings.TrimSpace\<close> and \<open>strconv.ParseInt(s, 10, 64)\<close> are
  modelled on the bytes of the string, white space being the UTF-8 encodings of the runes
  of \<open>unicode.IsSpace\<close>.
\<close>

subsection \<open>strings.TrimSpace and strconv.ParseInt\<close>

definition white_space :: "string list" where
  "white_space = map (map char_of)
     ([[9], [10], [11], [12], [13], [32], [0xC2, 0x85], [0xC2, 0xA0], [0xE1, 0x9A, 0x80]]
      @ map (\<lambda>b. [0xE2, 0x80, b]) [0x80, 0x81, 0x82, 0x83, 0x84, 0x85, 0x86, 0x87, 0x88, 0x89, 0x8A,
          0xA8, 0xA9, 0xAF]
      @ [[0xE2, 0x81, 0x9F], [0xE3, 0x80, 0x80 :: nat]])"

function strip_prefixes :: "string list \<Rightarrow> string \<Rightarrow> string" where
  "strip_prefixes ps s =
     (case find (\<lambda>p. p \<noteq> [] \<and> take (length p) s = p) ps of
        None \<Rightarrow> s
      | Some p \<Rightarrow> strip_prefixes ps (drop (length p) s))"
  by pat_completeness auto
termination
proof (relation "measure (\<lambda>(ps, s). length s)")
  fix ps s p assume "find (\<lambda>p. p \<noteq> [] \<and> take (length p) s = p) ps = Some p"
  then have "p \<noteq> []" "take (length p) s = p" by (auto simp: find_Some_iff)
  then have "0 < length p" "s \<noteq> []" by auto
  then show "((ps, drop (length p) s), (ps, s)) \<in> measure (\<lambda>(ps, s). length s)" by simp
qed simp

declare strip_prefixes.simps [simp del]

definition trim_space :: "string \<Rightarrow> string" where
  "trim_space s =
     rev (strip_prefixes (map rev white_space) (rev (strip_prefixes white_space s)))"

lemma trim_space_Nil [simp]: "trim_space [] = []"
proof -
  have "strip_prefixes ps [] = []" for ps
    by (subst strip_prefixes.simps) (auto simp: find_Some_iff split: option.split)
  then show ?thesis by (simp add: trim_space_def)
qed

definition digit_val :: "char \<Rightarrow> int option" where
  "digit_val c = (let n = int (of_char c) in if 48 \<le> n \<and> n \<le> 57 then Some (n - 48) else None)"

fun parse_digits :: "string \<Rightarrow> int \<Rightarrow> int option" where
  "parse_digits [] acc = Some acc"
| "parse_digits (c # cs) acc =
     (case digit_val c of None \<Rightarrow> None | Some d \<Rightarrow> parse_digits cs (acc * 10 + d))"

text \<open>\<open>None\<close> is a syntax or range error.\<close>

definition parse_int64 :: "string \<Rightarrow> int option" where
  "parse_int64 s =
     (let neg = (s \<noteq> [] \<and> hd s = CHR ''-'');
          body = (if s \<noteq> [] \<and> (hd s = CHR ''-'' \<or> hd s = CHR ''+'') then tl s else s)
      in if body = [] then None
         else case parse_digits body 0 of
           None \<Rightarrow> None
         | Some u \<Rightarrow> (if neg then (if u > 2 ^ 63 then None else Some (- u))
                     else (if u \<ge> 2 ^ 63 then None else Some u)))"

subsection \<open>Environment knobs\<close>

abbreviation defaultBaseRTOMs :: int where "defaultBaseRTOMs \<equiv> 2000"
abbreviation defaultMaxRTOMs :: int where "defaultMaxRTOMs \<equiv> 30000"
abbreviation defaultMaxRetransmitsPerTick :: int where "defaultMaxRetransmitsPerTick \<equiv> 64"

definition defaultMaxInflightFromEnv :: "(string \<Rightarrow> string) \<Rightarrow> int" where
  "defaultMaxInflightFromEnv env =
     (let raw = trim_space (env ''ENTROPYOPS_AGENT_UDP_MAX_INFLIGHT'')
      in if raw = [] then 64
         else case parse_int64 raw of
           None \<Rightarrow> 64
         | Some v \<Rightarrow> (if v < 0 then 64 else v))"

definition envInt64Positive :: "(string \<Rightarrow> string) \<Rightarrow> string \<Rightarrow> int \<Rightarrow> int" where
  "envInt64Positive env key def =
     (let raw = trim_space (env key)
      in if raw = [] then def
         else case parse_int64 raw of
           None \<Rightarrow> def
         | Some v \<Rightarrow> (if v \<le> 0 then def else v))"

definition defaultBaseRTOFromEnv :: "(string \<Rightarrow> string) \<Rightarrow> int" where
  "defaultBaseRTOFromEnv env =
     envInt64Positive env ''ENTROPYOPS_AGENT_UDP_RETRANSMIT_MS'' defaultBaseRTOMs"

definition defaultMaxRTOFromEnv :: "(string \<Rightarrow> string) \<Rightarrow> int" where
  "defaultMaxRTOFromEnv env =
     envInt64Positive env ''ENTROPYOPS_AGENT_UDP_RETRANSMIT_MAX_MS'' defaultMaxRTOMs"

definition defaultRetransmitBudgetFromEnv :: "(string \<Rightarrow> string) \<Rightarrow> int" where
  "defaultRetransmitBudgetFromEnv env =
     envInt64Positive env ''ENTROPYOPS_AGENT_UDP_RETRANSMIT_BUDGET'' defaultMaxRetransmitsPerTick"

text \<open>The receiver's variant: no sign check, \<open>strconv.Atoi\<close> on a 64-bit \<open>int\<close>.\<close>

definition envIntDefault :: "(string \<Rightarrow> string) \<Rightarrow> string \<Rightarrow> int \<Rightarrow> int" where
  "envIntDefault env name fallback =
     (let raw = trim_space (env name)
      in if raw = [] then fallback
         else case parse_int64 raw of None \<Rightarrow> fallback | Some v \<Rightarrow> v)"

subsection \<open>computeRTO\<close>

text \<open>\<open>baseRTOMs << uint(retries)\<close> and the multiplication by \<open>time.Millisecond\<close> wrap at 64 bits.\<close>

definition computeRTO :: "int \<Rightarrow> int \<Rightarrow> int \<Rightarrow> duration" where
  "computeRTO baseRTOMs maxRTOMs retries =
     (let baseRTOMs = (if baseRTOMs \<le> 0 then defaultBaseRTOMs else baseRTOMs);
          maxRTOMs = (if maxRTOMs \<le> 0 \<or> maxRTOMs < baseRTOMs then baseRTOMs else maxRTOMs);
          retries = (if retries < 0 then 0 else retries);
          rtoMs = (if retries \<ge> 31 then maxRTOMs
                   else let r = i64 (baseRTOMs * 2 ^ nat retries)
                        in if r > maxRTOMs \<or> r < baseRTOMs then maxRTOMs else r)
      in i64 (rtoMs * millisecond))"

subsection \<open>Lemmas\<close>

lemma parse_digits_nonneg: "parse_digits s acc = Some v \<Longrightarrow> 0 \<le> acc \<Longrightarrow> acc \<le> v"
proof (induction s arbitrary: acc)
  case (Cons c cs)
  from Cons.prems obtain d where d: "digit_val c = Some d" and r: "parse_digits cs (acc * 10 + d) = Some v"
    by (auto split: option.splits)
  from d have "0 \<le> d" by (auto simp: digit_val_def Let_def split: if_splits)
  with Cons.IH [OF r] Cons.prems(2) show ?case by auto
qed simp

lemma parse_int64_range: "parse_int64 s = Some v \<Longrightarrow> in_i64 v"
  by (auto simp: parse_int64_def in_i64_def Let_def split: if_splits option.splits
      dest!: parse_digits_nonneg)

lemma envInt64Positive_pos: "0 < def \<Longrightarrow> 0 < envInt64Positive env key def"
  by (auto simp: envInt64Positive_def Let_def split: option.splits)

lemma envInt64Positive_range: "in_i64 def \<Longrightarrow> in_i64 (envInt64Positive env key def)"
  by (auto simp: envInt64Positive_def Let_def split: option.splits dest: parse_int64_range)

lemma in_i64I: "0 \<le> x \<Longrightarrow> x \<le> 2 ^ 32 * 2 ^ 30 \<Longrightarrow> in_i64 x"
  by (simp add: in_i64_def)

lemma small_in_i64: "in_i64 2000" "in_i64 30000" "in_i64 64"
  by (simp_all add: in_i64_def)

lemma defaultMaxInflight_nonneg: "0 \<le> defaultMaxInflightFromEnv env"
  by (auto simp: defaultMaxInflightFromEnv_def Let_def split: option.splits)

lemma env_defaults_pos [simp]:
  "0 < defaultBaseRTOFromEnv env" "0 < defaultMaxRTOFromEnv env"
  "0 < defaultRetransmitBudgetFromEnv env"
  by (simp_all add: defaultBaseRTOFromEnv_def defaultMaxRTOFromEnv_def
      defaultRetransmitBudgetFromEnv_def envInt64Positive_pos)

text \<open>The decimal printer of \<open>strconv.FormatInt\<close>, the reference the parser is checked against.\<close>

fun digits_of :: "nat \<Rightarrow> string" where
  "digits_of n = (if n < 10 then [char_of (48 + n)]
     else digits_of (n div 10) @ [char_of (48 + n mod 10)])"

declare digits_of.simps [simp del]

definition format_int :: "int \<Rightarrow> string" where
  "format_int v = (if v < 0 then CHR ''-'' # digits_of (nat (- v)) else digits_of (nat v))"

lemma digit_val_char_of: "d < 10 \<Longrightarrow> digit_val (char_of (48 + d)) = Some (int d)"
  by (simp add: digit_val_def)

lemma parse_digits_append:
  "parse_digits (s @ t) acc = Option.bind (parse_digits s acc) (parse_digits t)"
  by (induction s arbitrary: acc) (auto split: option.splits)

lemma parse_digits_of: "parse_digits (digits_of n) 0 = Some (int n)"
proof (induction n rule: digits_of.induct)
  case (1 n)
  show ?case
  proof (cases "n < 10")
    case True
    then show ?thesis by (subst digits_of.simps) (simp add: digit_val_char_of)
  next
    case False
    have "int (n div 10) * 10 + int (n mod 10) = int n"
      by (metis div_mult_mod_eq of_nat_add of_nat_mult of_nat_numeral)
    with False 1 show ?thesis
      by (subst digits_of.simps) (simp add: parse_digits_append digit_val_char_of)
  qed
qed

lemma digits_of_hd: "digits_of n \<noteq> [] \<and> digit_val (hd (digits_of n)) \<noteq> None"
proof (induction n rule: digits_of.induct)
  case (1 n)
  then show ?case
    by (cases "n < 10"; subst (1 2) digits_of.simps) (auto simp: digit_val_char_of)
qed

lemma digits_of_no_sign: "hd (digits_of n) \<noteq> CHR ''-''" "hd (digits_of n) \<noteq> CHR ''+''"
proof -
  have "digit_val (CHR ''-'') = None" "digit_val (CHR ''+'') = None"
    by (simp_all add: digit_val_def)
  with digits_of_hd [of n] show "hd (digits_of n) \<noteq> CHR ''-''" "hd (digits_of n) \<noteq> CHR ''+''"
    by metis+
qed


lemma parse_format: "in_i64 v \<Longrightarrow> parse_int64 (format_int v) = Some v"
  using digits_of_hd digits_of_no_sign
  by (auto simp: parse_int64_def format_int_def in_i64_def Let_def parse_digits_of)

lemma envInt64Positive_parsed:
  assumes "trim_space (env k) = format_int v" "0 < v" "in_i64 v"
  shows "envInt64Positive env k def = v"
  using assms digits_of_hd [of "nat v"] parse_format [of v]
  by (simp add: envInt64Positive_def format_int_def)

text \<open>The shift either keeps its value, or its result is replaced by the ceiling.\<close>

lemma computeRTO_valid:
  assumes "0 < b" "b \<le> m"
  shows "computeRTO b m r =
    i64 ((if r \<ge> 31 then m
          else let x = i64 (b * 2 ^ nat (max 0 r)) in if x > m \<or> x < b then m else x) * millisecond)"
  using assms by (cases "r < 0") (auto simp: computeRTO_def Let_def max_def)

lemma computeRTO_range_aux:
  assumes "0 < b" "b \<le> m" "m * millisecond < 2 ^ 63"
  shows "b * millisecond \<le> computeRTO b m r \<and> computeRTO b m r \<le> m * millisecond"
proof -
  define q where "q = (if r \<ge> 31 then m
    else let x = i64 (b * 2 ^ nat (max 0 r)) in if x > m \<or> x < b then m else x)"
  have q: "b \<le> q" "q \<le> m" using assms by (auto simp: q_def Let_def)
  with assms have "in_i64 (q * millisecond)" by (simp add: in_i64_def)
  then have "computeRTO b m r = q * millisecond"
    using computeRTO_valid [OF assms(1,2)] by (simp add: q_def)
  with q show ?thesis by simp
qed

lemma computeRTO_exact_aux:
  assumes "0 < b" "b \<le> 2 ^ 32" "b \<le> m" "m \<le> b * 2 ^ 31" "m * millisecond < 2 ^ 63"
  shows "computeRTO b m (int r) = min (b * 2 ^ r) m * millisecond"
proof (cases "31 \<le> r")
  case True
  then have "(2 :: int) ^ 31 \<le> 2 ^ r" by (intro power_increasing) simp_all
  with assms have "b * 2 ^ 31 \<le> b * 2 ^ r" by (intro mult_left_mono) simp_all
  with assms(4) have "m \<le> b * 2 ^ r" by (rule order_trans)
  then have "min (b * 2 ^ r) m = m" by simp
  moreover have "in_i64 (m * millisecond)" using assms by (simp add: in_i64_def)
  ultimately show ?thesis using True assms by (simp add: computeRTO_valid)
next
  case False
  then have "(2 :: int) ^ r \<le> 2 ^ 30" by (intro power_increasing) simp_all
  with assms have "b * 2 ^ r \<le> 2 ^ 32 * 2 ^ 30" by (intro mult_mono) simp_all
  moreover have ge: "b \<le> b * 2 ^ r" using assms by simp
  moreover have "0 \<le> b * 2 ^ r" using assms by simp
  ultimately have i: "i64 (b * 2 ^ r) = b * 2 ^ r"
    by (intro i64_id in_i64I) simp_all
  define x where "x = min (b * 2 ^ r) m"
  have "0 < x" "x \<le> m" using assms by (simp_all add: x_def)
  then have "in_i64 (x * millisecond)" using assms(5) by (simp add: in_i64_def)
  then have "in_i64 (min (b * 2 ^ r) m * millisecond)" by (simp only: x_def)
  moreover have "\<not> (2 :: int) ^ r < 1" by (simp add: not_less)
  ultimately show ?thesis
    using False assms(1,3) i by (auto simp: computeRTO_valid min_def)
qed

subsection \<open>Properties\<close>

text \<open>Backoff stays between the first-retry delay and the ceiling, whatever the retry
  count: an overflowing shift never yields a shorter or a negative timeout.\<close>

theorem rto_within_limits:
  assumes "0 < b" "b \<le> m" "m * millisecond < 2 ^ 63"
  shows "b * millisecond \<le> computeRTO b m r \<and> computeRTO b m r \<le> m * millisecond"
  by (rule computeRTO_range_aux [OF assms])

theorem rto_within_limits_witness:
  "2000 * millisecond \<le> computeRTO 2000 30000 45 \<and> computeRTO 2000 30000 45 \<le> 30000 * millisecond"
  using rto_within_limits [of 2000 30000 45] by simp

text \<open>Property C36. The timeout after \<open>r\<close> retries is exactly the doubled base, capped:
  \<open>min (base * 2^r) max\<close> milliseconds, for every retry count, when the base is at most 2^32 ms and
  the ceiling is reached within 31 doublings (both hold for the defaults 2000 and 30000).\<close>

theorem rto_is_capped_exponential:
  assumes "0 < b" "b \<le> 2 ^ 32" "b \<le> m" "m \<le> b * 2 ^ 31" "m * millisecond < 2 ^ 63"
  shows "computeRTO b m (int r) = min (b * 2 ^ r) m * millisecond"
  by (rule computeRTO_exact_aux [OF assms])

theorem rto_is_capped_exponential_witness: "computeRTO 2000 30000 (int 3) = 16000 * millisecond"
  using rto_is_capped_exponential [of 2000 30000 3] by simp

text \<open>Whatever the environment holds, the knobs read from it are usable: the RTOs and
  the budget are positive 64-bit numbers and the window is not negative, so a malformed, zero or
  negative setting can neither disable retransmission nor lift the per-tick budget.\<close>

theorem env_knobs_sane:
  "0 < defaultBaseRTOFromEnv env \<and> in_i64 (defaultBaseRTOFromEnv env)
    \<and> 0 < defaultMaxRTOFromEnv env \<and> in_i64 (defaultMaxRTOFromEnv env)
    \<and> 0 < defaultRetransmitBudgetFromEnv env \<and> in_i64 (defaultRetransmitBudgetFromEnv env)
    \<and> 0 \<le> defaultMaxInflightFromEnv env"
  by (simp add: defaultMaxInflight_nonneg defaultBaseRTOFromEnv_def defaultMaxRTOFromEnv_def
      defaultRetransmitBudgetFromEnv_def envInt64Positive_pos envInt64Positive_range small_in_i64)

end
