(* ===== verification/Congestion.thy ===== *)
theory Congestion
  imports Prelude
begin

section \<open>The congestion predictor\<close>

text \<open>
  \<open>transport/ai_congestion.go\<close>: sliding windows of round-trip and loss observations, the
  prediction computed from them, and the traffic-shaping parameters derived from the prediction.
  \<open>float64\<close> is read as \<open>real\<close>: rounding, infinities and NaN are outside the model. \<open>time.Now()\<close> is
  the argument \<open>now\<close>; the mutex makes each method one atomic step.
\<close>

subsection \<open>State\<close>

record rttSample =
  rttTime :: gotime
  rttValue :: real

record lossSample =
  lossTime :: gotime
  lossValue :: real

record CongestionPrediction =
  Timestamp :: gotime
  Probability :: real
  Severity :: string
  RecommendedAction :: string
  PredictedRTTMs :: real
  PredictedLoss :: real

record ShapingParams =
  MaxBatchSizeKB :: int
  PacingIntervalMs :: int
  FragmentSizeKB :: int
  DeferBestEffort :: bool
  BackoffDuration :: duration

record CongestionPredictor =
  rttHistory :: "rttSample list"
  lossHistory :: "lossSample list"
  windowSize :: nat
  predictions :: "CongestionPrediction list"

definition NewCongestionPredictor :: CongestionPredictor where
  "NewCongestionPredictor =
     \<lparr>rttHistory = [], lossHistory = [], windowSize = 300, predictions = []\<rparr>"

subsection \<open>Recording\<close>

definition RecordRTT :: "gotime \<Rightarrow> real \<Rightarrow> CongestionPredictor \<Rightarrow> CongestionPredictor" where
  "RecordRTT now rttMs cp =
     (let h = rttHistory cp @ [\<lparr>rttTime = now, rttValue = rttMs\<rparr>];
          h = (if length h > windowSize cp then drop 1 h else h)
      in cp\<lparr>rttHistory := h\<rparr>)"

definition RecordLoss :: "gotime \<Rightarrow> real \<Rightarrow> CongestionPredictor \<Rightarrow> CongestionPredictor" where
  "RecordLoss now lossRate cp =
     (let h = lossHistory cp @ [\<lparr>lossTime = now, lossValue = lossRate\<rparr>];
          h = (if length h > windowSize cp then drop 1 h else h)
      in cp\<lparr>lossHistory := h\<rparr>)"

subsection \<open>Statistics\<close>

definition computeTrend :: "rttSample list \<Rightarrow> real" where
  "computeTrend samples =
     (let n = length samples
      in if n < 5 then 0
         else let recent = drop (n - 5) samples;
                  v0 = rttValue (hd recent);
                  ewma = fold (\<lambda>s e. 0.3 * rttValue s + (1 - 0.3) * e) (tl recent) v0
              in (ewma - v0) / real (length recent))"

definition computeStats :: "rttSample list \<Rightarrow> real \<times> real" where
  "computeStats samples =
     (let n = real (length samples);
          (s, sq) = fold (\<lambda>x (s, sq). (s + rttValue x, sq + rttValue x * rttValue x)) samples (0, 0);
          mean = s / n;
          variance = sq / n - mean * mean;
          variance = (if variance < 0 then 0 else variance)
      in (mean, sqrt variance))"

definition computeLossTrend :: "CongestionPredictor \<Rightarrow> real" where
  "computeLossTrend cp =
     (let n = length (lossHistory cp)
      in if n < 5 then 0
         else let recent = drop (n - 5) (lossHistory cp)
              in (lossValue (recent ! (length recent - 1)) - lossValue (recent ! 0))
                   / real (length recent))"

definition computeLossMean :: "CongestionPredictor \<Rightarrow> real" where
  "computeLossMean cp =
     fold (\<lambda>x s. s + lossValue x) (lossHistory cp) 0 / real (length (lossHistory cp))"

subsection \<open>Prediction and shaping\<close>

text \<open>The \<open>switch\<close> on the probability: severity and recommended action.\<close>

definition severity_action :: "real \<Rightarrow> string \<times> string" where
  "severity_action probability =
     (if probability > 0.8 then (''severe'', ''defer'')
      else if probability > 0.6 then (''moderate'', ''reduce'')
      else if probability > 0.3 then (''mild'', ''pace'')
      else (''none'', ''normal''))"

text \<open>The logistic RTT score blended with the clipped loss score.\<close>

definition congestion_probability :: "real \<Rightarrow> real \<Rightarrow> real" where
  "congestion_probability rttScore predictedLoss =
     (let rttProb = 1 / (1 + exp (- 0.5 * (rttScore - 1.5)));
          lossProb = min (predictedLoss * 10) 1
      in 0.6 * rttProb + 0.4 * lossProb)"

definition Predict :: "gotime \<Rightarrow> CongestionPredictor \<Rightarrow> CongestionPredictor \<times> CongestionPrediction" where
  "Predict now cp =
     (if length (rttHistory cp) < 10
      then (cp, \<lparr>Timestamp = now, Probability = 0, Severity = ''none'',
              RecommendedAction = ''normal'', PredictedRTTMs = 0, PredictedLoss = 0\<rparr>)
      else
        let rttTrend = computeTrend (rttHistory cp);
            (rttMean, rttStddev) = computeStats (rttHistory cp);
            (lossTrend, lossMean) =
              (if length (lossHistory cp) > 5 then (computeLossTrend cp, computeLossMean cp)
               else (0, 0));
            predictedRTT = rttMean + rttTrend * 30;
            predictedLoss = lossMean + lossTrend * 30;
            predictedLoss = (if predictedLoss < 0 then 0 else predictedLoss);
            rttScore = (if rttStddev > 0 then (predictedRTT - rttMean) / rttStddev else 0);
            probability = congestion_probability rttScore predictedLoss;
            (severity, action) = severity_action probability;
            pred = \<lparr>Timestamp = now, Probability = probability, Severity = severity,
                     RecommendedAction = action, PredictedRTTMs = predictedRTT,
                     PredictedLoss = predictedLoss\<rparr>;
            ps = predictions cp @ [pred];
            ps = (if length ps > 60 then drop 1 ps else ps)
        in (cp\<lparr>predictions := ps\<rparr>, pred))"

definition shaping_for :: "string \<Rightarrow> ShapingParams" where
  "shaping_for action =
     (let params = \<lparr>MaxBatchSizeKB = 32, PacingIntervalMs = 0, FragmentSizeKB = 1400,
                    DeferBestEffort = False, BackoffDuration = 0\<rparr>
      in if action = ''pace'' then params\<lparr>PacingIntervalMs := 50, MaxBatchSizeKB := 24\<rparr>
         else if action = ''reduce''
         then params\<lparr>PacingIntervalMs := 100, MaxBatchSizeKB := 16, FragmentSizeKB := 1000,
                DeferBestEffort := True\<rparr>
         else if action = ''defer''
         then params\<lparr>PacingIntervalMs := 200, MaxBatchSizeKB := 8, FragmentSizeKB := 576,
                DeferBestEffort := True, BackoffDuration := 5 * second\<rparr>
         else params)"

definition RecommendShaping ::
  "gotime \<Rightarrow> CongestionPredictor \<Rightarrow> CongestionPredictor \<times> ShapingParams" where
  "RecommendShaping now cp =
     (let (cp', pred) = Predict now cp in (cp', shaping_for (RecommendedAction pred)))"

subsection \<open>Invariant\<close>

definition predictor_ok :: "CongestionPredictor \<Rightarrow> bool" where
  "predictor_ok cp \<longleftrightarrow> windowSize cp = 300 \<and> length (rttHistory cp) \<le> 300
     \<and> length (lossHistory cp) \<le> 300 \<and> length (predictions cp) \<le> 60
     \<and> (\<forall>p \<in> set (predictions cp). 0 \<le> Probability p \<and> Probability p \<le> 1)"

lemma push_window:
  "xs = drop (length ys - n) ys \<Longrightarrow> 0 < n \<Longrightarrow>
   (if length (xs @ [y]) > n then drop 1 (xs @ [y]) else xs @ [y])
     = drop (length (ys @ [y]) - n) (ys @ [y])"
  by (auto simp: not_less Suc_diff_le min_def)

lemma predictor_ok_new [simp]: "predictor_ok NewCongestionPredictor"
  by (simp add: predictor_ok_def NewCongestionPredictor_def)

lemma predictor_ok_RecordRTT [simp]: "predictor_ok cp \<Longrightarrow> predictor_ok (RecordRTT now x cp)"
  by (auto simp: predictor_ok_def RecordRTT_def Let_def)

lemma predictor_ok_RecordLoss [simp]: "predictor_ok cp \<Longrightarrow> predictor_ok (RecordLoss now x cp)"
  by (auto simp: predictor_ok_def RecordLoss_def Let_def)

lemma congestion_probability_bounds:
  assumes "0 \<le> l"
  shows "0 \<le> congestion_probability r l \<and> congestion_probability r l \<le> 1"
proof -
  define p where "p = 1 / (1 + exp (- 0.5 * (r - 1.5)))"
  define q where "q = min (l * 10) 1"
  have "0 < p" "p < 1" unfolding p_def by (simp_all add: add_pos_pos)
  moreover have "0 \<le> q" "q \<le> 1" using assms by (simp_all add: q_def)
  moreover have "congestion_probability r l = 0.6 * p + 0.4 * q"
    unfolding congestion_probability_def p_def q_def Let_def ..
  ultimately show ?thesis by simp
qed

lemma Predict_probability:
  "0 \<le> Probability (snd (Predict now cp)) \<and> Probability (snd (Predict now cp)) \<le> 1"
  unfolding Predict_def
  by (simp add: Let_def case_prod_beta congestion_probability_bounds)

lemma Predict_action:
  "RecommendedAction (snd (Predict now cp)) = snd (severity_action (Probability (snd (Predict now cp))))
   \<and> Severity (snd (Predict now cp)) = fst (severity_action (Probability (snd (Predict now cp))))"
  by (auto simp: Predict_def Let_def case_prod_beta severity_action_def)

lemma Predict_state:
  "fst (Predict now cp) =
     (if length (rttHistory cp) < 10 then cp
      else cp\<lparr>predictions := (let ps = predictions cp @ [snd (Predict now cp)]
                            in if length ps > 60 then drop 1 ps else ps)\<rparr>)"
  by (simp add: Predict_def Let_def case_prod_beta)

lemma predictor_ok_Predict [simp]:
  assumes "predictor_ok cp"
  shows "predictor_ok (fst (Predict now cp))"
  using assms Predict_probability [of now cp] unfolding predictor_ok_def Predict_state
  by (auto simp: Let_def dest: in_set_dropD)

lemma predictor_ok_RecommendShaping [simp]:
  "predictor_ok cp \<Longrightarrow> predictor_ok (fst (RecommendShaping now cp))"
  by (simp add: RecommendShaping_def case_prod_beta)

text \<open>The states a predictor can be in: any interleaving of its methods from a new one.\<close>

inductive predictor_reachable :: "CongestionPredictor \<Rightarrow> bool" where
  pr_new: "predictor_reachable NewCongestionPredictor"
| pr_rtt: "predictor_reachable cp \<Longrightarrow> predictor_reachable (RecordRTT now x cp)"
| pr_loss: "predictor_reachable cp \<Longrightarrow> predictor_reachable (RecordLoss now x cp)"
| pr_predict: "predictor_reachable cp \<Longrightarrow> predictor_reachable (fst (Predict now cp))"
| pr_shape: "predictor_reachable cp \<Longrightarrow> predictor_reachable (fst (RecommendShaping now cp))"

lemma predictor_reachable_ok: "predictor_reachable cp \<Longrightarrow> predictor_ok cp"
  by (induction rule: predictor_reachable.induct) simp_all

lemma RecordRTT_window:
  assumes "windowSize cp = 300" "rttHistory cp = drop (length hs - 300) hs"
  shows "rttHistory (RecordRTT now x cp) =
      (let hs' = hs @ [\<lparr>rttTime = now, rttValue = x\<rparr>] in drop (length hs' - 300) hs')
    \<and> windowSize (RecordRTT now x cp) = 300"
proof -
  have "rttHistory (RecordRTT now x cp) =
      (let h = rttHistory cp @ [\<lparr>rttTime = now, rttValue = x\<rparr>] in if length h > 300 then drop 1 h else h)"
    using assms(1) by (simp add: RecordRTT_def Let_def)
  with push_window [OF assms(2)] assms(1) show ?thesis
    unfolding Let_def by (simp add: RecordRTT_def Let_def)
qed

lemma RecordRTT_fold:
  assumes "windowSize cp = 300" "rttHistory cp = drop (length hs - 300) hs"
  shows "rttHistory (fold (\<lambda>(t, x). RecordRTT t x) obs cp) =
    (let all = hs @ map (\<lambda>(t, x). \<lparr>rttTime = t, rttValue = x\<rparr>) obs in drop (length all - 300) all)"
  using assms
proof (induction obs arbitrary: cp hs)
  case (Cons o' obs)
  obtain t x where o': "o' = (t, x)" by force
  from RecordRTT_window [OF Cons.prems, of t x]
    Cons.IH [of "RecordRTT t x cp" "hs @ [\<lparr>rttTime = t, rttValue = x\<rparr>]"]
  show ?case by (simp add: o' Let_def)
qed simp

subsection \<open>Properties\<close>

text \<open>Property C37. In every reachable state of the predictor the windows are bounded (300 samples
  of each kind, 60 predictions) and every prediction, stored or new, is a probability.\<close>

theorem predictor_bounded:
  assumes "predictor_reachable cp"
  shows "length (rttHistory cp) \<le> 300 \<and> length (lossHistory cp) \<le> 300 \<and> length (predictions cp) \<le> 60
    \<and> (\<forall>p \<in> set (snd (Predict now cp) # predictions cp). 0 \<le> Probability p \<and> Probability p \<le> 1)"
  using predictor_reachable_ok [OF assms] Predict_probability [of now cp]
  by (auto simp: predictor_ok_def)

theorem predictor_bounded_witness:
  "length (rttHistory (RecordRTT 5 12 NewCongestionPredictor)) \<le> 300"
  using predictor_bounded [OF pr_rtt [OF pr_new]] by simp

text \<open>Shaping follows the predicted probability by fixed thresholds: best-effort
  traffic is deferred exactly above 0.6, and pacing and batch size tighten in steps above 0.3, 0.6
  and 0.8.\<close>

theorem shaping_thresholds:
  "let p = Probability (snd (Predict now cp)); sh = snd (RecommendShaping now cp)
   in DeferBestEffort sh = (p > 0.6)
    \<and> PacingIntervalMs sh = (if p > 0.8 then 200 else if p > 0.6 then 100 else if p > 0.3 then 50 else 0)
    \<and> MaxBatchSizeKB sh = (if p > 0.8 then 8 else if p > 0.6 then 16 else if p > 0.3 then 24 else 32)
    \<and> (BackoffDuration sh > 0) = (p > 0.8)"
  using Predict_action [of now cp]
  by (simp add: RecommendShaping_def case_prod_beta severity_action_def shaping_for_def Let_def)

text \<open>The RTT window always holds exactly the latest 300 observations, in order.\<close>

theorem rtt_window_is_latest:
  "rttHistory (fold (\<lambda>(t, x). RecordRTT t x) obs NewCongestionPredictor) =
    (let all = map (\<lambda>(t, x). \<lparr>rttTime = t, rttValue = x\<rparr>) obs in drop (length all - 300) all)"
  using RecordRTT_fold [of NewCongestionPredictor "[]" obs]
  by (simp add: NewCongestionPredictor_def)

end
