(* ===== verification/Features.thy ===== *)
theory Features
  imports Prelude
begin

section \<open>The feature extractor\<close>

text \<open>
  \<open>transport/ai_features.go\<close>: the per-signal-type counters, the entropy window and the
  \<open>SignalContext\<close> computed from them. \<open>float64\<close> is read as \<open>real\<close>, \<open>time.Now()\<close> is the argument
  \<open>now\<close> (one reading per call; the code reads the clock twice).
\<close>

record SignalContext =
  SignalType :: string
  EntityRegime :: string
  AnomalyScore :: real
  TopologyDepth :: string
  EntropyDelta :: real
  SignalRarity :: string
  RTTMs :: real
  LossRate :: real
  CongestionLevel :: string
  PayloadSizeKB :: real
  TimeSinceLastS :: real

record FeatureExtractor =
  signalCounts :: "(string, int) gomap"
  lastSeen :: "(string, gotime) gomap"
  entropyWindow :: "real list"
  maxWindow :: nat

definition NewFeatureExtractor :: FeatureExtractor where
  "NewFeatureExtractor =
     \<lparr>signalCounts = [], lastSeen = [], entropyWindow = [], maxWindow = 60\<rparr>"

definition UpdateEntropy :: "real \<Rightarrow> FeatureExtractor \<Rightarrow> FeatureExtractor" where
  "UpdateEntropy entropy fe =
     (let w = entropyWindow fe @ [entropy];
          w = (if length w > maxWindow fe then drop 1 w else w)
      in fe\<lparr>entropyWindow := w\<rparr>)"

definition inferRegime :: "FeatureExtractor \<Rightarrow> string" where
  "inferRegime fe =
     (let w = entropyWindow fe
      in if length w < 5 then ''stable''
         else let recent = drop (length w - 5) w;
                  avg = fold (\<lambda>v s. s + v) recent 0 / real (length recent)
              in if avg < 0.3 then ''stable''
                 else if avg < 0.5 then ''transitioning''
                 else if avg < 0.7 then ''degraded''
                 else ''critical'')"

definition computeEntropyDelta :: "FeatureExtractor \<Rightarrow> real" where
  "computeEntropyDelta fe =
     (let w = entropyWindow fe; n = length w
      in if n < 2 then 0
         else let halfN = n div 2;
                  firstHalf = fold (\<lambda>v s. s + v) (take halfN w) 0 / real halfN;
                  secondHalf = fold (\<lambda>v s. s + v) (drop halfN w) 0 / real (n - halfN)
              in secondHalf - firstHalf)"

definition computeAnomalyScore :: "real \<Rightarrow> FeatureExtractor \<Rightarrow> real" where
  "computeAnomalyScore rttMs fe =
     (let w = entropyWindow fe
      in if length w < 10 then 0
         else let (s, sq) = fold (\<lambda>v (s, sq). (s + v, sq + v * v)) w (0, 0);
                  n = real (length w);
                  mean = s / n;
                  variance = sq / n - mean * mean
              in if variance < 1 / 10 ^ 10 then 0
                 else let stddev = sqrt variance;
                          latest = w ! (length w - 1);
                          zscore = \<bar>latest - mean\<bar> / stddev
                      in 1 / (1 + exp (- 0.5 * (zscore - 2))))"

definition Extract ::
  "gotime \<Rightarrow> string \<Rightarrow> int \<Rightarrow> real \<Rightarrow> real \<Rightarrow> FeatureExtractor \<Rightarrow> FeatureExtractor \<times> SignalContext" where
  "Extract now signalType payloadSize rttMs lossRate fe =
     (let key = signalType;
          count = (case map_of (signalCounts fe) key of None \<Rightarrow> 1 | Some c \<Rightarrow> i64 (c + 1));
          timeSinceLast = (case map_of (lastSeen fe) key of None \<Rightarrow> 0
             | Some seen \<Rightarrow> real_of_int (time_sub now seen) / real_of_int second);
          rarity = (if count = 1 then ''first-seen''
                    else if timeSinceLast > 300 then ''schema-change'' else ''routine'');
          congestion = (if lossRate > 0.05 then ''high''
                        else if lossRate > 0.01 then ''medium'' else ''low'');
          fe' = fe\<lparr>signalCounts := AList.update key count (signalCounts fe),
                   lastSeen := AList.update key now (lastSeen fe)\<rparr>
      in (fe', \<lparr>SignalType = signalType, EntityRegime = inferRegime fe',
                AnomalyScore = computeAnomalyScore rttMs fe', TopologyDepth = ''leaf'',
                EntropyDelta = computeEntropyDelta fe', SignalRarity = rarity, RTTMs = rttMs,
                LossRate = lossRate, CongestionLevel = congestion,
                PayloadSizeKB = real_of_int payloadSize / 1024,
                TimeSinceLastS = timeSinceLast\<rparr>))"

subsection \<open>Lemmas\<close>

text \<open>\<open>extractor_ok\<close>: the window is bounded and a type has a count exactly when it has a last-seen
  time; counts are positive.\<close>

definition extractor_ok :: "FeatureExtractor \<Rightarrow> bool" where
  "extractor_ok fe \<longleftrightarrow> maxWindow fe = 60 \<and> length (entropyWindow fe) \<le> 60
     \<and> fst ` set (signalCounts fe) = fst ` set (lastSeen fe)
     \<and> gomap_ok (signalCounts fe) \<and> gomap_ok (lastSeen fe)"

lemma extractor_ok_new [simp]: "extractor_ok NewFeatureExtractor"
  by (simp add: extractor_ok_def NewFeatureExtractor_def)

lemma extractor_ok_UpdateEntropy [simp]: "extractor_ok fe \<Longrightarrow> extractor_ok (UpdateEntropy e fe)"
  by (auto simp: extractor_ok_def UpdateEntropy_def Let_def)

lemma extractor_ok_Extract [simp]:
  "extractor_ok fe \<Longrightarrow> extractor_ok (fst (Extract now st ps rtt loss fe))"
  by (simp add: extractor_ok_def Extract_def Let_def dom_update)

lemma computeAnomalyScore_bounds: "0 \<le> computeAnomalyScore r fe \<and> computeAnomalyScore r fe < 1"
  by (simp add: computeAnomalyScore_def Let_def case_prod_beta add_pos_pos)

lemma inferRegime_values:
  "inferRegime fe \<in> {''stable'', ''transitioning'', ''degraded'', ''critical''}"
  by (simp add: inferRegime_def Let_def)

text \<open>Repeated extraction: the counter of a type holds how often the type was seen.\<close>

definition count_of :: "FeatureExtractor \<Rightarrow> string \<Rightarrow> int" where
  "count_of fe st = (case map_of (signalCounts fe) st of None \<Rightarrow> 0 | Some c \<Rightarrow> c)"

text \<open>A call of \<open>Extract\<close> with its arguments and the time it happens.\<close>

type_synonym extract_call = "gotime \<times> string \<times> int \<times> real \<times> real"

definition run_extract :: "extract_call list \<Rightarrow> FeatureExtractor \<Rightarrow> FeatureExtractor" where
  "run_extract calls fe =
     fold (\<lambda>(now, st, ps, rtt, loss) fe. fst (Extract now st ps rtt loss fe)) calls fe"

definition seen_counts :: "FeatureExtractor \<Rightarrow> string list \<Rightarrow> bool" where
  "seen_counts fe sts \<longleftrightarrow> (\<forall>st. count_of fe st = int (count_list sts st)
     \<and> (map_of (signalCounts fe) st = None \<longleftrightarrow> st \<notin> set sts))"

lemma seen_counts_Extract:
  assumes "seen_counts fe sts" "length sts < 2 ^ 63 - 1"
  shows "seen_counts (fst (Extract now st ps rtt loss fe)) (st # sts)"
proof -
  have "count_list sts st \<le> length sts" by (rule count_le_length)
  with assms have "count_of fe st = int (count_list sts st)" "count_list sts st < 2 ^ 63 - 1"
    by (auto simp: seen_counts_def)
  then have "map_of (signalCounts fe) st = Some c \<Longrightarrow> i64 (c + 1) = int (count_list sts st) + 1" for c
    by (simp add: count_of_def in_i64_def)
  moreover have "map_of (signalCounts fe) st = None \<Longrightarrow> count_list sts st = 0"
    using assms by (auto simp: seen_counts_def)
  ultimately show ?thesis
    using assms(1)
    by (auto simp: seen_counts_def count_of_def Extract_def Let_def update_conv' split: option.splits)
qed

lemma seen_counts_run:
  "seen_counts fe sts \<Longrightarrow> length calls + length sts < 2 ^ 63 - 1 \<Longrightarrow>
   seen_counts (run_extract calls fe) (rev (map (fst \<circ> snd) calls) @ sts)"
proof (induction calls arbitrary: fe sts)
  case (Cons c calls)
  obtain now st ps rtt loss where c: "c = (now, st, ps, rtt, loss)" by (metis prod_cases5)
  have "seen_counts (fst (Extract now st ps rtt loss fe)) (st # sts)"
    using Cons.prems by (intro seen_counts_Extract) auto
  from Cons.IH [OF this] Cons.prems show ?case
    by (simp add: run_extract_def c)
qed (simp add: run_extract_def)

lemma seen_counts_new: "seen_counts NewFeatureExtractor []"
  by (simp add: seen_counts_def count_of_def NewFeatureExtractor_def)

subsection \<open>Properties\<close>

text \<open>A signal is labelled first-seen exactly when no earlier call named its type,
  whatever the calls before it were.\<close>

theorem first_seen_once:
  assumes "length calls < 2 ^ 63 - 1"
  shows "SignalRarity (snd (Extract now st ps rtt loss (run_extract calls NewFeatureExtractor)))
           = ''first-seen'' \<longleftrightarrow> st \<notin> (fst \<circ> snd) ` set calls"
proof -
  let ?fe = "run_extract calls NewFeatureExtractor" and ?sts = "rev (map (fst \<circ> snd) calls)"
  have sc: "seen_counts ?fe ?sts"
    using seen_counts_run [OF seen_counts_new, of calls] assms by simp
  have len: "count_list ?sts st \<le> length calls" using count_le_length [of ?sts st] by simp
  show ?thesis
  proof (cases "map_of (signalCounts ?fe) st")
    case None
    with sc have "st \<notin> set ?sts" unfolding seen_counts_def by blast
    with None show ?thesis by (auto simp: Extract_def Let_def)
  next
    case (Some c)
    with sc have "c = int (count_list ?sts st)" "st \<in> set ?sts"
      by (auto simp: seen_counts_def count_of_def dest: spec [of _ st])
    moreover from this have "0 < count_list ?sts st"
      by (metis count_list_0_iff neq0_conv)
    ultimately have "i64 (c + 1) = c + 1" "c + 1 \<noteq> 1"
      using len assms by (simp_all add: in_i64_def)
    with Some \<open>st \<in> set ?sts\<close> show ?thesis by (auto simp: Extract_def Let_def)
  qed
qed

theorem first_seen_once_witness:
  "SignalRarity (snd (Extract 9 ''logs'' 0 1 0 (run_extract [(5, ''logs'', 0, 1, 0)] NewFeatureExtractor)))
     \<noteq> ''first-seen''"
  using first_seen_once [of "[(5, ''logs'', 0, 1, 0)]" 9 "''logs''" 0 1 0] by simp

end
