(* ===== verification/Classifier.thy ===== *)
theory Classifier
  imports Wire_Format Features Client_Config
begin

section \<open>The tier classifier\<close>

text \<open>
  \<open>transport/ai_classifier.go\<close>: rule-based, Thompson-sampling and LLM classification behind a
  stale-while-revalidate cache. The LLM providers (an HTTP POST and the decoding of its JSON
  response) are the fields of \<open>llm_io\<close>; \<open>math/rand\<close> is a pair of tapes \<open>rands\<close> with a read position;
  \<open>fmt\<close>'s formatting of a float by a verb such as \<open>%.2f\<close> is the argument \<open>fmtF\<close>. The rejection sampler may loop forever on a
  bad tape, so it is an option-valued partial function and \<open>None\<close> means "does not return".

  A background refresh is an entry of \<open>refreshers\<close>, added when its goroutine is started and taken
  out by \<open>refresh_done\<close>, its only step; \<open>Classify\<close> itself runs in one sending goroutine. Within these
  two kinds of steps every interleaving is covered.
\<close>

subsection \<open>The outside world\<close>

datatype http_response = HttpFailed string | HttpResponse int string

record llm_io =
  httpPost :: "string \<Rightarrow> (string \<times> string) list \<Rightarrow> json \<Rightarrow> http_response"
  decodeOllama :: "string \<Rightarrow> string + string"
  decodeChoices :: "string \<Rightarrow> string + string list"
  decodeContent :: "string \<Rightarrow> string + string list"
  decodeParsed :: "string \<Rightarrow> string + (int \<times> string \<times> real)"
  getenv :: "string \<Rightarrow> string"

record rands =
  normAt :: "nat \<Rightarrow> real"
  uniAt :: "nat \<Rightarrow> real"

type_synonym rpos = "nat \<times> nat"

subsection \<open>State\<close>

record AIClassification =
  aiTier :: tier
  Reasoning :: string
  Confidence :: real
  Model :: string
  LatencyMs :: int
  UsedAI :: bool

record classificationCacheEntry =
  ceResult :: AIClassification
  ceExpiresAt :: gotime
  ceRefreshing :: bool

type_synonym beta_params = "(real \<times> real) list"

record AIClassifier =
  aiEnabled :: bool
  provider :: string
  endpoint :: string
  modelName :: string
  aiFallback :: string
  betaParams :: "(string, beta_params) gomap"
  classifications :: int
  fallbacks :: int
  latencySum :: int
  latencyCount :: int
  cache :: "(string, classificationCacheEntry) gomap"
  cacheTTL :: duration
  refreshers :: "(string \<times> SignalContext) list"

definition envOr :: "(string \<Rightarrow> string) \<Rightarrow> string \<Rightarrow> string \<Rightarrow> string" where
  "envOr env key fb = (if env key \<noteq> [] then env key else fb)"

definition NewAIClassifier :: "(string \<Rightarrow> duration option) \<Rightarrow> (string \<Rightarrow> string) \<Rightarrow> AIClassifier" where
  "NewAIClassifier parseDuration env =
     (let raw = env ''ENTROPYOPS_AGENT_AI_CACHE_TTL_S'';
          ttl = (if raw \<noteq> [] then
                   (case parseDuration (raw @ ''s'') of
                      Some s \<Rightarrow> (if s > 0 then s else 5 * second)
                    | None \<Rightarrow> 5 * second)
                 else 5 * second)
      in \<lparr>aiEnabled = (env ''ENTROPYOPS_AGENT_AI_ENABLED'' = ''true''),
          provider = envOr env ''ENTROPYOPS_AGENT_AI_MODEL'' ''rule'',
          endpoint = envOr env ''ENTROPYOPS_AGENT_AI_ENDPOINT'' ''http://localhost:11434'',
          modelName = envOr env ''ENTROPYOPS_AGENT_AI_MODEL_NAME'' ''llama3.2:3b'',
          aiFallback = envOr env ''ENTROPYOPS_AGENT_AI_FALLBACK'' ''thompson'',
          betaParams = [], classifications = 0, fallbacks = 0, latencySum = 0, latencyCount = 0,
          cache = [], cacheTTL = ttl, refreshers = []\<rparr>)"

subsection \<open>Sampling\<close>

text \<open>The inner \<open>for\<close> of \<open>gammaSample\<close> draws until \<open>v > 0\<close>; the outer one until a draw is accepted.
  \<open>math.Log(0)\<close> is minus infinity, hence the explicit \<open>u = 0\<close>.\<close>

partial_function (option) gamma_inner :: "rands \<Rightarrow> real \<Rightarrow> nat \<Rightarrow> (real \<times> real \<times> nat) option" where
  "gamma_inner r c i =
     (let x = normAt r i; v = 1 + c * x
      in if v > 0 then Some (x, v, Suc i) else gamma_inner r c (Suc i))"

partial_function (option) gamma_outer :: "rands \<Rightarrow> real \<Rightarrow> real \<Rightarrow> rpos \<Rightarrow> (real \<times> rpos) option" where
  "gamma_outer r d c p =
     Option.bind (gamma_inner r c (fst p)) (\<lambda>(x, v0, i).
       let v = v0 * v0 * v0; u = uniAt r (snd p)
       in if u < 1 - 0.0331 * (x * x) * (x * x)
             \<or> u = 0 \<or> ln u < 0.5 * x * x + d * (1 - v + ln v)
          then Some (d * v, (i, Suc (snd p)))
          else gamma_outer r d c (i, Suc (snd p)))"

partial_function (option) gammaSample :: "rands \<Rightarrow> real \<Rightarrow> rpos \<Rightarrow> (real \<times> rpos) option" where
  "gammaSample r shape p =
     (if shape < 1
      then Option.bind (gammaSample r (shape + 1) p) (\<lambda>(g, (i, j)).
             Some (g * (uniAt r j powr (1 / shape)), (i, Suc j)))
      else let d = shape - 1 / 3; c = 1 / sqrt (9 * d) in gamma_outer r d c p)"

definition betaSample :: "rands \<Rightarrow> real \<Rightarrow> real \<Rightarrow> rpos \<Rightarrow> (real \<times> rpos) option" where
  "betaSample r alpha beta p =
     do { (x, p) \<leftarrow> gammaSample r alpha p;
          (y, p) \<leftarrow> gammaSample r beta p;
          Some (if x + y = 0 then 0.5 else x / (x + y), p) }"

subsection \<open>Thompson sampling\<close>

definition uniform_params :: beta_params where
  "uniform_params = [(1, 1), (1, 1), (1, 1)]"

definition context_key :: "string \<Rightarrow> string \<Rightarrow> string \<Rightarrow> string" where
  "context_key st regime congestion = st @ '':'' @ regime @ '':'' @ congestion"

text \<open>The loop over the three tiers, with the best sample so far.\<close>

fun thompson_loop ::
  "rands \<Rightarrow> (nat \<times> real \<times> real) list \<Rightarrow> nat \<Rightarrow> real \<Rightarrow> rpos \<Rightarrow> (nat \<times> real \<times> rpos) option" where
  "thompson_loop r [] bestTier bestSample p = Some (bestTier, bestSample, p)"
| "thompson_loop r ((t, alpha, beta) # rest) bestTier bestSample p =
     do { (sample, p) \<leftarrow> betaSample r alpha beta p;
          if sample > bestSample then thompson_loop r rest t sample p
          else thompson_loop r rest bestTier bestSample p }"

definition classifyThompson ::
  "rands \<Rightarrow> SignalContext \<Rightarrow> rpos \<Rightarrow> AIClassifier \<Rightarrow> (AIClassifier \<times> AIClassification \<times> rpos) option" where
  "classifyThompson r ctx p c =
     (let key = context_key (SignalType ctx) (EntityRegime ctx) (CongestionLevel ctx);
          params = (case map_of (betaParams c) key of Some ps \<Rightarrow> ps | None \<Rightarrow> uniform_params)
      in do { (bestTier, bestSample, p) \<leftarrow> thompson_loop r (enumerate 0 params) 0 (- 1) p;
              Some (c\<lparr>betaParams := AList.update key params (betaParams c)\<rparr>,
                    \<lparr>aiTier = of_nat bestTier,
                     Reasoning = ''thompson sampling: key='' @ key @ '', sampled tier ''
                                 @ digits_of bestTier,
                     Confidence = bestSample, Model = ''thompson'', LatencyMs = 0, UsedAI = False\<rparr>,
                    p) })"

definition UpdateThompson ::
  "string \<Rightarrow> string \<Rightarrow> string \<Rightarrow> tier \<Rightarrow> bool \<Rightarrow> AIClassifier \<Rightarrow> AIClassifier" where
  "UpdateThompson signalType regime congestion tr success c =
     (let key = context_key signalType regime congestion;
          params = (case map_of (betaParams c) key of Some ps \<Rightarrow> ps | None \<Rightarrow> uniform_params);
          t = unat tr;
          params = (if t < 3
             then (let (a, b) = params ! t
                   in params[t := (if success then (a + 1, b) else (a, b + 1))])
             else params)
      in c\<lparr>betaParams := AList.update key params (betaParams c)\<rparr>)"

subsection \<open>Rules and LLM\<close>

definition em_dash :: string where "em_dash = map char_of [0xE2, 0x80, 0x94 :: nat]"

definition classifyRuleBased :: "(string \<Rightarrow> real \<Rightarrow> string) \<Rightarrow> SignalContext \<Rightarrow> AIClassification" where
  "classifyRuleBased fmtF ctx =
     (let (tier, reasoning) =
        (if EntityRegime ctx = ''critical'' \<or> EntityRegime ctx = ''degraded''
         then (TierGuaranteed, ''regime is '' @ EntityRegime ctx @ '' '' @ em_dash @ '' guaranteed delivery'')
         else if AnomalyScore ctx > 0.7
         then (TierGuaranteed, ''high anomaly score ('' @ fmtF ''%.2f'' (AnomalyScore ctx)
                               @ '') '' @ em_dash @ '' guaranteed delivery'')
         else if SignalRarity ctx = ''first-seen'' \<or> SignalRarity ctx = ''schema-change''
         then (TierGuaranteed, ''signal rarity='' @ SignalRarity ctx @ '' '' @ em_dash @ '' guaranteed delivery'')
         else if EntityRegime ctx = ''stable'' \<and> AnomalyScore ctx < 0.2
                 \<and> SignalRarity ctx = ''routine''
         then (TierBesteff, ''stable regime, low anomaly, routine signal '' @ em_dash @ '' best effort'')
         else if CongestionLevel ctx = ''high'' \<and> SignalType ctx = ''metrics''
         then (TierBesteff, ''high congestion + routine metrics '' @ em_dash @ '' best effort to reduce load'')
         else (TierReliable, ''rule-based default''))
      in \<lparr>aiTier = tier, Reasoning = reasoning, Confidence = 0.8, Model = ''rule'',
          LatencyMs = 0, UsedAI = False\<rparr>)"

definition classifyDeterministic ::
  "(string \<Rightarrow> real \<Rightarrow> string) \<Rightarrow> rands \<Rightarrow> SignalContext \<Rightarrow> rpos \<Rightarrow> AIClassifier
     \<Rightarrow> (AIClassifier \<times> AIClassification \<times> rpos) option" where
  "classifyDeterministic fmtF r ctx p c =
     (if aiFallback c = ''thompson'' then classifyThompson r ctx p c
      else if aiFallback c = ''guaranteed''
      then Some (c, \<lparr>aiTier = TierGuaranteed, Reasoning = ''fallback: all guaranteed'',
                     Confidence = 1, Model = ''rule/guaranteed'', LatencyMs = 0, UsedAI = False\<rparr>, p)
      else Some (c, classifyRuleBased fmtF ctx, p))"

text \<open>\<open>Tier(parsed.Tier)\<close> keeps the low eight bits of the integer; the comparison clamps the rest.\<close>

definition parseClassificationJSON :: "llm_io \<Rightarrow> string \<Rightarrow> string + AIClassification" where
  "parseClassificationJSON io raw =
     (case decodeParsed io raw of
        Inl e \<Rightarrow> Inl (''parse LLM response: '' @ e)
      | Inr (t, reasoning, confidence) \<Rightarrow>
          let tier = (word_of_int t :: u8);
              tier = (if tier > TierBesteff then TierBesteff else tier)
          in Inr \<lparr>aiTier = tier, Reasoning = reasoning, Confidence = confidence, Model = [],
                  LatencyMs = 0, UsedAI = False\<rparr>)"

definition callOllama :: "llm_io \<Rightarrow> string \<Rightarrow> AIClassifier \<Rightarrow> string + AIClassification" where
  "callOllama io prompt c =
     (let body = JObj [(''model'', JStr (modelName c)), (''prompt'', JStr prompt),
            (''stream'', JBool False), (''format'', JStr ''json''),
            (''options'', JObj [(''temperature'', JNum 0.1), (''num_predict'', JNum 256)])]
      in case httpPost io (endpoint c @ ''/api/generate'')
                [(''Content-Type'', ''application/json'')] body of
           HttpFailed e \<Rightarrow> Inl e
         | HttpResponse status rbody \<Rightarrow>
             if status \<noteq> 200 then Inl (''ollama returned '' @ format_int status)
             else case decodeOllama io rbody of
                    Inl e \<Rightarrow> Inl e
                  | Inr resp \<Rightarrow> parseClassificationJSON io resp)"

definition callOpenAI :: "llm_io \<Rightarrow> string \<Rightarrow> AIClassifier \<Rightarrow> string + AIClassification" where
  "callOpenAI io prompt c =
     (let apiKey = getenv io ''ENTROPYOPS_AI_API_KEY''
      in if apiKey = [] then Inl ''ENTROPYOPS_AI_API_KEY not set''
         else let body = JObj [(''model'', JStr (modelName c)),
                (''messages'', JArr
                   [JObj [(''role'', JStr ''system''),
                          (''content'', JStr ''You are a transport tier classifier. Output only JSON.'')],
                    JObj [(''role'', JStr ''user''), (''content'', JStr prompt)]]),
                (''temperature'', JNum 0.1), (''max_tokens'', JNum 256),
                (''response_format'', JObj [(''type'', JStr ''json_object'')])]
              in case httpPost io ''https://api.openai.com/v1/chat/completions''
                        [(''Authorization'', ''Bearer '' @ apiKey),
                         (''Content-Type'', ''application/json'')] body of
                   HttpFailed e \<Rightarrow> Inl e
                 | HttpResponse status rbody \<Rightarrow>
                     if status \<noteq> 200 then Inl (''openai returned '' @ format_int status)
                     else case decodeChoices io rbody of
                            Inl e \<Rightarrow> Inl e
                          | Inr [] \<Rightarrow> Inl ''no choices in response''
                          | Inr (m # _) \<Rightarrow> parseClassificationJSON io m)"

definition callAnthropic :: "llm_io \<Rightarrow> string \<Rightarrow> AIClassifier \<Rightarrow> string + AIClassification" where
  "callAnthropic io prompt c =
     (let apiKey = getenv io ''ENTROPYOPS_AI_API_KEY''
      in if apiKey = [] then Inl ''ENTROPYOPS_AI_API_KEY not set''
         else let body = JObj [(''model'', JStr (modelName c)), (''max_tokens'', JNum 256),
                (''messages'', JArr
                   [JObj [(''role'', JStr ''user''), (''content'', JStr prompt)]])]
              in case httpPost io ''https://api.anthropic.com/v1/messages''
                        [(''x-api-key'', apiKey), (''anthropic-version'', ''2023-06-01''),
                         (''Content-Type'', ''application/json'')] body of
                   HttpFailed e \<Rightarrow> Inl e
                 | HttpResponse status rbody \<Rightarrow>
                     if status \<noteq> 200 then Inl (''anthropic returned '' @ format_int status)
                     else case decodeContent io rbody of
                            Inl e \<Rightarrow> Inl e
                          | Inr [] \<Rightarrow> Inl ''no content in response''
                          | Inr (m # _) \<Rightarrow> parseClassificationJSON io m)"

text \<open>The prompt, with the lines of the format string.\<close>

definition prompt_lines :: "(string \<Rightarrow> real \<Rightarrow> string) \<Rightarrow> SignalContext \<Rightarrow> string list" where
  "prompt_lines fmtF ctx =
     [''You are the transport tier classifier for a system physics observability platform.'',
      [],
      ''Given the following signal context:'',
      ''- Signal type: '' @ SignalType ctx,
      ''- Entity regime: '' @ EntityRegime ctx,
      ''- Anomaly score: '' @ fmtF ''%.3f'' (AnomalyScore ctx),
      ''- Entity topology depth: '' @ TopologyDepth ctx,
      ''- Entropy delta (last 5 min): '' @ fmtF ''%+.3f'' (EntropyDelta ctx),
      ''- Signal rarity: '' @ SignalRarity ctx,
      ''- Network conditions: RTT='' @ fmtF ''%0.f'' (RTTMs ctx) @ ''ms, loss=''
        @ fmtF ''%.1f'' (LossRate ctx * 100) @ ''%, congestion='' @ CongestionLevel ctx,
      ''- Payload size: '' @ fmtF ''%.1f'' (PayloadSizeKB ctx) @ '' KB'',
      [],
      ''Assign a reliability tier and explain your reasoning:'',
      ''- GUARANTEED (0): Must arrive, retransmit indefinitely. Use for signals that would change an operator decision.'',
      ''- RELIABLE (1): Should arrive, retry 3x. Use for signals that add value but aren'' @ [CHR 0x27] @ ''t critical.'',
      ''- BESTEFF (2): Fire and forget. Use for routine, redundant, or low-information signals.'',
      [],
      ''Output JSON only: {\"tier\": 0, \"reasoning\": \"...\", \"confidence\": 0.9}'']"

definition llm_prompt :: "(string \<Rightarrow> real \<Rightarrow> string) \<Rightarrow> SignalContext \<Rightarrow> string" where
  "llm_prompt fmtF ctx = join [CHR 0x0A] (prompt_lines fmtF ctx)"

definition classifyWithLLM ::
  "llm_io \<Rightarrow> (string \<Rightarrow> real \<Rightarrow> string) \<Rightarrow> SignalContext \<Rightarrow> AIClassifier \<Rightarrow> string + AIClassification" where
  "classifyWithLLM io fmtF ctx c =
     (let prompt = llm_prompt fmtF ctx;
          res = (if provider c = ''ollama'' then callOllama io prompt c
                 else if provider c = ''openai'' then callOpenAI io prompt c
                 else if provider c = ''anthropic'' then callAnthropic io prompt c
                 else Inl (''unknown provider: '' @ provider c))
      in case res of
           Inl e \<Rightarrow> Inl e
         | Inr result \<Rightarrow>
             Inr (result\<lparr>UsedAI := True, Model := provider c @ ''/'' @ modelName c\<rparr>))"

text \<open>The environment of a classification: everything outside the program it consults.\<close>

record ai_env =
  aeIO :: llm_io
  aeFmt :: "string \<Rightarrow> real \<Rightarrow> string"
  aeRands :: rands

definition classifyFresh ::
  "ai_env \<Rightarrow> gotime \<Rightarrow> gotime \<Rightarrow> SignalContext \<Rightarrow> rpos \<Rightarrow> AIClassifier
     \<Rightarrow> (AIClassifier \<times> AIClassification \<times> rpos) option" where
  "classifyFresh e start finish ctx p c =
     (let ms = go_div (time_sub finish start) millisecond;
          deterministic = (\<lambda>c. do { (c, result, p) \<leftarrow> classifyDeterministic (aeFmt e) (aeRands e) ctx p c;
                                    Some (c, result\<lparr>LatencyMs := ms\<rparr>, p) })
      in if aiEnabled c \<and> provider c \<noteq> ''rule'' then
           (case classifyWithLLM (aeIO e) (aeFmt e) ctx c of
              Inr result \<Rightarrow>
                Some (c\<lparr>classifications := i64 (classifications c + 1),
                        latencySum := i64 (latencySum c + ms),
                        latencyCount := i64 (latencyCount c + 1)\<rparr>,
                      result\<lparr>LatencyMs := ms\<rparr>, p)
            | Inl err \<Rightarrow> deterministic (c\<lparr>fallbacks := i64 (fallbacks c + 1)\<rparr>))
         else deterministic c)"


subsection \<open>The cache\<close>

definition go_trunc :: "real \<Rightarrow> int" where
  "go_trunc x = (if x \<ge> 0 then \<lfloor>x\<rfloor> else \<lceil>x\<rceil>)"

definition cache_key :: "SignalContext \<Rightarrow> string" where
  "cache_key ctx = SignalType ctx @ '':'' @ EntityRegime ctx @ '':'' @ CongestionLevel ctx @ '':''
     @ SignalRarity ctx @ '':'' @ format_int (go_trunc (AnomalyScore ctx * 10))"

definition cache_store :: "string \<Rightarrow> AIClassification \<Rightarrow> gotime \<Rightarrow> AIClassifier \<Rightarrow> AIClassifier" where
  "cache_store key result now c =
     c\<lparr>cache := AList.update key
         \<lparr>ceResult = result, ceExpiresAt = now + cacheTTL c, ceRefreshing = False\<rparr> (cache c)\<rparr>"

text \<open>\<open>now\<close> is the time of the call and \<open>finish\<close> the time a cold miss completes.\<close>

definition Classify ::
  "ai_env \<Rightarrow> gotime \<Rightarrow> gotime \<Rightarrow> SignalContext \<Rightarrow> rpos \<Rightarrow> AIClassifier
     \<Rightarrow> (AIClassifier \<times> AIClassification \<times> rpos) option" where
  "Classify e now finish ctx p c =
     (let key = cache_key ctx
      in case map_of (cache c) key of
           Some entry \<Rightarrow>
             if now < ceExpiresAt entry then Some (c, ceResult entry, p)
             else if \<not> ceRefreshing entry
             then Some (c\<lparr>cache := AList.update key (entry\<lparr>ceRefreshing := True\<rparr>) (cache c),
                          refreshers := refreshers c @ [(key, ctx)]\<rparr>, ceResult entry, p)
             else Some (c, ceResult entry, p)
         | None \<Rightarrow>
             do { (c, result, p) \<leftarrow> classifyFresh e now finish ctx p c;
                  Some (cache_store key result finish c, result, p) })"

text \<open>The body of the refresh goroutine number \<open>i\<close>, which ends it.\<close>

definition refresh_done ::
  "ai_env \<Rightarrow> gotime \<Rightarrow> gotime \<Rightarrow> nat \<Rightarrow> rpos \<Rightarrow> AIClassifier \<Rightarrow> (AIClassifier \<times> rpos) option" where
  "refresh_done e now finish i p c =
     (if i < length (refreshers c) then
        (let (key, ctx) = refreshers c ! i
         in do { (c, fresh, p) \<leftarrow> classifyFresh e now finish ctx p c;
                 Some ((cache_store key fresh finish c)
                         \<lparr>refreshers := take i (refreshers c) @ drop (Suc i) (refreshers c)\<rparr>, p) })
      else None)"

record classifier_stats =
  total_classifications :: int
  total_fallbacks :: int
  avg_latency_ms :: real
  st_provider :: string
  st_enabled :: bool
  cache_entries :: nat
  cache_ttl_s :: real

definition classifier_Stats :: "AIClassifier \<Rightarrow> classifier_stats" where
  "classifier_Stats c =
     (let count = latencyCount c;
          avg = (if count > 0 then real_of_int (latencySum c) / real_of_int count else 0)
      in \<lparr>total_classifications = classifications c, total_fallbacks = fallbacks c,
          avg_latency_ms = avg, st_provider = provider c, st_enabled = aiEnabled c,
          cache_entries = length (cache c),
          cache_ttl_s = real_of_int (cacheTTL c) / real_of_int second\<rparr>)"

subsection \<open>Lemmas: sampling\<close>

lemma gamma_inner_pos:
  assumes "gamma_inner r c i = Some y"
  shows "0 < fst (snd y)"
  by (rule gamma_inner.raw_induct [where P = "\<lambda>r c i y. 0 < fst (snd y)", OF _ assms])
     (auto simp: Let_def split: if_splits)

lemma gamma_outer_pos:
  assumes "gamma_outer r d c p = Some y" "0 < d"
  shows "0 < fst y"
proof -
  have "0 < d \<longrightarrow> 0 < fst y"
  proof (rule gamma_outer.raw_induct [where P = "\<lambda>r d c p y. 0 < d \<longrightarrow> 0 < fst y", OF _ assms(1)])
    fix f r d c p and y :: "real \<times> rpos"
    assume IH: "\<And>r d c p y. f r d c p = Some y \<Longrightarrow> 0 < d \<longrightarrow> 0 < fst y"
      and "Option.bind (gamma_inner r c (fst p)) (\<lambda>(x, v0, i).
         let v = v0 * v0 * v0; u = uniAt r (snd p)
         in if u < 1 - 0.0331 * (x * x) * (x * x)
               \<or> u = 0 \<or> ln u < 0.5 * x * x + d * (1 - v + ln v)
            then Some (d * v, (i, Suc (snd p)))
            else f r d c (i, Suc (snd p))) = Some y"
    then obtain x v i where gi: "gamma_inner r c (fst p) = Some (x, v, i)"
      and alt: "y = (d * (v * v * v), (i, Suc (snd p))) \<or> f r d c (i, Suc (snd p)) = Some y"
      by (cases "gamma_inner r c (fst p)") (auto simp: Let_def split: if_splits)
    from alt show "0 < d \<longrightarrow> 0 < fst y"
    proof
      assume "y = (d * (v * v * v), (i, Suc (snd p)))"
      with gamma_inner_pos [OF gi] show ?thesis by simp
    qed (rule IH)
  qed
  with assms(2) show ?thesis by simp
qed

lemma gammaSample_pos: "gammaSample r shape p = Some (g, q) \<Longrightarrow> 1 \<le> shape \<Longrightarrow> 0 < g"
  by (subst (asm) gammaSample.simps) (auto simp: Let_def dest!: gamma_outer_pos split: if_splits)

lemma betaSample_bounds:
  assumes "betaSample r a b p = Some (s, q)" "1 \<le> a" "1 \<le> b"
  shows "0 < s" "s < 1"
proof -
  from assms obtain x y p1 where g: "gammaSample r a p = Some (x, p1)" "gammaSample r b p1 = Some (y, q)"
    and s: "s = (if x + y = 0 then 0.5 else x / (x + y))"
    by (auto simp: betaSample_def bind_eq_Some_conv split: prod.splits)
  from gammaSample_pos [OF g(1) assms(2)] gammaSample_pos [OF g(2) assms(3)]
  show "0 < s" "s < 1" by (simp_all add: s)
qed

text \<open>The sampler returns at once on a tape whose next normal draws are zero.\<close>

lemma gammaSample_returns:
  assumes "1 \<le> shape" "normAt r (fst p) = 0" "uniAt r (snd p) < 1"
  shows "gammaSample r shape p = Some (shape - 1 / 3, (Suc (fst p), Suc (snd p)))"
  using assms by (simp add: gammaSample.simps gamma_outer.simps gamma_inner.simps Let_def)

subsection \<open>Lemmas: classification\<close>

text \<open>\<open>params_ok\<close>: three tiers, both shape parameters at least one.\<close>

definition params_ok :: "beta_params \<Rightarrow> bool" where
  "params_ok ps \<longleftrightarrow> length ps = 3 \<and> (\<forall>(a, b) \<in> set ps. 1 \<le> a \<and> 1 \<le> b)"

definition result_ok :: "AIClassification \<Rightarrow> bool" where
  "result_ok r \<longleftrightarrow> aiTier r \<le> TierBesteff"

text \<open>The invariant: parameters and cached results are well-formed, and the goroutines that run
  are exactly one per entry whose \<open>refreshing\<close> flag is set.\<close>

definition classifier_ok :: "AIClassifier \<Rightarrow> bool" where
  "classifier_ok c \<longleftrightarrow> all_vals params_ok (betaParams c)
     \<and> gomap_ok (cache c)
     \<and> all_vals (\<lambda>e. result_ok (ceResult e)) (cache c)
     \<and> distinct (map fst (refreshers c))
     \<and> (\<forall>k. k \<in> fst ` set (refreshers c) \<longleftrightarrow>
            (\<exists>e. map_of (cache c) k = Some e \<and> ceRefreshing e))"

lemma result_ok_frame [simp, frame_simps]:
  "result_ok (r\<lparr>UsedAI := u\<rparr>) = result_ok r" "result_ok (r\<lparr>Model := m\<rparr>) = result_ok r"
  "result_ok (r\<lparr>LatencyMs := l\<rparr>) = result_ok r"
  by (simp_all add: result_ok_def)

lemma params_ok_uniform [simp]: "params_ok uniform_params"
  by (simp add: params_ok_def uniform_params_def)

lemma params_lookup:
  "classifier_ok c \<Longrightarrow>
   params_ok (case map_of (betaParams c) k of Some ps \<Rightarrow> ps | None \<Rightarrow> uniform_params)"
  by (auto simp: classifier_ok_def split: option.splits intro: all_vals_lookup)

lemma thompson_loop_result:
  assumes "thompson_loop r ts bt bs p = Some (t, s, q)"
    "\<forall>(t, a, b) \<in> set ts. t < 3 \<and> 1 \<le> a \<and> 1 \<le> b" "bt < 3" "bs < 1"
  shows "t < 3 \<and> bs \<le> s \<and> s < 1 \<and> (ts \<noteq> [] \<longrightarrow> 0 < s)"
  using assms
proof (induction ts arbitrary: bt bs p)
  case (Cons e rest)
  obtain t' a b where e: "e = (t', a, b)" by (metis prod_cases3)
  with Cons.prems obtain s' p' where b: "betaSample r a b p = Some (s', p')"
    by (cases "betaSample r a b p") auto
  from Cons.prems e betaSample_bounds [OF b] have s': "0 < s'" "s' < 1" by auto
  show ?case
  proof (cases "s' > bs")
    case True
    with Cons.prems e b Cons.IH [of t' s' p'] s' show ?thesis by auto
  next
    case False
    with Cons.prems e b Cons.IH [of bt bs p'] s' show ?thesis by auto
  qed
qed simp

lemma classifyThompson_ok:
  assumes "classifyThompson r ctx p c = Some (c', res, q)" "classifier_ok c"
  shows "result_ok res \<and> 0 < Confidence res \<and> Confidence res < 1 \<and> classifier_ok c'
    \<and> cache c' = cache c \<and> refreshers c' = refreshers c"
proof -
  let ?k = "context_key (SignalType ctx) (EntityRegime ctx) (CongestionLevel ctx)"
  let ?ps = "case map_of (betaParams c) ?k of Some ps \<Rightarrow> ps | None \<Rightarrow> uniform_params"
  have ps: "params_ok ?ps" by (rule params_lookup [OF assms(2)])
  from assms(1) obtain t s where l: "thompson_loop r (enumerate 0 ?ps) 0 (- 1) p = Some (t, s, q)"
    and c': "c' = c\<lparr>betaParams := AList.update ?k ?ps (betaParams c)\<rparr>"
    and res: "aiTier res = of_nat t" "Confidence res = s"
    unfolding classifyThompson_def Let_def by (auto simp: bind_eq_Some_conv split: prod.splits)
  have "\<forall>(t, a, b) \<in> set (enumerate 0 ?ps). t < 3 \<and> 1 \<le> a \<and> 1 \<le> b"
    using ps unfolding params_ok_def
    by (auto simp: in_set_enumerate_eq split: prod.splits) (metis case_prodD nth_mem)+
  from thompson_loop_result [OF l this] ps have ts: "t < 3" "0 < s" "s < 1"
    by (auto simp: params_ok_def enumerate_eq_zip)
  have "result_ok res"
    using ts(1) res(1) by (auto simp: result_ok_def less_Suc_eq numeral_3_eq_3)
  moreover have "classifier_ok c'"
    using assms(2) ps unfolding c' classifier_ok_def by simp
  ultimately show ?thesis using ts res by (simp add: c')
qed

lemma classifyRuleBased_ok: "result_ok (classifyRuleBased f ctx)"
  by (simp add: result_ok_def classifyRuleBased_def)

lemma parseClassificationJSON_ok: "parseClassificationJSON io raw = Inr res \<Longrightarrow> result_ok res"
  by (auto simp: parseClassificationJSON_def result_ok_def Let_def split: sum.splits if_splits)

lemma call_ok:
  "callOllama io pr c = Inr res \<Longrightarrow> result_ok res"
  "callOpenAI io pr c = Inr res \<Longrightarrow> result_ok res"
  "callAnthropic io pr c = Inr res \<Longrightarrow> result_ok res"
  by (auto simp: callOllama_def callOpenAI_def callAnthropic_def Let_def
      split: http_response.splits if_splits sum.splits list.splits dest: parseClassificationJSON_ok)

lemma classifyWithLLM_ok: "classifyWithLLM io pf ctx c = Inr res \<Longrightarrow> result_ok res"
  by (auto simp: classifyWithLLM_def Let_def split: sum.splits if_splits dest: call_ok)

lemma classifyDeterministic_ok:
  assumes "classifyDeterministic f r ctx p c = Some (c', res, q)" "classifier_ok c"
  shows "result_ok res \<and> classifier_ok c' \<and> cache c' = cache c \<and> refreshers c' = refreshers c"
  using assms classifyThompson_ok [of r ctx p c c' res q] classifyRuleBased_ok [of f ctx]
  by (auto simp: classifyDeterministic_def result_ok_def split: if_splits)

lemma classifier_ok_counters [simp, frame_simps]:
  "classifier_ok (c\<lparr>fallbacks := x\<rparr>) = classifier_ok c"
  "classifier_ok (c\<lparr>classifications := x, latencySum := y, latencyCount := z\<rparr>) = classifier_ok c"
  by (simp_all add: classifier_ok_def)

lemma classifyFresh_ok:
  assumes f: "classifyFresh e t0 t1 ctx p c = Some (c', res, q)" and c: "classifier_ok c"
  shows "result_ok res \<and> classifier_ok c' \<and> cache c' = cache c \<and> refreshers c' = refreshers c"
proof -
  have det: "\<And>c0. classifier_ok c0 \<Longrightarrow> cache c0 = cache c \<Longrightarrow> refreshers c0 = refreshers c \<Longrightarrow>
      do { (c, result, p) \<leftarrow> classifyDeterministic (aeFmt e) (aeRands e) ctx p c0;
           Some (c, result\<lparr>LatencyMs := go_div (time_sub t1 t0) millisecond\<rparr>, p) } = Some (c', res, q)
      \<Longrightarrow> ?thesis"
    by (auto simp: bind_eq_Some_conv split: prod.splits dest!: classifyDeterministic_ok)
  show ?thesis
  proof (cases "aiEnabled c \<and> provider c \<noteq> ''rule''")
    case True
    show ?thesis
    proof (cases "classifyWithLLM (aeIO e) (aeFmt e) ctx c")
      case (Inr r)
      with f True c classifyWithLLM_ok [OF Inr] show ?thesis
        by (auto simp: classifyFresh_def Let_def)
    next
      case (Inl err)
      with f True show ?thesis
        by (intro det [of "c\<lparr>fallbacks := i64 (fallbacks c + 1)\<rparr>"])
          (simp_all add: classifyFresh_def c)
    qed
  next
    case False
    with f c show ?thesis by (intro det [of c]) (simp_all add: classifyFresh_def)
  qed
qed

subsection \<open>Lemmas: the cache\<close>

text \<open>Storing a fresh entry for a key nobody is refreshing keeps the invariant, and so does storing
  it while the key's refresher is taken out.\<close>

lemma cache_store_ok:
  assumes "classifier_ok c" "result_ok res"
    and rs: "distinct (map fst rs)" "fst ` set rs = fst ` set (refreshers c) - {k}"
  shows "classifier_ok ((cache_store k res now c)\<lparr>refreshers := rs\<rparr>)"
  using assms unfolding classifier_ok_def cache_store_def
  by (auto simp: update_conv')

lemma cache_store_fresh_key:
  assumes "classifier_ok c" "result_ok res" "map_of (cache c) k = None"
  shows "classifier_ok (cache_store k res now c)"
proof -
  have "k \<notin> fst ` set (refreshers c)" using assms unfolding classifier_ok_def by auto
  then have "classifier_ok ((cache_store k res now c)\<lparr>refreshers := refreshers c\<rparr>)"
    using assms by (intro cache_store_ok) (auto simp: classifier_ok_def)
  moreover have "(cache_store k res now c)\<lparr>refreshers := refreshers c\<rparr> = cache_store k res now c"
    by (simp add: cache_store_def)
  ultimately show ?thesis by simp
qed

lemma remove_nth_keys:
  assumes "distinct (map fst xs)" "i < length xs"
  shows "distinct (map fst (take i xs @ drop (Suc i) xs))"
    and "fst ` set (take i xs @ drop (Suc i) xs) = fst ` set xs - {fst (xs ! i)}"
proof -
  have xs: "xs = take i xs @ xs ! i # drop (Suc i) xs" using assms(2) by (rule id_take_nth_drop)
  have d: "distinct (map fst (take i xs @ xs ! i # drop (Suc i) xs))" using assms(1) xs by metis
  then show "distinct (map fst (take i xs @ drop (Suc i) xs))" by auto
  have "set xs = insert (xs ! i) (set (take i xs) \<union> set (drop (Suc i) xs))"
    by (subst (1) xs) auto
  with d show "fst ` set (take i xs @ drop (Suc i) xs) = fst ` set xs - {fst (xs ! i)}"
    by (simp add: image_Un insert_Diff_if Un_Diff)
qed

lemma Classify_ok:
  assumes cl: "Classify e now fin ctx p c = Some (c', res, q)" and c: "classifier_ok c"
  shows "classifier_ok c' \<and> result_ok res"
proof (cases "map_of (cache c) (cache_key ctx)")
  case None
  with cl obtain c0 where f: "classifyFresh e now fin ctx p c = Some (c0, res, q)"
    and c': "c' = cache_store (cache_key ctx) res fin c0"
    by (auto simp: Classify_def bind_eq_Some_conv split: prod.splits)
  from classifyFresh_ok [OF f c] None show ?thesis
    by (auto simp: c' intro: cache_store_fresh_key)
next
  case (Some entry)
  with c have r: "result_ok (ceResult entry)"
    by (auto simp: classifier_ok_def dest: all_vals_lookup)
  have "classifier_ok (c\<lparr>cache := AList.update (cache_key ctx) (entry\<lparr>ceRefreshing := True\<rparr>) (cache c),
          refreshers := refreshers c @ [(cache_key ctx, ctx)]\<rparr>)" if "\<not> ceRefreshing entry"
    using c r that Some unfolding classifier_ok_def by (auto simp: update_conv')
  with cl c r Some show ?thesis by (auto simp: Classify_def Let_def split: if_splits)
qed

lemma refresh_done_ok:
  assumes rd: "refresh_done e now fin i p c = Some (c', q)" and c: "classifier_ok c"
  shows "classifier_ok c'"
proof -
  obtain k ctx where k: "refreshers c ! i = (k, ctx)" by force
  from rd k obtain c0 fresh where i: "i < length (refreshers c)"
    and f: "classifyFresh e now fin ctx p c = Some (c0, fresh, q)"
    and c': "c' = (cache_store k fresh fin c0)
               \<lparr>refreshers := take i (refreshers c0) @ drop (Suc i) (refreshers c0)\<rparr>"
    by (auto simp: refresh_done_def bind_eq_Some_conv split: if_splits prod.splits)
  from classifyFresh_ok [OF f c] have c0: "result_ok fresh" "classifier_ok c0" "refreshers c0 = refreshers c"
    by simp_all
  from remove_nth_keys [of "refreshers c0" i] c0 i k show ?thesis
    unfolding c' by (intro cache_store_ok) (simp_all add: classifier_ok_def)
qed

text \<open>Every interleaving of calls, refresh completions and outcome updates.\<close>

inductive classifier_reachable :: "ai_env \<Rightarrow> AIClassifier \<Rightarrow> bool" for e where
  cr_new: "classifier_reachable e (NewAIClassifier pd env)"
| cr_classify: "classifier_reachable e c \<Longrightarrow> Classify e now fin ctx p c = Some (c', res, q) \<Longrightarrow>
    classifier_reachable e c'"
| cr_refresh: "classifier_reachable e c \<Longrightarrow> refresh_done e now fin i p c = Some (c', q) \<Longrightarrow>
    classifier_reachable e c'"
| cr_update: "classifier_reachable e c \<Longrightarrow> classifier_reachable e (UpdateThompson st rg cg t ok c)"

lemma classifier_ok_new: "classifier_ok (NewAIClassifier pd env)"
  by (simp add: classifier_ok_def NewAIClassifier_def Let_def)

lemma UpdateThompson_ok:
  assumes "classifier_ok c"
  shows "classifier_ok (UpdateThompson st rg cg t ok c)"
proof -
  let ?k = "context_key st rg cg"
  let ?ps = "case map_of (betaParams c) ?k of Some ps \<Rightarrow> ps | None \<Rightarrow> uniform_params"
  have ps: "params_ok ?ps" by (rule params_lookup [OF assms])
  have step: "params_ok (ps[i := (if s then (a + 1, b) else (a, b + 1))])"
    if "params_ok ps" "i < 3" "ps ! i = (a, b)" for ps i s a b
  proof -
    have "(a, b) \<in> set ps" using that by (metis nth_mem params_ok_def)
    with that have "1 \<le> a" "1 \<le> b" by (auto simp: params_ok_def)
    with that(1) show ?thesis unfolding params_ok_def
      by (auto dest!: set_update_subset_insert [THEN subsetD] split: if_splits)
  qed
  show ?thesis
    using assms ps step [OF ps, of "unat t"] unfolding UpdateThompson_def Let_def
    by (simp add: classifier_ok_def split: prod.splits)
qed

lemma classifier_reachable_ok: "classifier_reachable e c \<Longrightarrow> classifier_ok c"
  by (induction rule: classifier_reachable.induct)
    (simp_all add: classifier_ok_new UpdateThompson_ok refresh_done_ok Classify_ok [THEN conjunct1])

subsection \<open>Properties\<close>



text \<open>Once a key is cached, classification never waits: the cached decision is
  returned for a fresh and for a stale entry alike, whatever the provider would do, and no sample
  is drawn.\<close>

theorem cached_classification_immediate:
  assumes "map_of (cache c) (cache_key ctx) = Some entry"
  shows "\<exists>c'. (\<forall>e fin. Classify e now fin ctx p c = Some (c', ceResult entry, p))
    \<and> (now < ceExpiresAt entry \<longrightarrow> c' = c)
    \<and> (\<exists>entry'. map_of (cache c') (cache_key ctx) = Some entry' \<and> ceResult entry' = ceResult entry)"
  using assms by (auto simp: Classify_def Let_def update_conv')

theorem cached_classification_immediate_witness:
  "let ctx = \<lparr>SignalType = ''logs'', EntityRegime = ''stable'', AnomalyScore = 0,
        TopologyDepth = ''leaf'', EntropyDelta = 0, SignalRarity = ''routine'', RTTMs = 1,
        LossRate = 0, CongestionLevel = ''low'', PayloadSizeKB = 1, TimeSinceLastS = 0\<rparr>;
       res = classifyRuleBased (\<lambda>_ _. []) ctx;
       c = cache_store (cache_key ctx) res 0 (NewAIClassifier (\<lambda>_. None) (\<lambda>_. []))
   in \<exists>c'. \<forall>e fin. Classify e 7 fin ctx (0, 0) c = Some (c', res, (0, 0))"
  unfolding Let_def
  by (rule exE [OF cached_classification_immediate
        [where now = 7 and p = "(0, 0)" and entry = "\<lparr>ceResult = classifyRuleBased (\<lambda>_ _. []) ctx,
            ceExpiresAt = t, ceRefreshing = False\<rparr>" for ctx t]])
     (auto simp: cache_store_def update_conv' intro!: exI)

text \<open>Fresh classification yields a valid tier whichever path decides, and the
  Thompson path a confidence strictly between 0 and 1.\<close>

theorem fresh_tier_valid:
  assumes "classifier_reachable e c"
  shows "(\<forall>c' res q. classifyFresh e t0 t1 ctx p c = Some (c', res, q) \<longrightarrow> aiTier res \<le> TierBesteff)
    \<and> (\<forall>c' res q. classifyThompson r ctx p c = Some (c', res, q) \<longrightarrow>
          aiTier res \<le> TierBesteff \<and> 0 < Confidence res \<and> Confidence res < 1)"
  using classifier_reachable_ok [OF assms] classifyFresh_ok [of e t0 t1 ctx p c]
    classifyThompson_ok [of r ctx p c] by (auto simp: result_ok_def)

lemma betaSample_zero_tape:
  "betaSample \<lparr>normAt = \<lambda>_. 0, uniAt = \<lambda>_. 0\<rparr> 1 1 p = Some (0.5, (fst p + 2, snd p + 2))"
  by (simp add: betaSample_def gammaSample_returns)

theorem fresh_tier_valid_witness:
  "\<exists>c' res q. classifyThompson \<lparr>normAt = \<lambda>_. 0, uniAt = \<lambda>_. 0\<rparr>
      \<lparr>SignalType = ''logs'', EntityRegime = ''stable'', AnomalyScore = 0,
        TopologyDepth = ''leaf'', EntropyDelta = 0, SignalRarity = ''routine'', RTTMs = 1,
        LossRate = 0, CongestionLevel = ''low'', PayloadSizeKB = 1, TimeSinceLastS = 0\<rparr>
      (0, 0) (NewAIClassifier (\<lambda>_. None) (\<lambda>_. [])) = Some (c', res, q)
    \<and> aiTier res \<le> TierBesteff \<and> Confidence res < 1"
proof -
  let ?r = "\<lparr>normAt = \<lambda>_. 0, uniAt = \<lambda>_. 0\<rparr>" and ?c = "NewAIClassifier (\<lambda>_. None) (\<lambda>_. [])"
  let ?ctx = "\<lparr>SignalType = ''logs'', EntityRegime = ''stable'', AnomalyScore = 0,
        TopologyDepth = ''leaf'', EntropyDelta = 0, SignalRarity = ''routine'', RTTMs = 1,
        LossRate = 0, CongestionLevel = ''low'', PayloadSizeKB = 1, TimeSinceLastS = 0\<rparr>"
  have "\<exists>c' res q. classifyThompson ?r ?ctx (0, 0) ?c = Some (c', res, q)"
    by (simp add: classifyThompson_def NewAIClassifier_def uniform_params_def enumerate_eq_zip
        upt_rec betaSample_zero_tape Let_def)
  then obtain c' res q where "classifyThompson ?r ?ctx (0, 0) ?c = Some (c', res, q)" by blast
  with fresh_tier_valid [OF cr_new, where r = ?r and ctx = ?ctx and p = "(0, 0)"] show ?thesis
    by blast
qed

text \<open>The rules never downgrade a signal that matters: a critical or degraded entity,
  an anomaly score above 0.7 or a rare signal is always guaranteed, and best effort is only chosen
  for routine signals or metrics under high congestion.\<close>

theorem rules_protect_important_signals:
  "(EntityRegime ctx \<in> {''critical'', ''degraded''} \<or> AnomalyScore ctx > 0.7
      \<or> SignalRarity ctx \<in> {''first-seen'', ''schema-change''})
     = (aiTier (classifyRuleBased f ctx) = TierGuaranteed)
   \<and> (aiTier (classifyRuleBased f ctx) = TierBesteff
      \<longrightarrow> SignalRarity ctx = ''routine'' \<or> (CongestionLevel ctx = ''high'' \<and> SignalType ctx = ''metrics''))"
  by (simp add: classifyRuleBased_def)

theorem rules_protect_important_signals_witness:
  "aiTier (classifyRuleBased (\<lambda>_ _. []) \<lparr>SignalType = ''logs'', EntityRegime = ''stable'', AnomalyScore = 0.9,
      TopologyDepth = ''leaf'', EntropyDelta = 0, SignalRarity = ''routine'', RTTMs = 1,
      LossRate = 0, CongestionLevel = ''low'', PayloadSizeKB = 1, TimeSinceLastS = 0\<rparr>) = TierGuaranteed"
  using rules_protect_important_signals [of "\<lparr>SignalType = ''logs'', EntityRegime = ''stable'',
      AnomalyScore = 0.9, TopologyDepth = ''leaf'', EntropyDelta = 0, SignalRarity = ''routine'', RTTMs = 1,
      LossRate = 0, CongestionLevel = ''low'', PayloadSizeKB = 1, TimeSinceLastS = 0\<rparr>" "\<lambda>_ _. []"]
  by simp

end
