(* ===== verification/Client_V2.thy ===== *)
theory Client_V2
  imports Wire_Format Client_Config Congestion Classifier
begin

section \<open>The V2 client: state and primitive steps\<close>

text \<open>
  \<open>transport/agenticudp.go\<close>: the \<open>Client\<close> structure and the operations that run under its locks,
  each one atomic step: \<open>processACK\<close>, \<open>processNACK\<close>, \<open>runRetransmitTick\<close>, \<open>transmitWithFlags\<close>, the
  bodies of the background loops and the setters. What the operating system answers is an argument
  of the step: the result of a \<open>Write\<close>, the clock reading, the order in which \<open>range\<close> visits the
  in-flight map. The log \<open>wlog\<close> records every datagram handed to \<open>conn.Write\<close> and \<open>fired\<close> every
  payload handed to the configuration callback; both are observations, not program state.

  The lemmas build up the client invariant and the accounting of reliable datagrams; the
  properties are in the second half.
\<close>

subsection \<open>Errors\<close>

datatype err = EMSGSIZE | Err string

definition err_msg :: "err \<Rightarrow> string" where
  "err_msg e = (case e of EMSGSIZE \<Rightarrow> ''message too long'' | Err m \<Rightarrow> m)"

definition isOversizeDatagramErr :: "err option \<Rightarrow> bool" where
  "isOversizeDatagramErr e =
     (case e of None \<Rightarrow> False
      | Some e \<Rightarrow> (if e = EMSGSIZE then True
          else let msg = err_msg e
               in contains ''message too long'' msg \<or> contains ''message too large'' msg
                  \<or> contains ''larger than the internal message buffer'' msg))"

subsection \<open>State\<close>

record inflightPkt =
  pData :: bytes
  pSeq :: u16
  pStreamID :: u16
  pTier :: tier
  pSentAt :: gotime
  pRetries :: int

datatype config_handler = RawHandler | PipelineHandler

record Client =
  tenantID :: string
  connNil :: bool
  useDTLS :: bool
  established :: bool
  seqCounter :: u32
  inflight :: "(u32, inflightPkt) gomap"
  onConfig :: "config_handler option"
  sent :: u64
  acked :: u64
  retransmits :: u64
  dropped :: u64
  aiClassifier :: "AIClassifier option"
  featureExtractor :: "FeatureExtractor option"
  congestionPredictor :: "CongestionPredictor option"
  lastRTTMs :: int
  maxInflight :: int
  baseMaxInflight :: int
  baseRTOMs :: int
  maxRTOMs :: int
  maxRetransmitBudget :: int
  connClosed :: bool
  wlog :: "bytes list"
  fired :: "(config_handler \<times> bytes) list"

type_synonym inflight_order = "(u32, inflightPkt) gomap \<Rightarrow> (u32, inflightPkt) gomap"

definition zeroClient :: "string \<Rightarrow> Client" where
  "zeroClient tenant =
     \<lparr>tenantID = tenant, connNil = True, useDTLS = False, established = False, seqCounter = 0,
      inflight = [], onConfig = None, sent = 0, acked = 0, retransmits = 0, dropped = 0,
      aiClassifier = None, featureExtractor = None, congestionPredictor = None, lastRTTMs = 0,
      maxInflight = 0, baseMaxInflight = 0, baseRTOMs = 0, maxRTOMs = 0, maxRetransmitBudget = 0,
      connClosed = False, wlog = [], fired = []\<rparr>"

text \<open>Constructors. \<open>resolveErr\<close> and \<open>dialErr\<close> are the answers of \<open>net.ResolveUDPAddr\<close> and
  \<open>net.DialUDP\<close>.\<close>

definition NewClient ::
  "(string \<Rightarrow> string) \<Rightarrow> string option \<Rightarrow> string option \<Rightarrow> string \<Rightarrow> string \<Rightarrow> err + Client" where
  "NewClient env resolveErr dialErr host tenant =
     (case resolveErr of
        Some e \<Rightarrow> Inl (Err (''agenticudp: resolve '' @ host @ '': '' @ e))
      | None \<Rightarrow>
          (case dialErr of
             Some e \<Rightarrow> Inl (Err (''agenticudp: dial '' @ host @ '': '' @ e))
           | None \<Rightarrow>
               let cap = defaultMaxInflightFromEnv env
               in Inr ((zeroClient tenant)
                    \<lparr>connNil := False, maxInflight := cap, baseMaxInflight := cap,
                     baseRTOMs := defaultBaseRTOFromEnv env, maxRTOMs := defaultMaxRTOFromEnv env,
                     maxRetransmitBudget := defaultRetransmitBudgetFromEnv env\<rparr>)))"

text \<open>\<open>modeNone\<close> is whether the DTLS configuration's mode is \<open>DTLSModeNone\<close>; the connection is only
  created by the handshake.\<close>

definition NewClientDTLS ::
  "(string \<Rightarrow> string) \<Rightarrow> string option \<Rightarrow> string \<Rightarrow> string \<Rightarrow> bool \<Rightarrow> err + Client" where
  "NewClientDTLS env resolveErr host tenant modeNone =
     (case resolveErr of
        Some e \<Rightarrow> Inl (Err (''agenticudp: resolve '' @ host @ '': '' @ e))
      | None \<Rightarrow>
          Inr ((zeroClient tenant)
                 \<lparr>useDTLS := \<not> modeNone, maxInflight := defaultMaxInflightFromEnv env,
                  baseRTOMs := defaultBaseRTOFromEnv env, maxRTOMs := defaultMaxRTOFromEnv env,
                  maxRetransmitBudget := defaultRetransmitBudgetFromEnv env\<rparr>))"

subsection \<open>Setters\<close>

definition SetMaxInflight :: "int \<Rightarrow> Client \<Rightarrow> Client" where
  "SetMaxInflight n c = (let n = (if n < 0 then 0 else n) in c\<lparr>maxInflight := n\<rparr>)"

definition SetBaseRTO :: "int \<Rightarrow> Client \<Rightarrow> Client" where
  "SetBaseRTO ms c = (if ms \<le> 0 then c else c\<lparr>baseRTOMs := ms\<rparr>)"

definition SetMaxRTO :: "int \<Rightarrow> Client \<Rightarrow> Client" where
  "SetMaxRTO ms c = (if ms \<le> 0 then c else c\<lparr>maxRTOMs := ms\<rparr>)"

definition SetRetransmitBudget :: "int \<Rightarrow> Client \<Rightarrow> Client" where
  "SetRetransmitBudget n c = (if n \<le> 0 then c else c\<lparr>maxRetransmitBudget := n\<rparr>)"

definition SetConfigHandler :: "config_handler option \<Rightarrow> Client \<Rightarrow> Client" where
  "SetConfigHandler fn c = c\<lparr>onConfig := fn\<rparr>"

definition EnableAI ::
  "AIClassifier \<Rightarrow> FeatureExtractor \<Rightarrow> CongestionPredictor \<Rightarrow> Client \<Rightarrow> Client" where
  "EnableAI classifier extractor predictor c =
     c\<lparr>aiClassifier := Some classifier, featureExtractor := Some extractor,
       congestionPredictor := Some predictor\<rparr>"

definition lossRate :: "Client \<Rightarrow> real" where
  "lossRate c = (if sent c = 0 then 0 else real (unat (dropped c)) / real (unat (sent c)))"

subsection \<open>Session set-up and tear-down\<close>

definition log_write :: "bytes \<Rightarrow> Client \<Rightarrow> Client" where
  "log_write pkt c = c\<lparr>wlog := wlog c @ [pkt]\<rparr>"

text \<open>What the peer does during the handshake: dialling DTLS, the write and the read.\<close>

datatype handshake_read = ReadErr string | ReadBytes bytes

text \<open>Writing on a nil connection is a run-time panic: \<open>None\<close>.\<close>

definition doHandshake ::
  "string option \<Rightarrow> string option \<Rightarrow> handshake_read \<Rightarrow> Client \<Rightarrow> (Client \<times> err option) option" where
  "doHandshake dialErr writeErr rd c =
     (if useDTLS c \<and> dialErr \<noteq> None
      then Some (c, Some (Err (''agenticudp: '' @ the dialErr)))
      else
        let c = (if useDTLS c then c\<lparr>connNil := False\<rparr> else c);
            pkt = buildPacket pktHandshake 0 0 0 0 0 []
        in if connNil c then None
           else
             let c = log_write pkt c
             in case writeErr of
                  Some e \<Rightarrow> Some (c, Some (Err (''agenticudp: handshake send: '' @ e)))
                | None \<Rightarrow>
                    (case rd of
                       ReadErr e \<Rightarrow> Some (c, Some (Err (''agenticudp: handshake timeout: '' @ e)))
                     | ReadBytes d \<Rightarrow>
                         let d = take (headerSize + 256) d;
                             buf1 = (d @ replicate (headerSize + 256) 0) ! 1
                         in if length d \<ge> headerSize \<and> buf1 = pktHandshake
                            then Some (c\<lparr>established := True\<rparr>, None)
                            else Some (c, Some (Err (''agenticudp: unexpected handshake response (type=''
                                                     @ digits_of (unat buf1) @ '')'')))))"

definition Close :: "Client \<Rightarrow> Client option" where
  "Close c =
     (let fin = buildPacket pktFIN 0 0 0 0 0 []
      in if connNil c then None else Some ((log_write fin c)\<lparr>connClosed := True\<rparr>))"

subsection \<open>Acknowledgements\<close>

definition match_wire :: "u16 \<Rightarrow> u16 \<Rightarrow> u32 \<times> inflightPkt \<Rightarrow> bool" where
  "match_wire wireSeq wireStreamID e \<longleftrightarrow> pSeq (snd e) = wireSeq \<and> pStreamID (snd e) = wireStreamID"

text \<open>\<open>p.retries++; p.sentAt = now\<close>.\<close>

definition retry_pkt :: "gotime \<Rightarrow> inflightPkt \<Rightarrow> inflightPkt" where
  "retry_pkt now p = p\<lparr>pRetries := i64 (pRetries p + 1), pSentAt := now\<rparr>"

definition processACK ::
  "inflight_order \<Rightarrow> gotime \<Rightarrow> u16 \<Rightarrow> u16 \<Rightarrow> Client \<Rightarrow> Client \<times> bool" where
  "processACK rng now wireSeq wireStreamID c =
     (case find (match_wire wireSeq wireStreamID) (rng (inflight c)) of
        None \<Rightarrow> (c, False)
      | Some (foundKey, foundPkt) \<Rightarrow>
          let rttMs = go_div (time_sub now (pSentAt foundPkt)) millisecond
          in (c\<lparr>lastRTTMs := rttMs,
                congestionPredictor := map_option (RecordRTT now (real_of_int rttMs)) (congestionPredictor c),
                inflight := AList.delete foundKey (inflight c),
                acked := acked c + 1\<rparr>, True))"

definition processNACK :: "inflight_order \<Rightarrow> gotime \<Rightarrow> u16 \<Rightarrow> u16 \<Rightarrow> Client \<Rightarrow> Client" where
  "processNACK rng now wireSeq wireStreamID c =
     (case find (match_wire wireSeq wireStreamID) (rng (inflight c)) of
        None \<Rightarrow> c
      | Some (k, p) \<Rightarrow>
          (log_write (pData p) c)
            \<lparr>inflight := AList.update k (retry_pkt now p) (inflight c),
             retransmits := retransmits c + 1\<rparr>)"

text \<open>One datagram received by \<open>ackLoop\<close>. The read buffer has \<open>maxPayload\<close> bytes.\<close>

definition ackLoop_step :: "inflight_order \<Rightarrow> gotime \<Rightarrow> bytes \<Rightarrow> Client \<Rightarrow> Client" where
  "ackLoop_step rng now d c =
     (let buf = take maxPayload d; n = length buf
      in if n < headerSize \<or> buf ! 0 \<noteq> protoV2 then c
         else
           let pktType = buf ! 1;
               seq = be16 (buf ! 4) (buf ! 5);
               streamID = be16 (buf ! 6) (buf ! 7)
           in if pktType = pktACK then fst (processACK rng now seq streamID c)
              else if pktType = pktNACK then processNACK rng now seq streamID c
              else if pktType = pktConfig then
                (if n > headerSize then
                   let payload = drop headerSize buf;
                       c = log_write (buildPacket pktACK 0 0 seq streamID 0 []) c
                   in case onConfig c of
                        None \<Rightarrow> c
                      | Some fn \<Rightarrow> c\<lparr>fired := fired c @ [(fn, payload)]\<rparr>
                 else c)
              else c)"

subsection \<open>The receive loop of the V3 client\<close>

text \<open>\<open>transport/agenticudp_v3.go\<close>: \<open>ClientV3\<close> embeds the V2 client and only replaces its receive loop,
  which acts on the shared state.\<close>

definition handleConfigPayload :: "bytes \<Rightarrow> u16 \<Rightarrow> u16 \<Rightarrow> u8 \<Rightarrow> Client \<Rightarrow> Client" where
  "handleConfigPayload data seq streamID proto c =
     (let payload = data;
          ack = (if proto = protoV3 then buildPacketV3 pktACK 0 0 seq streamID 0 0 1 0 []
                 else buildPacket pktACK 0 0 seq streamID 0 []);
          c = log_write ack c
      in case onConfig c of
           None \<Rightarrow> c
         | Some fn \<Rightarrow> c\<lparr>fired := fired c @ [(fn, payload)]\<rparr>)"

text \<open>The loop over the sequence numbers of a SACK; the map is visited anew, in the order \<open>rngs i\<close>, for
  the \<open>i\<close>-th of them.\<close>

fun sack_loop ::
  "(nat \<Rightarrow> inflight_order) \<Rightarrow> gotime \<Rightarrow> nat \<Rightarrow> bytes \<Rightarrow> u16 \<Rightarrow> Client \<Rightarrow> Client" where
  "sack_loop rngs now i (a # b # rest) streamID c =
     sack_loop rngs now (Suc i) rest streamID (fst (processACK (rngs i) now (be16 a b) streamID c))"
| "sack_loop rngs now i _ streamID c = c"

definition ackLoopV3_step :: "(nat \<Rightarrow> inflight_order) \<Rightarrow> gotime \<Rightarrow> bytes \<Rightarrow> Client \<Rightarrow> Client" where
  "ackLoopV3_step rngs now d c =
     (let buf = take maxPayload d; n = length buf;
          pktType = buf ! 1;
          seq = be16 (buf ! 4) (buf ! 5);
          streamID = be16 (buf ! 6) (buf ! 7)
      in if n \<ge> headerSize \<and> buf ! 0 = protoV2 then
           (if pktType = pktACK then fst (processACK (rngs 0) now seq streamID c)
            else if pktType = pktNACK then processNACK (rngs 0) now seq streamID c
            else if pktType = pktConfig then
              (if n > headerSize then handleConfigPayload (drop headerSize buf) seq streamID protoV2 c else c)
            else c)
         else if n < headerSizeV3 \<or> buf ! 0 \<noteq> protoV3 then c
         else if pktType = pktACK then fst (processACK (rngs 0) now seq streamID c)
         else if pktType = pktSACK then sack_loop rngs now 0 (drop headerSizeV3 buf) streamID c
         else if pktType = pktNACK then processNACK (rngs 0) now seq streamID c
         else if pktType = pktConfig then
           (if n > headerSizeV3 then handleConfigPayload (drop headerSizeV3 buf) seq streamID protoV3 c else c)
         else c)"

definition keepaliveLoop_tick :: "Client \<Rightarrow> Client" where
  "keepaliveLoop_tick c = log_write (buildPacket pktKeepalive 0 0 0 0 0 []) c"

subsection \<open>Retransmission\<close>

definition maxRetries :: "inflightPkt \<Rightarrow> int" where
  "maxRetries p = (if pTier p = TierGuaranteed then 10 else 3)"

definition rto_elapsed :: "int \<Rightarrow> int \<Rightarrow> gotime \<Rightarrow> inflightPkt \<Rightarrow> bool" where
  "rto_elapsed baseRTO maxRTO now p \<longleftrightarrow>
     \<not> time_sub now (pSentAt p) \<le> computeRTO baseRTO maxRTO (pRetries p)"

text \<open>The \<open>range\<close> loop splits the visited entries into the expired and the eligible ones.\<close>

fun classify_inflight ::
  "int \<Rightarrow> int \<Rightarrow> gotime \<Rightarrow> (u32, inflightPkt) gomap \<Rightarrow> u32 list \<times> (u32, inflightPkt) gomap" where
  "classify_inflight baseRTO maxRTO now [] = ([], [])"
| "classify_inflight baseRTO maxRTO now ((key, pkt) # es) =
     (let (toRemove, eligible) = classify_inflight baseRTO maxRTO now es
      in if \<not> rto_elapsed baseRTO maxRTO now pkt then (toRemove, eligible)
         else if pRetries pkt \<ge> maxRetries pkt then (key # toRemove, eligible)
         else (toRemove, (key, pkt) # eligible))"

text \<open>\<open>sort.Slice\<close> is not stable; every order it may produce is the stable sort of some order of
  \<open>range\<close>, so the stable sort covers them all.\<close>

fun retransmit_loop ::
  "gotime \<Rightarrow> int \<Rightarrow> int \<Rightarrow> (u32, inflightPkt) gomap \<Rightarrow> Client \<Rightarrow> Client" where
  "retransmit_loop now budget n [] c = c"
| "retransmit_loop now budget n ((k, p) # es) c =
     (if n \<ge> budget then c
      else retransmit_loop now budget (n + 1) es
        ((log_write (pData p) c)
           \<lparr>inflight := AList.update k (retry_pkt now p) (inflight c),
            retransmits := retransmits c + 1\<rparr>))"

definition effective_budget :: "Client \<Rightarrow> int" where
  "effective_budget c =
     (if maxRetransmitBudget c \<le> 0 then defaultMaxRetransmitsPerTick else maxRetransmitBudget c)"

text \<open>\<open>now\<close> is the tick's argument, \<open>lossNow\<close> the clock reading of \<open>RecordLoss\<close>.\<close>

definition runRetransmitTick :: "inflight_order \<Rightarrow> gotime \<Rightarrow> gotime \<Rightarrow> Client \<Rightarrow> Client" where
  "runRetransmitTick rng now lossNow c =
     (let budget = effective_budget c;
          (toRemove, eligible) =
            classify_inflight (baseRTOMs c) (maxRTOMs c) now (rng (inflight c));
          c = c\<lparr>dropped := dropped c + of_nat (length toRemove)\<rparr>;
          eligible = sort_key (\<lambda>e. pSentAt (snd e)) eligible;
          c = retransmit_loop now budget 0 eligible c;
          c = c\<lparr>inflight := fold AList.delete toRemove (inflight c)\<rparr>
      in if toRemove \<noteq> []
         then c\<lparr>congestionPredictor := map_option (RecordLoss lossNow (lossRate c)) (congestionPredictor c)\<rparr>
         else c)"

subsection \<open>The congestion tuner\<close>

definition tuner_ceiling :: "(string \<Rightarrow> string) \<Rightarrow> Client \<Rightarrow> int" where
  "tuner_ceiling env c =
     (let cap = maxInflight c in if cap \<le> 0 then defaultMaxInflightFromEnv env else cap)"

definition tuner_target :: "int \<Rightarrow> string \<Rightarrow> int" where
  "tuner_target cap action =
     (let target = (if action = ''pace'' then go_div cap 2
                    else if action = ''reduce'' then go_div cap 4
                    else if action = ''defer'' then go_div cap 8
                    else cap)
      in if target < 4 then 4 else target)"

text \<open>One tick of \<open>congestionTunerLoop\<close>, which captured its ceiling \<open>cap\<close> when it started.\<close>

definition congestionTunerLoop_tick :: "int \<Rightarrow> gotime \<Rightarrow> Client \<Rightarrow> Client" where
  "congestionTunerLoop_tick cap now c =
     (case congestionPredictor c of
        None \<Rightarrow> c
      | Some cp \<Rightarrow>
          let (cp', pred) = Predict now cp
          in c\<lparr>congestionPredictor := Some cp',
               maxInflight := tuner_target cap (RecommendedAction pred)\<rparr>)"

subsection \<open>Transmission\<close>

definition transmitWithFlags ::
  "err option \<Rightarrow> gotime \<Rightarrow> bytes \<Rightarrow> tier \<Rightarrow> u16 \<Rightarrow> u8 \<Rightarrow> Client \<Rightarrow> Client \<times> err option" where
  "transmitWithFlags writeErr now payload tr streamID flags c =
     (if headerSize + length payload > maxPayload then (c, Some EMSGSIZE)
      else
        let seqFull = seqCounter c + 1;
            c = c\<lparr>seqCounter := seqFull\<rparr>;
            seq = ucast seqFull;
            contentID = fnv1a payload;
            pkt = buildPacket pktData tr flags seq streamID contentID payload;
            c = log_write pkt c
        in case writeErr of
             Some e \<Rightarrow> (c\<lparr>dropped := dropped c + 1\<rparr>, Some e)
           | None \<Rightarrow>
               let c = c\<lparr>sent := sent c + 1\<rparr>;
                   c = (if tr \<noteq> TierBesteff
                        then c\<lparr>inflight := AList.update seqFull
                               \<lparr>pData = pkt, pSeq = seq, pStreamID = streamID, pTier = tr,
                                pSentAt = now, pRetries = 0\<rparr> (inflight c)\<rparr>
                        else c)
               in (c, None))"

definition transmit ::
  "err option \<Rightarrow> gotime \<Rightarrow> bytes \<Rightarrow> tier \<Rightarrow> u16 \<Rightarrow> Client \<Rightarrow> Client \<times> err option" where
  "transmit writeErr now payload tr streamID c = transmitWithFlags writeErr now payload tr streamID 0 c"

record Stats =
  stSent :: u64
  stAcked :: u64
  stRetransmits :: u64
  stDropped :: u64
  stInflight :: nat
  stEstablished :: bool
  stLastRTTMs :: int
  stAIStats :: "classifier_stats option"

definition client_Stats :: "Client \<Rightarrow> Stats" where
  "client_Stats c =
     \<lparr>stSent = sent c, stAcked = acked c, stRetransmits = retransmits c, stDropped = dropped c,
      stInflight = length (inflight c), stEstablished = established c, stLastRTTMs = lastRTTMs c,
      stAIStats = map_option classifier_Stats (aiClassifier c)\<rparr>"

subsection \<open>Lemmas: finding an in-flight packet\<close>

lemma find_range_Some:
  assumes "is_range rng" "gomap_ok m" "find P (rng m) = Some (k, p)"
  shows "P (k, p)" "(k, p) \<in> set m" "map_of m k = Some p"
proof -
  from assms(3) show "P (k, p)" by (auto simp: find_Some_iff)
  from assms(3) have "(k, p) \<in> set (rng m)" by (auto simp: find_Some_iff)
  then show "(k, p) \<in> set m" using is_rangeD(2) [OF assms(1)] by simp
  with assms(2) show "map_of m k = Some p" by (simp add: gomap_lookup_iff)
qed

lemma find_range_None:
  assumes "is_range rng"
  shows "find P (rng m) = None \<longleftrightarrow> (\<forall>e \<in> set m. \<not> P e)"
  using is_rangeD(2) [OF assms, of m] by (auto simp: find_None_iff)

subsection \<open>Lemmas: the retransmit tick\<close>

definition expired :: "int \<Rightarrow> int \<Rightarrow> gotime \<Rightarrow> inflightPkt \<Rightarrow> bool" where
  "expired b m now p \<longleftrightarrow> rto_elapsed b m now p \<and> maxRetries p \<le> pRetries p"

definition eligible :: "int \<Rightarrow> int \<Rightarrow> gotime \<Rightarrow> inflightPkt \<Rightarrow> bool" where
  "eligible b m now p \<longleftrightarrow> rto_elapsed b m now p \<and> pRetries p < maxRetries p"

lemma classify_inflight_eq:
  "classify_inflight b m now es =
     (map fst (filter (\<lambda>e. expired b m now (snd e)) es), filter (\<lambda>e. eligible b m now (snd e)) es)"
  by (induction es) (auto simp: expired_def eligible_def Let_def split: prod.splits)

lemma retransmit_loop_eq:
  "retransmit_loop now budget n es c =
     (let ys = take (nat (budget - n)) es
      in c\<lparr>wlog := wlog c @ map (\<lambda>e. pData (snd e)) ys,
           inflight := fold (\<lambda>(k, p). AList.update k (retry_pkt now p)) ys (inflight c),
           retransmits := retransmits c + of_nat (length ys)\<rparr>)"
proof (induction es arbitrary: n c)
  case (Cons e es)
  obtain k p where e: "e = (k, p)" by force
  show ?case
  proof (cases "n \<ge> budget")
    case False
    then have "nat (budget - n) = Suc (nat (budget - (n + 1)))" by simp
    with False Cons show ?thesis by (simp add: e log_write_def Let_def)
  qed (simp add: e)
qed simp

text \<open>The entries a tick retransmits.\<close>

definition retransmitted :: "inflight_order \<Rightarrow> gotime \<Rightarrow> Client \<Rightarrow> (u32, inflightPkt) gomap" where
  "retransmitted rng now c =
     take (nat (effective_budget c)) (sort_key (\<lambda>e. pSentAt (snd e))
       (filter (\<lambda>e. eligible (baseRTOMs c) (maxRTOMs c) now (snd e)) (rng (inflight c))))"

definition removed :: "inflight_order \<Rightarrow> gotime \<Rightarrow> Client \<Rightarrow> u32 list" where
  "removed rng now c =
     map fst (filter (\<lambda>e. expired (baseRTOMs c) (maxRTOMs c) now (snd e)) (rng (inflight c)))"

lemma runRetransmitTick_fields:
  "wlog (runRetransmitTick rng now lnow c) = wlog c @ map (\<lambda>e. pData (snd e)) (retransmitted rng now c)"
  "inflight (runRetransmitTick rng now lnow c) =
     fold AList.delete (removed rng now c)
       (fold (\<lambda>(k, p). AList.update k (retry_pkt now p)) (retransmitted rng now c) (inflight c))"
  "retransmits (runRetransmitTick rng now lnow c) = retransmits c + of_nat (length (retransmitted rng now c))"
  "dropped (runRetransmitTick rng now lnow c) = dropped c + of_nat (length (removed rng now c))"
  "acked (runRetransmitTick rng now lnow c) = acked c" "sent (runRetransmitTick rng now lnow c) = sent c"
  "seqCounter (runRetransmitTick rng now lnow c) = seqCounter c"
  "established (runRetransmitTick rng now lnow c) = established c"
  by (simp_all add: runRetransmitTick_def classify_inflight_eq retransmit_loop_eq Let_def
      retransmitted_def removed_def effective_budget_def)

lemma set_retransmitted:
  assumes "is_range rng"
  shows "set (retransmitted rng now c) \<subseteq>
    {e \<in> set (inflight c). eligible (baseRTOMs c) (maxRTOMs c) now (snd e)}"
  unfolding retransmitted_def
  by (rule subset_trans [OF set_take_subset]) (simp add: is_rangeD(2) [OF assms])

lemma set_removed:
  assumes "is_range rng"
  shows "set (removed rng now c) =
    fst ` {e \<in> set (inflight c). expired (baseRTOMs c) (maxRTOMs c) now (snd e)}"
  using is_rangeD(2) [OF assms, of "inflight c"] by (auto simp: removed_def)

lemma distinct_retransmitted:
  assumes "is_range rng" "gomap_ok (inflight c)"
  shows "distinct (map fst (retransmitted rng now c))"
proof -
  let ?f = "filter (\<lambda>e. eligible (baseRTOMs c) (maxRTOMs c) now (snd e)) (rng (inflight c))"
  have "distinct (map fst ?f)"
    using assms is_range_gomap_ok [of rng "inflight c"] by (simp add: gomap_ok_def distinct_map_filter)
  moreover have "mset (map fst (sort_key (\<lambda>e. pSentAt (snd e)) ?f)) = mset (map fst ?f)"
    by simp
  ultimately have "distinct (map fst (sort_key (\<lambda>e. pSentAt (snd e)) ?f))"
    by (metis mset_eq_imp_distinct_iff)
  then show ?thesis unfolding retransmitted_def take_map [symmetric] by (rule distinct_take)
qed

lemma map_of_fold_update:
  "distinct (map fst ys) \<Longrightarrow>
   map_of (fold (\<lambda>(k, p). AList.update k (f p)) ys m) k
     = (case map_of ys k of Some p \<Rightarrow> Some (f p) | None \<Rightarrow> map_of m k)"
proof (induction ys arbitrary: m)
  case (Cons y ys)
  then show ?case
    by (cases y) (auto simp: update_conv' split: option.splits dest: map_of_SomeD intro: rev_image_eqI)
qed simp

lemma map_of_fold_delete:
  "map_of (fold AList.delete ks m) k = (if k \<in> set ks then None else map_of m k)"
  by (induction ks arbitrary: m) (auto simp: delete_conv')

lemma gomap_ok_fold_update: "gomap_ok m \<Longrightarrow> gomap_ok (fold (\<lambda>(k, p). AList.update k (f p)) ys m)"
  by (induction ys arbitrary: m) (auto split: prod.splits)

lemma gomap_ok_fold_delete: "gomap_ok m \<Longrightarrow> gomap_ok (fold AList.delete ks m)"
  by (induction ks arbitrary: m) auto

lemma gomap_ok_tick:
  "gomap_ok (inflight c) \<Longrightarrow> gomap_ok (inflight (runRetransmitTick rng now lnow c))"
  by (simp add: runRetransmitTick_fields gomap_ok_fold_update gomap_ok_fold_delete)

lemma removed_iff:
  assumes "is_range rng" "gomap_ok (inflight c)"
  shows "k \<in> set (removed rng now c) \<longleftrightarrow>
      (\<exists>p. map_of (inflight c) k = Some p \<and> expired (baseRTOMs c) (maxRTOMs c) now p)"
  using assms by (force simp: set_removed gomap_lookup_iff)

text \<open>What a tick does to each entry of the in-flight map.\<close>

lemma tick_lookup:
  assumes "is_range rng" "gomap_ok (inflight c)"
  shows "map_of (inflight (runRetransmitTick rng now lnow c)) k =
    (case map_of (inflight c) k of
       None \<Rightarrow> None
     | Some p \<Rightarrow> if expired (baseRTOMs c) (maxRTOMs c) now p then None
                else if (k, p) \<in> set (retransmitted rng now c) then Some (retry_pkt now p)
                else Some p)"
proof -
  let ?r = "retransmitted rng now c"
  note d = distinct_retransmitted [OF assms, of now]
  have r: "map_of ?r k = Some p \<longleftrightarrow> (k, p) \<in> set ?r" for p using d by simp
  note rem = removed_iff [OF assms, of k now]
  have sub: "(k, p) \<in> set ?r \<Longrightarrow> map_of (inflight c) k = Some p" for p
    using set_retransmitted [OF assms(1), of now c] assms(2) by (auto simp: gomap_lookup_iff)
  show ?thesis
  proof (cases "map_of (inflight c) k")
    case None
    with sub have "map_of ?r k = None" by (metis not_Some_eq r)
    with None show ?thesis
      by (simp add: runRetransmitTick_fields map_of_fold_delete map_of_fold_update [OF d])
  next
    case (Some p)
    have "map_of ?r k = (if (k, p) \<in> set ?r then Some p else None)"
      using sub Some r by (metis not_Some_eq option.inject)
    with Some rem show ?thesis
      by (auto simp: runRetransmitTick_fields map_of_fold_delete map_of_fold_update [OF d])
  qed
qed

lemma take_sorted_rest:
  assumes "e \<in> set xs" "e \<notin> set (take n (sort_key f xs))"
  shows "length (take n (sort_key f xs)) = n" "\<And>w. w \<in> set (take n (sort_key f xs)) \<Longrightarrow> f w \<le> f e"
proof -
  let ?s = "sort_key f xs"
  have s: "?s = take n ?s @ drop n ?s" by simp
  have "e \<in> set ?s" using assms(1) by simp
  then have d: "e \<in> set (drop n ?s)" using assms(2) by (metis Un_iff append_take_drop_id set_append)
  then have "drop n ?s \<noteq> []" by auto
  then show "length (take n ?s) = n" by simp
  have "sorted (map f (take n ?s) @ map f (drop n ?s))"
    using sorted_sort_key [of f xs] by (metis map_append s)
  with d show "\<And>w. w \<in> set (take n ?s) \<Longrightarrow> f w \<le> f e" by (auto simp: sorted_append)
qed

lemma retransmitted_oldest_first:
  assumes "is_range rng" "e \<in> set (inflight c)" "eligible (baseRTOMs c) (maxRTOMs c) now (snd e)"
    "e \<notin> set (retransmitted rng now c)"
  shows "int (length (retransmitted rng now c)) = effective_budget c"
    "w \<in> set (retransmitted rng now c) \<Longrightarrow> pSentAt (snd w) \<le> pSentAt (snd e)"
proof -
  let ?f = "filter (\<lambda>e. eligible (baseRTOMs c) (maxRTOMs c) now (snd e)) (rng (inflight c))"
  have e: "e \<in> set ?f" using assms(2,3) by (simp add: is_rangeD(2) [OF assms(1)])
  from take_sorted_rest [OF e, of "nat (effective_budget c)" "\<lambda>e. pSentAt (snd e)"] assms(4)
  show "int (length (retransmitted rng now c)) = effective_budget c"
    "w \<in> set (retransmitted rng now c) \<Longrightarrow> pSentAt (snd w) \<le> pSentAt (snd e)"
    by (simp_all add: retransmitted_def effective_budget_def)
qed

lemma length_retransmitted: "int (length (retransmitted rng now c)) \<le> effective_budget c"
  by (auto simp: retransmitted_def effective_budget_def min_def)

subsection \<open>Sessions: interleavings of the client's steps\<close>

text \<open>The goroutines share the client through these steps, in any order; a V3 client receives by
  \<open>ReceiveV3\<close>.\<close>

datatype client_setting =
    MaxInflight int | BaseRTO int | MaxRTO int | RetransmitBudget int
  | ConfigHandler "config_handler option"
  | AI AIClassifier FeatureExtractor CongestionPredictor

datatype client_event =
    Send "err option" gotime bytes tier u16 u8
  | Receive inflight_order gotime bytes
  | ReceiveV3 "nat \<Rightarrow> inflight_order" gotime bytes
  | RetransmitTick inflight_order gotime gotime
  | KeepaliveTick
  | TunerTick int gotime
  | Configure client_setting

fun apply_setting :: "client_setting \<Rightarrow> Client \<Rightarrow> Client" where
  "apply_setting (MaxInflight n) c = SetMaxInflight n c"
| "apply_setting (BaseRTO ms) c = SetBaseRTO ms c"
| "apply_setting (MaxRTO ms) c = SetMaxRTO ms c"
| "apply_setting (RetransmitBudget n) c = SetRetransmitBudget n c"
| "apply_setting (ConfigHandler fn) c = SetConfigHandler fn c"
| "apply_setting (AI classifier extractor predictor) c = EnableAI classifier extractor predictor c"

definition client_step :: "client_event \<Rightarrow> Client \<Rightarrow> Client" where
  "client_step ev c =
     (case ev of
        Send we now payload tr st fl \<Rightarrow> fst (transmitWithFlags we now payload tr st fl c)
      | Receive rng now d \<Rightarrow> ackLoop_step rng now d c
      | ReceiveV3 rngs now d \<Rightarrow> ackLoopV3_step rngs now d c
      | RetransmitTick rng now lossNow \<Rightarrow> runRetransmitTick rng now lossNow c
      | KeepaliveTick \<Rightarrow> keepaliveLoop_tick c
      | TunerTick cap now \<Rightarrow> congestionTunerLoop_tick cap now c
      | Configure st \<Rightarrow> apply_setting st c)"

definition event_ok :: "client_event \<Rightarrow> bool" where
  "event_ok ev =
     (case ev of Receive rng now d \<Rightarrow> is_range rng
      | ReceiveV3 rngs now d \<Rightarrow> (\<forall>i. is_range (rngs i))
      | RetransmitTick rng now lossNow \<Rightarrow> is_range rng
      | Configure st \<Rightarrow> (case st of AI classifier extractor predictor \<Rightarrow> predictor_ok predictor | _ \<Rightarrow> True)
      | _ \<Rightarrow> True)"

definition is_send :: "client_event \<Rightarrow> bool" where
  "is_send ev = (case ev of Send we now payload tr st fl \<Rightarrow> True | _ \<Rightarrow> False)"

text \<open>Bookkeeping of a step: datagrams it starts to track, and datagrams it gives up on.\<close>

definition tracked_by :: "client_event \<Rightarrow> nat" where
  "tracked_by ev =
     (case ev of Send we now payload tr st fl \<Rightarrow>
        (if headerSize + length payload \<le> maxPayload \<and> we = None \<and> tr \<noteq> TierBesteff then 1 else 0)
      | _ \<Rightarrow> 0)"

definition given_up_by :: "client_event \<Rightarrow> Client \<Rightarrow> nat" where
  "given_up_by ev c =
     (case ev of RetransmitTick rng now lossNow \<Rightarrow> length (removed rng now c) | _ \<Rightarrow> 0)"

definition run_client :: "client_event list \<Rightarrow> Client \<Rightarrow> Client" where
  "run_client evs c = fold client_step evs c"

text \<open>Sum of a per-step quantity along a run.\<close>

fun run_sum :: "('ev \<Rightarrow> 's \<Rightarrow> 's) \<Rightarrow> ('ev \<Rightarrow> 's \<Rightarrow> nat) \<Rightarrow> 'ev list \<Rightarrow> 's \<Rightarrow> nat" where
  "run_sum step f [] s = 0"
| "run_sum step f (ev # evs) s = f ev s + run_sum step f evs (step ev s)"

definition given_up :: "client_event list \<Rightarrow> Client \<Rightarrow> nat" where
  "given_up evs c = run_sum client_step given_up_by evs c"

definition tracked :: "client_event list \<Rightarrow> nat" where
  "tracked evs = sum_list (map tracked_by evs)"

subsection \<open>The client invariant\<close>

text \<open>Bytes 4 to 7 of a datagram, the fields ACKs are matched on; V2 and V3 agree on them.\<close>

definition wire_ids :: "bytes \<Rightarrow> u16 \<times> u16" where
  "wire_ids d = (be16 (d ! 4) (d ! 5), be16 (d ! 6) (d ! 7))"

definition entry_ok :: "u32 \<Rightarrow> u32 \<times> inflightPkt \<Rightarrow> bool" where
  "entry_ok sc e \<longleftrightarrow> (case e of (k, p) \<Rightarrow>
     pSeq p = ucast k \<and> pTier p \<noteq> TierBesteff \<and> wire_ids (pData p) = (pSeq p, pStreamID p)
     \<and> length (pData p) \<le> maxPayload \<and> k \<le> sc)"

definition client_ok :: "Client \<Rightarrow> bool" where
  "client_ok c \<longleftrightarrow> gomap_ok (inflight c) \<and> (\<forall>e \<in> set (inflight c). entry_ok (seqCounter c) e)
     \<and> (\<forall>cp. congestionPredictor c = Some cp \<longrightarrow> predictor_ok cp)"

lemma buildPacket_wire_ids: "wire_ids (buildPacket pt tr fl sq st ci p) = (sq, st)"
  by (simp add: wire_ids_def buildPacket_layout)

lemma entry_ok_mono: "entry_ok sc e \<Longrightarrow> sc \<le> sc' \<Longrightarrow> entry_ok sc' e"
  by (auto simp: entry_ok_def)

lemma entry_ok_retry [simp]: "entry_ok sc (k, retry_pkt now p) = entry_ok sc (k, p)"
  by (simp add: entry_ok_def retry_pkt_def)

lemma client_okD:
  assumes "client_ok c"
  shows "gomap_ok (inflight c)" "(k, p) \<in> set (inflight c) \<Longrightarrow> entry_ok (seqCounter c) (k, p)"
    "congestionPredictor c = Some cp \<Longrightarrow> predictor_ok cp"
  using assms by (auto simp: client_ok_def)

text \<open>Every step that only replaces the in-flight map and adds to the counters.\<close>

lemma client_okI:
  assumes "gomap_ok (inflight c')" "\<And>k p. map_of (inflight c') k = Some p \<Longrightarrow> entry_ok (seqCounter c') (k, p)"
    "\<And>cp. congestionPredictor c' = Some cp \<Longrightarrow> predictor_ok cp"
  shows "client_ok c'"
  using assms by (auto simp: client_ok_def gomap_lookup_iff)

lemma client_ok_lookup: "client_ok c \<Longrightarrow> map_of (inflight c) k = Some p \<Longrightarrow> entry_ok (seqCounter c) (k, p)"
  by (auto simp: client_ok_def dest: map_of_SomeD)

lemma client_ok_frame [simp, frame_simps]:
  "client_ok (log_write d c) = client_ok c" "client_ok (c\<lparr>fired := f\<rparr>) = client_ok c"
  "client_ok (c\<lparr>retransmits := r\<rparr>) = client_ok c" "client_ok (c\<lparr>maxInflight := n\<rparr>) = client_ok c"
  by (simp_all add: client_ok_def log_write_def)

lemma client_ok_processACK:
  assumes "client_ok c" "is_range rng"
  shows "client_ok (fst (processACK rng now sq st c))"
proof (cases "find (match_wire sq st) (rng (inflight c))")
  case None
  with assms show ?thesis by (simp add: processACK_def)
next
  case (Some e)
  then show ?thesis
    using assms client_ok_lookup [OF assms(1)] client_okD(1,3) [OF assms(1)]
    by (auto simp: processACK_def Let_def delete_conv' split: prod.splits if_splits intro!: client_okI)
qed

lemma client_ok_processNACK:
  assumes "client_ok c" "is_range rng"
  shows "client_ok (processNACK rng now sq st c)"
proof (cases "find (match_wire sq st) (rng (inflight c))")
  case None
  with assms show ?thesis by (simp add: processNACK_def)
next
  case (Some e)
  then obtain k p where e: "find (match_wire sq st) (rng (inflight c)) = Some (k, p)" by (cases e) auto
  from find_range_Some [OF assms(2) client_okD(1) [OF assms(1)] e] e show ?thesis
    using client_ok_lookup [OF assms(1)] client_okD(1,3) [OF assms(1)]
    by (auto simp: processNACK_def log_write_def update_conv' split: if_splits intro!: client_okI)
qed

lemma client_ok_ackLoop:
  "client_ok c \<Longrightarrow> is_range rng \<Longrightarrow> client_ok (ackLoop_step rng now d c)"
  by (simp add: ackLoop_step_def Let_def client_ok_processACK client_ok_processNACK split: option.splits)

lemma client_ok_sack:
  "client_ok c \<Longrightarrow> (\<And>i. is_range (rngs i)) \<Longrightarrow> client_ok (sack_loop rngs now i d st c)"
  by (induction rngs now i d st c rule: sack_loop.induct) (simp_all add: client_ok_processACK)

lemma client_ok_ackLoopV3:
  "client_ok c \<Longrightarrow> (\<And>i. is_range (rngs i)) \<Longrightarrow> client_ok (ackLoopV3_step rngs now d c)"
  by (simp add: ackLoopV3_step_def handleConfigPayload_def Let_def client_ok_processACK
      client_ok_processNACK client_ok_sack split: option.splits)

lemma congestionPredictor_tick:
  "congestionPredictor (runRetransmitTick rng now lnow c) = congestionPredictor c
   \<or> (\<exists>x. congestionPredictor (runRetransmitTick rng now lnow c)
          = map_option (RecordLoss lnow x) (congestionPredictor c))"
  by (auto simp: runRetransmitTick_def classify_inflight_eq retransmit_loop_eq Let_def)

lemma client_ok_tick:
  assumes "client_ok c" "is_range rng"
  shows "client_ok (runRetransmitTick rng now lnow c)"
proof (rule client_okI)
  note ok = client_okD(1) [OF assms(1)]
  show "gomap_ok (inflight (runRetransmitTick rng now lnow c))" by (rule gomap_ok_tick [OF ok])
  show "entry_ok (seqCounter (runRetransmitTick rng now lnow c)) (k, p)"
    if "map_of (inflight (runRetransmitTick rng now lnow c)) k = Some p" for k p
    using that client_ok_lookup [OF assms(1), of k]
    by (auto simp: tick_lookup [OF assms(2) ok] runRetransmitTick_fields(7) split: option.splits if_splits)
  show "predictor_ok cp" if "congestionPredictor (runRetransmitTick rng now lnow c) = Some cp" for cp
    using that congestionPredictor_tick [of rng now lnow c] client_okD(3) [OF assms(1)]
    by (cases "congestionPredictor c") auto
qed

lemma seq_fresh:
  assumes "client_ok c" "seqCounter c \<noteq> - 1"
  shows "seqCounter c < seqCounter c + 1" "seqCounter c + 1 \<notin> fst ` set (inflight c)"
proof -
  show lt: "seqCounter c < seqCounter c + 1" using assms(2) by (rule word_less_plus_one)
  show "seqCounter c + 1 \<notin> fst ` set (inflight c)"
    using assms(1) lt by (force simp: client_ok_def entry_ok_def)
qed

lemma entry_ok_new:
  assumes "headerSize + length payload \<le> maxPayload" "tr \<noteq> TierBesteff"
  shows "entry_ok k (k, \<lparr>pData = buildPacket pktData tr fl (ucast k) st ci payload, pSeq = ucast k,
    pStreamID = st, pTier = tr, pSentAt = now, pRetries = 0\<rparr>)"
  using assms by (simp add: entry_ok_def buildPacket_wire_ids)

lemma client_ok_transmit:
  assumes "client_ok c" "seqCounter c \<noteq> - 1"
  shows "client_ok (fst (transmitWithFlags we now payload tr st fl c))"
proof (cases "headerSize + length payload \<le> maxPayload")
  case True
  have e: "entry_ok (seqCounter c + 1) (k, p)" if "map_of (inflight c) k = Some p" for k p
    using client_ok_lookup [OF assms(1) that] seq_fresh(1) [OF assms] by (auto elim!: entry_ok_mono)
  note new = entry_ok_new [OF True, of tr "seqCounter c + 1" fl st "fnv1a payload" now]
  show ?thesis
    using True client_okD(1,3) [OF assms(1)]
    by (auto simp: transmitWithFlags_def Let_def log_write_def update_conv'
        split: option.splits if_splits intro!: client_okI e new)
qed (use assms(1) in \<open>simp add: transmitWithFlags_def\<close>)

lemma client_ok_tuner: "client_ok c \<Longrightarrow> client_ok (congestionTunerLoop_tick cap now c)"
  by (auto simp: congestionTunerLoop_tick_def client_ok_def case_prod_beta Let_def split: option.splits)

lemma client_ok_setting:
  "client_ok c \<Longrightarrow> event_ok (Configure s) \<Longrightarrow> client_ok (apply_setting s c)"
  by (cases s) (auto simp: client_ok_def event_ok_def SetMaxInflight_def SetBaseRTO_def SetMaxRTO_def
      SetRetransmitBudget_def SetConfigHandler_def EnableAI_def Let_def)

lemma client_ok_step:
  assumes "client_ok c" "event_ok ev" "is_send ev \<Longrightarrow> seqCounter c \<noteq> - 1"
  shows "client_ok (client_step ev c)"
  using assms client_ok_setting
  by (cases ev) (auto simp: client_step_def event_ok_def is_send_def client_ok_transmit client_ok_ackLoop
      client_ok_ackLoopV3 client_ok_tick client_ok_tuner keepaliveLoop_tick_def)

subsection \<open>Accounting\<close>

lemma gomap_length_card: "gomap_ok m \<Longrightarrow> length m = card (dom (map_of m))"
  using distinct_card [of "map fst m"] by (simp add: gomap_ok_def dom_map_of_conv_image_fst)

lemma length_update_present: "k \<in> fst ` set m \<Longrightarrow> length (AList.update k v m) = length m"
  by (induction m) auto

lemma tick_length:
  assumes "client_ok c" "is_range rng"
  shows "length (inflight (runRetransmitTick rng now lnow c)) + length (removed rng now c)
           = length (inflight c)"
proof -
  let ?m = "inflight c" and ?m' = "inflight (runRetransmitTick rng now lnow c)"
  note ok = client_okD(1) [OF assms(1)]
  have rem: "set (removed rng now c) \<subseteq> dom (map_of ?m)"
    using assms(2) by (auto simp: set_removed dom_map_of_conv_image_fst)
  have "distinct (removed rng now c)"
    using ok is_range_gomap_ok [OF assms(2), of ?m]
    by (simp add: removed_def gomap_ok_def distinct_map_filter)
  then have card: "card (set (removed rng now c)) = length (removed rng now c)" by (rule distinct_card)
  have "dom (map_of ?m') = dom (map_of ?m) - set (removed rng now c)"
    by (auto simp: dom_def tick_lookup [OF assms(2) ok] removed_iff [OF assms(2) ok]
        split: option.splits if_splits)
  then show ?thesis
    using rem card card_Diff_subset [OF _ rem] card_mono [OF _ rem]
    by (simp add: gomap_length_card [OF ok] gomap_length_card [OF gomap_ok_tick [OF ok]] finite_dom_map_of)
qed

definition account :: "Client \<Rightarrow> u64" where
  "account c = of_nat (length (inflight c)) + acked c"

lemma account_processACK:
  assumes "client_ok c" "is_range rng"
  shows "account (fst (processACK rng now sq st c)) = account c"
proof (cases "find (match_wire sq st) (rng (inflight c))")
  case None
  then show ?thesis by (simp add: processACK_def)
next
  case (Some e)
  then obtain k p where e: "find (match_wire sq st) (rng (inflight c)) = Some (k, p)" by (cases e) auto
  from find_range_Some [OF assms(2) client_okD(1) [OF assms(1)] e]
  have "Suc (length (AList.delete k (inflight c))) = length (inflight c)"
    using client_okD(1) [OF assms(1)] by (intro length_delete_present)
  then have "of_nat (length (inflight c)) = (1 + of_nat (length (AList.delete k (inflight c))) :: u64)"
    by (metis of_nat_Suc)
  with e show ?thesis by (simp add: processACK_def account_def Let_def)
qed

lemma account_processNACK:
  assumes "client_ok c" "is_range rng"
  shows "account (processNACK rng now sq st c) = account c"
proof (cases "find (match_wire sq st) (rng (inflight c))")
  case (Some e)
  then obtain k p where e: "find (match_wire sq st) (rng (inflight c)) = Some (k, p)" by (cases e) auto
  from find_range_Some(2) [OF assms(2) client_okD(1) [OF assms(1)] e] have "k \<in> fst ` set (inflight c)"
    by force
  with e show ?thesis by (simp add: processNACK_def account_def log_write_def length_update_present)
qed (simp add: processNACK_def)

lemma account_ackLoop:
  "client_ok c \<Longrightarrow> is_range rng \<Longrightarrow> account (ackLoop_step rng now d c) = account c"
  by (simp add: ackLoop_step_def Let_def account_processACK account_processNACK split: option.splits)
     (simp add: account_def log_write_def)

lemma account_sack:
  "client_ok c \<Longrightarrow> (\<And>i. is_range (rngs i)) \<Longrightarrow> account (sack_loop rngs now i d st c) = account c"
  by (induction rngs now i d st c rule: sack_loop.induct) (simp_all add: account_processACK client_ok_processACK)

lemma account_frame [simp, frame_simps]:
  "account (log_write d c) = account c" "account (c\<lparr>fired := f\<rparr>) = account c"
  by (simp_all add: account_def log_write_def)

lemma account_ackLoopV3:
  "client_ok c \<Longrightarrow> (\<And>i. is_range (rngs i)) \<Longrightarrow> account (ackLoopV3_step rngs now d c) = account c"
  by (simp add: ackLoopV3_step_def handleConfigPayload_def Let_def account_processACK
      account_processNACK account_sack split: option.splits)

lemma account_transmit:
  assumes "client_ok c" "seqCounter c \<noteq> - 1"
  shows "account (fst (transmitWithFlags we now payload tr st fl c))
           = account c + of_nat (tracked_by (Send we now payload tr st fl))"
  using seq_fresh(2) [OF assms]
  by (simp add: transmitWithFlags_def tracked_by_def account_def Let_def log_write_def
      length_update_fresh split: option.splits)

lemma account_step:
  assumes "client_ok c" "event_ok ev" "is_send ev \<Longrightarrow> seqCounter c \<noteq> - 1"
  shows "account (client_step ev c) + of_nat (given_up_by ev c) = account c + of_nat (tracked_by ev)"
proof (cases ev)
  case (Send we now payload tr st fl)
  with assms show ?thesis
    using account_transmit [of c we now payload tr st fl]
    by (simp add: client_step_def given_up_by_def is_send_def)
next
  case (RetransmitTick rng now lnow)
  with assms have "is_range rng" by (simp add: event_ok_def)
  from tick_length [OF assms(1) this, of now lnow]
  have "of_nat (length (inflight c)) =
      (of_nat (length (inflight (runRetransmitTick rng now lnow c))) + of_nat (length (removed rng now c)) :: u64)"
    by (metis of_nat_add)
  then show ?thesis
    by (simp add: RetransmitTick client_step_def given_up_by_def tracked_by_def account_def
        runRetransmitTick_fields(5))
next
  case (Configure s)
  then show ?thesis
    by (cases s) (simp_all add: client_step_def given_up_by_def tracked_by_def account_def SetMaxInflight_def
        SetBaseRTO_def SetMaxRTO_def SetRetransmitBudget_def SetConfigHandler_def EnableAI_def Let_def)
next
  case (Receive rng now d)
  with assms show ?thesis
    by (simp add: client_step_def given_up_by_def tracked_by_def event_ok_def account_ackLoop)
next
  case (ReceiveV3 rngs now d)
  with assms show ?thesis
    by (simp add: client_step_def given_up_by_def tracked_by_def event_ok_def account_ackLoopV3)
qed (use assms in \<open>auto simp: client_step_def given_up_by_def tracked_by_def event_ok_def
      keepaliveLoop_tick_def congestionTunerLoop_tick_def account_def log_write_def Let_def
      case_prod_beta split: option.splits\<close>)

subsection \<open>The session interface\<close>

text \<open>What the accounting of a session rests on: each step keeps the client invariant while sequence
  numbers last, and balances what it tracks, acknowledges and gives up. The V2 session is
  interpreted below, the V3 session in its own theory.\<close>

locale tracked_session =
  fixes step :: "'ev \<Rightarrow> 's \<Rightarrow> 's" and core :: "'s \<Rightarrow> Client" and ok :: "'ev \<Rightarrow> bool"
    and sends :: "'ev \<Rightarrow> 's \<Rightarrow> nat" and tracks :: "'ev \<Rightarrow> 's \<Rightarrow> nat" and gives_up :: "'ev \<Rightarrow> 's \<Rightarrow> nat"
  assumes step_invariant: "client_ok (core s) \<Longrightarrow> ok ev \<Longrightarrow>
      unat (seqCounter (core s)) + sends ev s < 2 ^ 32 \<Longrightarrow> client_ok (core (step ev s))"
    and step_seq: "ok ev \<Longrightarrow> unat (seqCounter (core s)) + sends ev s < 2 ^ 32 \<Longrightarrow>
      unat (seqCounter (core (step ev s))) \<le> unat (seqCounter (core s)) + sends ev s"
    and step_account: "client_ok (core s) \<Longrightarrow> ok ev \<Longrightarrow>
      unat (seqCounter (core s)) + sends ev s < 2 ^ 32 \<Longrightarrow>
      account (core (step ev s)) + of_nat (gives_up ev s) = account (core s) + of_nat (tracks ev s)"
begin

lemma run_ok:
  assumes "client_ok (core s)" "\<forall>ev \<in> set evs. ok ev"
    "unat (seqCounter (core s)) + run_sum step sends evs s < 2 ^ 32"
  shows "client_ok (core (fold step evs s))"
  using assms
proof (induction evs arbitrary: s)
  case (Cons ev evs)
  then have le: "unat (seqCounter (core s)) + sends ev s < 2 ^ 32" by simp
  with Cons.prems have "unat (seqCounter (core (step ev s))) \<le> unat (seqCounter (core s)) + sends ev s"
    by (intro step_seq) simp_all
  with Cons.prems le show ?case by (auto intro!: Cons.IH step_invariant)
qed simp

lemma run_account:
  assumes "client_ok (core s)" "\<forall>ev \<in> set evs. ok ev"
    "unat (seqCounter (core s)) + run_sum step sends evs s < 2 ^ 32"
  shows "account (core (fold step evs s)) + of_nat (run_sum step gives_up evs s)
           = account (core s) + of_nat (run_sum step tracks evs s)"
  using assms
proof (induction evs arbitrary: s)
  case (Cons ev evs)
  then have le: "unat (seqCounter (core s)) + sends ev s < 2 ^ 32" by simp
  with Cons.prems have sq: "unat (seqCounter (core (step ev s))) \<le> unat (seqCounter (core s)) + sends ev s"
    by (intro step_seq) simp_all
  with Cons.prems le have IH: "account (core (fold step evs (step ev s)))
      + of_nat (run_sum step gives_up evs (step ev s))
      = account (core (step ev s)) + of_nat (run_sum step tracks evs (step ev s))"
    by (auto intro!: Cons.IH step_invariant)
  have "account (core (step ev s)) + of_nat (gives_up ev s) = account (core s) + of_nat (tracks ev s)"
    using Cons.prems le by (intro step_account) simp_all
  with IH show ?case by (simp add: algebra_simps)
qed simp

end

lemma seq_bound_neq_max: "unat (x :: u32) + 1 < 2 ^ 32 \<Longrightarrow> x \<noteq> - 1"
  by (auto simp: unsigned_minus_1_eq_mask mask_eq_exp_minus_1)

lemma seqCounter_sack: "seqCounter (sack_loop rngs now i d st c) = seqCounter c"
  by (induction rngs now i d st c rule: sack_loop.induct)
     (simp_all add: processACK_def Let_def split: option.splits)

lemma seqCounter_step:
  assumes "is_send ev \<Longrightarrow> seqCounter c \<noteq> - 1"
  shows "unat (seqCounter (client_step ev c)) \<le> unat (seqCounter c) + (if is_send ev then 1 else 0)"
proof (cases ev)
  case (Send we now payload tr st fl)
  with assms have "unat (seqCounter c + 1) = Suc (unat (seqCounter c))"
    by (simp add: is_send_def unat_plus_one)
  with Send show ?thesis
    by (auto simp: client_step_def is_send_def transmitWithFlags_def Let_def log_write_def split: option.splits)
next
  case (Receive rng now d)
  then show ?thesis
    by (simp add: client_step_def ackLoop_step_def processACK_def processNACK_def log_write_def Let_def
        split: option.splits)
next
  case (ReceiveV3 rngs now d)
  then show ?thesis
    by (simp add: client_step_def ackLoopV3_step_def handleConfigPayload_def processACK_def processNACK_def
        log_write_def Let_def seqCounter_sack split: option.splits)
next
  case (Configure s)
  then show ?thesis
    by (cases s) (simp_all add: client_step_def SetMaxInflight_def
        SetBaseRTO_def SetMaxRTO_def SetRetransmitBudget_def SetConfigHandler_def EnableAI_def Let_def)
qed (simp_all add: client_step_def runRetransmitTick_fields(7) keepaliveLoop_tick_def log_write_def
      congestionTunerLoop_tick_def case_prod_beta Let_def split: option.splits)

interpretation v2: tracked_session client_step "\<lambda>c. c" event_ok "\<lambda>ev _. if is_send ev then 1 else 0"
  "\<lambda>ev _. tracked_by ev" given_up_by
proof
  fix ev and c :: Client
  assume ok: "event_ok ev" and lt: "unat (seqCounter c) + (if is_send ev then 1 else 0) < 2 ^ 32"
  from lt have n: "is_send ev \<Longrightarrow> seqCounter c \<noteq> - 1" using seq_bound_neq_max by auto
  then show "unat (seqCounter (client_step ev c)) \<le> unat (seqCounter c) + (if is_send ev then 1 else 0)"
    by (rule seqCounter_step)
  assume "client_ok c"
  with ok n show "client_ok (client_step ev c)"
    "account (client_step ev c) + of_nat (given_up_by ev c) = account c + of_nat (tracked_by ev)"
    by (simp_all add: client_ok_step account_step)
qed

lemma run_sum_const: "run_sum step (\<lambda>ev _. f ev) evs s = sum_list (map f evs)"
  by (induction evs arbitrary: s) auto

lemma count_sends: "(\<Sum>ev\<leftarrow>evs. if is_send ev then 1 else 0) = length (filter is_send evs)"
  by (induction evs) auto

lemma client_ok_new: "NewClient env None None host tenant = Inr c \<Longrightarrow> client_ok c \<and> account c = 0 \<and> seqCounter c = 0"
  by (auto simp: NewClient_def zeroClient_def client_ok_def account_def Let_def)

subsection \<open>Lemmas: matching acknowledgements\<close>

lemma wire_seq_inj:
  fixes j k :: u32
  assumes "(ucast j :: u16) = ucast k" "unat j \<le> unat k" "unat k - unat j < 65536"
  shows "j = k"
proof -
  have "unat (ucast x :: u16) = unat x mod 65536" for x :: u32
    by (simp add: unsigned_ucast_eq take_bit_eq_mod)
  then have m: "unat j mod 65536 = unat k mod 65536" using assms(1) by metis
  then have "65536 dvd unat k - unat j" using assms(2) mod_eq_dvd_iff_nat [of "unat j" "unat k" 65536] by simp
  then have "unat k - unat j = 0" using assms(3) by (metis nat_dvd_not_less neq0_conv)
  with assms(2) show ?thesis by (simp add: word_unat_eq_iff)
qed

definition seq_window :: "Client \<Rightarrow> bool" where
  "seq_window c \<longleftrightarrow> (\<forall>j \<in> fst ` set (inflight c). \<forall>k \<in> fst ` set (inflight c).
     unat j \<le> unat k \<longrightarrow> unat k - unat j < 65536)"

lemma match_unique:
  assumes "client_ok c" "seq_window c" "e \<in> set (inflight c)" "e' \<in> set (inflight c)"
    "match_wire sq st e" "match_wire sq st e'"
  shows "e = e'"
proof -
  obtain j p k q where e: "e = (j, p)" "e' = (k, q)" by (cases e, cases e') auto
  have "(ucast j :: u16) = ucast k"
    using assms(3-6) e client_okD(2) [OF assms(1), of j p] client_okD(2) [OF assms(1), of k q]
    by (auto simp: entry_ok_def match_wire_def)
  moreover have "j \<in> fst ` set (inflight c)" "k \<in> fst ` set (inflight c)"
    using assms(3,4) e by force+
  moreover from this assms(2) have "unat j \<le> unat k \<Longrightarrow> unat k - unat j < 65536"
    "unat k \<le> unat j \<Longrightarrow> unat j - unat k < 65536"
    unfolding seq_window_def by blast+
  ultimately have "j = k"
    using wire_seq_inj [of j k] wire_seq_inj [of k j] linear [of "unat j" "unat k"] by metis
  with assms(1,3,4) e show ?thesis
    by (auto simp: client_ok_def gomap_ok_def dest: eq_key_imp_eq_value)
qed

lemma processACK_cases:
  assumes "client_ok c" "is_range rng"
  obtains (none) "\<forall>e \<in> set (inflight c). \<not> match_wire sq st e" "processACK rng now sq st c = (c, False)"
  | (one) k p where "(k, p) \<in> set (inflight c)" "match_wire sq st (k, p)"
      "find (match_wire sq st) (rng (inflight c)) = Some (k, p)"
      "inflight (fst (processACK rng now sq st c)) = AList.delete k (inflight c)"
      "acked (fst (processACK rng now sq st c)) = acked c + 1" "snd (processACK rng now sq st c)"
proof (cases "find (match_wire sq st) (rng (inflight c))")
  case None
  then show ?thesis
    using find_range_None [OF assms(2), of "match_wire sq st" "inflight c"]
    by (intro none) (simp_all add: processACK_def)
next
  case (Some e)
  then obtain k p where e: "find (match_wire sq st) (rng (inflight c)) = Some (k, p)" by (cases e) auto
  from find_range_Some [OF assms(2) client_okD(1) [OF assms(1)] e] e show ?thesis
    by (intro one [of k p]) (simp_all add: processACK_def Let_def)
qed

text \<open>A client with one guaranteed datagram in flight, for the witnesses.\<close>

definition sample_client :: Client where
  "sample_client = fst (transmitWithFlags None 0 [7] TierGuaranteed 0 0 (zeroClient []))"

lemma sample_client_ok: "client_ok sample_client"
  unfolding sample_client_def
  by (rule client_ok_transmit) (simp_all add: zeroClient_def client_ok_def)

lemma sample_client_inflight:
  "\<exists>d. inflight sample_client = [(1, \<lparr>pData = d, pSeq = 1, pStreamID = 0, pTier = 0, pSentAt = 0, pRetries = 0\<rparr>)]"
  "acked sample_client = 0" "maxRetransmitBudget sample_client = 0" "baseRTOMs sample_client = 0"
  "maxRTOMs sample_client = 0"
  by (simp_all add: sample_client_def transmitWithFlags_def Let_def zeroClient_def log_write_def)

subsection \<open>Properties\<close>

text \<open>Property C4. No reliable datagram is lost in the books. Over every interleaving of sends,
  received datagrams, retransmit ticks, keepalives, tuner ticks and settings of a new client, the
  reliable datagrams sent are exactly those acknowledged, given up after the last retry, or still
  in flight (fewer than 2^32 sends, so that no in-flight key is reused).\<close>

theorem session_accounting:
  assumes "NewClient env None None host tenant = Inr c0" "\<forall>ev \<in> set evs. event_ok ev"
    "length (filter is_send evs) < 2 ^ 32"
  shows "of_nat (tracked evs) = acked (run_client evs c0) + of_nat (given_up evs c0)
           + of_nat (length (inflight (run_client evs c0)))"
proof -
  from v2.run_account [of c0 evs] client_ok_new [OF assms(1)] assms(2,3)
  have "account (run_client evs c0) + of_nat (given_up evs c0) = of_nat (tracked evs)"
    by (simp add: count_sends run_client_def given_up_def tracked_def run_sum_const)
  then show ?thesis by (simp add: account_def algebra_simps)
qed

theorem session_accounting_witness:
  "\<exists>c0. NewClient (\<lambda>_. []) None None [] [] = Inr c0
     \<and> 1 = acked (run_client [Send None 0 [7] TierGuaranteed 0 0] c0)
         + of_nat (given_up [Send None 0 [7] TierGuaranteed 0 0] c0)
         + of_nat (length (inflight (run_client [Send None 0 [7] TierGuaranteed 0 0] c0)))"
proof -
  obtain c0 where c0: "NewClient (\<lambda>_. []) None None [] [] = Inr c0" by (simp add: NewClient_def Let_def)
  from session_accounting [OF c0, of "[Send None 0 [7] TierGuaranteed 0 0]"] c0 show ?thesis
    by (simp add: event_ok_def is_send_def tracked_def tracked_by_def)
qed

text \<open>Property C6. In every state of such a session the in-flight map has one entry per sequence
  number, every entry is a reliable datagram within the size limit, and the sequence and stream
  stored with it are the ones on the wire, so an acknowledgement can find it.\<close>

theorem session_invariant:
  assumes "NewClient env None None host tenant = Inr c0" "\<forall>ev \<in> set evs. event_ok ev"
    "length (filter is_send evs) < 2 ^ 32"
  shows "distinct (map fst (inflight (run_client evs c0)))
    \<and> (\<forall>(k, p) \<in> set (inflight (run_client evs c0)).
         pSeq p = ucast k \<and> pTier p \<noteq> TierBesteff \<and> wire_ids (pData p) = (pSeq p, pStreamID p)
         \<and> length (pData p) \<le> maxPayload)"
proof -
  from v2.run_ok [of c0 evs] client_ok_new [OF assms(1)] assms(2,3)
  have "client_ok (run_client evs c0)" by (simp add: count_sends run_client_def run_sum_const)
  then show ?thesis by (auto simp: client_ok_def gomap_ok_def entry_ok_def)
qed

theorem session_invariant_witness:
  "\<exists>c0. NewClient (\<lambda>_. []) None None [] [] = Inr c0
     \<and> distinct (map fst (inflight (run_client [Send None 0 [7] TierGuaranteed 0 0, KeepaliveTick] c0)))"
proof -
  obtain c0 where c0: "NewClient (\<lambda>_. []) None None [] [] = Inr c0" by (simp add: NewClient_def Let_def)
  from session_invariant [OF c0, of "[Send None 0 [7] TierGuaranteed 0 0, KeepaliveTick]"] c0 show ?thesis
    by (simp add: event_ok_def is_send_def)
qed

text \<open>Property C7. An acknowledgement settles exactly one datagram. While the keys in flight span
  fewer than 2^16 numbers, the 16-bit wire sequence identifies the datagram: the entry acknowledged
  does not depend on the order of the map, its entry is removed and counted once; an ACK that
  matches nothing (a duplicate) changes nothing.\<close>

theorem ack_settles_exactly_one:
  assumes "client_ok c" "is_range rng" "seq_window c"
  shows "(\<forall>e \<in> set (inflight c). \<not> match_wire sq st e) \<and> processACK rng now sq st c = (c, False)
    \<or> (\<exists>!e. e \<in> set (inflight c) \<and> match_wire sq st e)
      \<and> (\<forall>e \<in> set (inflight c). match_wire sq st e \<longrightarrow>
           inflight (fst (processACK rng now sq st c)) = AList.delete (fst e) (inflight c))
      \<and> acked (fst (processACK rng now sq st c)) = acked c + 1
      \<and> snd (processACK rng now sq st c)"
  using assms(1,2)
proof (cases rule: processACK_cases [where sq = sq and st = st and now = now])
  case (one k p)
  then have u: "e = (k, p)" if "e \<in> set (inflight c)" "match_wire sq st e" for e
    using match_unique [OF assms(1,3) that(1) _ that(2)] by blast
  with one have "\<exists>!e. e \<in> set (inflight c) \<and> match_wire sq st e" by blast
  moreover have "inflight (fst (processACK rng now sq st c)) = AList.delete (fst e) (inflight c)"
    if "e \<in> set (inflight c)" "match_wire sq st e" for e using u [OF that] one(4) by simp
  ultimately show ?thesis using one(5,6) by blast
qed blast

theorem ack_settles_exactly_one_witness:
  "acked (fst (processACK rev 9 1 0 sample_client)) = 1"
  using ack_settles_exactly_one [OF sample_client_ok, of rev 1 0 9] sample_client_inflight
  by (auto simp: match_wire_def seq_window_def)

text \<open>Property C8. A retransmit tick puts at most the budget back on the wire, only datagrams whose
  timeout has elapsed and that have retries left, each once; and it is fair: a datagram is only
  passed over when the whole budget went to datagrams sent no later than it.\<close>

theorem retransmit_budget_and_fairness:
  assumes "client_ok c" "is_range rng"
  shows "\<exists>ws. wlog (runRetransmitTick rng now lnow c) = wlog c @ map (pData \<circ> snd) ws
    \<and> int (length ws) \<le> effective_budget c \<and> distinct (map fst ws)
    \<and> (\<forall>w \<in> set ws. w \<in> set (inflight c) \<and> eligible (baseRTOMs c) (maxRTOMs c) now (snd w))
    \<and> (\<forall>e \<in> set (inflight c). eligible (baseRTOMs c) (maxRTOMs c) now (snd e) \<and> e \<notin> set ws \<longrightarrow>
         int (length ws) = effective_budget c \<and> (\<forall>w \<in> set ws. pSentAt (snd w) \<le> pSentAt (snd e)))"
  using set_retransmitted [OF assms(2), of now c] retransmitted_oldest_first [OF assms(2), of _ c now]
    distinct_retransmitted [OF assms(2) client_okD(1) [OF assms(1)], of now]
    length_retransmitted [of rng now c]
  by (intro exI [of _ "retransmitted rng now c"]) (auto simp: runRetransmitTick_fields(1) comp_def)

theorem retransmit_budget_and_fairness_witness:
  "\<exists>ws :: (u32, inflightPkt) gomap. wlog (runRetransmitTick rev 3000000000 5 sample_client) = wlog sample_client @ map (pData \<circ> snd) ws
     \<and> int (length ws) \<le> 64"
proof -
  have "effective_budget sample_client = 64" by (simp add: effective_budget_def sample_client_inflight)
  with retransmit_budget_and_fairness [OF sample_client_ok is_range_rev, of 3000000000 5]
  show ?thesis by metis
qed

subsection \<open>Giving up: bounded lifetime of an unacknowledged datagram\<close>

text \<open>Ticks at the times \<open>ts\<close> with nothing received in between.\<close>

definition silent_ticks :: "inflight_order \<Rightarrow> gotime list \<Rightarrow> Client \<Rightarrow> Client" where
  "silent_ticks rng ts c = fold (\<lambda>t. runRetransmitTick rng t t) ts c"

text \<open>The times are more than \<open>d\<close> apart, the first more than \<open>d\<close> after \<open>t0\<close>.\<close>

fun spaced :: "duration \<Rightarrow> gotime \<Rightarrow> gotime list \<Rightarrow> bool" where
  "spaced d t0 [] \<longleftrightarrow> True"
| "spaced d t0 (t # ts) \<longleftrightarrow> t0 + d < t \<and> spaced d t ts"

definition rto_config_ok :: "Client \<Rightarrow> bool" where
  "rto_config_ok c \<longleftrightarrow> 0 < baseRTOMs c \<and> baseRTOMs c \<le> maxRTOMs c
     \<and> maxRTOMs c * millisecond < 2 ^ 63 - 1 \<and> int (length (inflight c)) \<le> effective_budget c"

lemma tick_config_fields [frame_simps]:
  "baseRTOMs (runRetransmitTick rng now lnow c) = baseRTOMs c"
  "maxRTOMs (runRetransmitTick rng now lnow c) = maxRTOMs c"
  "effective_budget (runRetransmitTick rng now lnow c) = effective_budget c"
  by (simp_all add: runRetransmitTick_def classify_inflight_eq retransmit_loop_eq Let_def effective_budget_def)

lemma rto_config_ok_tick:
  assumes "client_ok c" "is_range rng" "rto_config_ok c"
  shows "rto_config_ok (runRetransmitTick rng now lnow c)"
  using assms(3) tick_length [OF assms(1,2), of now lnow] by (simp add: rto_config_ok_def tick_config_fields)

lemma rto_elapsed_after_max:
  assumes "rto_config_ok c" "pSentAt p + maxRTOMs c * millisecond < now"
  shows "rto_elapsed (baseRTOMs c) (maxRTOMs c) now p"
proof -
  let ?r = "computeRTO (baseRTOMs c) (maxRTOMs c) (pRetries p)"
  have "baseRTOMs c * millisecond \<le> ?r \<and> ?r \<le> maxRTOMs c * millisecond"
    using assms(1) by (intro computeRTO_range_aux) (simp_all add: rto_config_ok_def)
  with assms have "?r < time_sub now (pSentAt p)"
    by (subst time_sub_gt_iff) (auto simp: rto_config_ok_def)
  then show ?thesis by (simp add: rto_elapsed_def)
qed

lemma retransmitted_all:
  assumes "is_range rng" "rto_config_ok c" "e \<in> set (inflight c)"
    "eligible (baseRTOMs c) (maxRTOMs c) now (snd e)"
  shows "e \<in> set (retransmitted rng now c)"
proof -
  let ?f = "filter (\<lambda>e. eligible (baseRTOMs c) (maxRTOMs c) now (snd e)) (rng (inflight c))"
  have "length ?f \<le> length (inflight c)"
    using length_filter_le [of _ "rng (inflight c)"] by (simp add: is_rangeD(3) [OF assms(1)])
  also have "\<dots> \<le> nat (effective_budget c)" using assms(2) unfolding rto_config_ok_def by linarith
  finally have "retransmitted rng now c = sort_key (\<lambda>e. pSentAt (snd e)) ?f"
    unfolding retransmitted_def by simp
  with assms(3,4) show ?thesis by (simp add: is_rangeD(2) [OF assms(1)])
qed

lemma tick_retry_or_drop:
  assumes "client_ok c" "is_range rng" "rto_config_ok c" "map_of (inflight c) k = Some p"
    "pSentAt p + maxRTOMs c * millisecond < now"
  shows "map_of (inflight (runRetransmitTick rng now lnow c)) k =
    (if maxRetries p \<le> pRetries p then None else Some (retry_pkt now p))"
proof -
  have el: "rto_elapsed (baseRTOMs c) (maxRTOMs c) now p" by (rule rto_elapsed_after_max [OF assms(3,5)])
  have "(k, p) \<in> set (inflight c)" using assms(4) by (rule map_of_SomeD)
  with retransmitted_all [OF assms(2,3), of "(k, p)" now] el
  have "pRetries p < maxRetries p \<Longrightarrow> (k, p) \<in> set (retransmitted rng now c)"
    by (simp add: eligible_def)
  with el assms(4) show ?thesis
    by (simp add: tick_lookup [OF assms(2) client_okD(1) [OF assms(1)]] expired_def)
qed

lemma tick_keeps_absent:
  "client_ok c \<Longrightarrow> is_range rng \<Longrightarrow> map_of (inflight c) k = None \<Longrightarrow>
   map_of (inflight (runRetransmitTick rng now lnow c)) k = None"
  by (simp add: tick_lookup client_okD(1))

lemma silent_ticks_absent:
  "client_ok c \<Longrightarrow> is_range rng \<Longrightarrow> map_of (inflight c) k = None \<Longrightarrow>
   map_of (inflight (silent_ticks rng ts c)) k = None"
  by (induction ts arbitrary: c) (simp_all add: silent_ticks_def tick_keeps_absent client_ok_tick)

lemma silent_ticks_give_up:
  assumes "client_ok c" "is_range rng" "rto_config_ok c" "map_of (inflight c) k = Some p"
    "0 \<le> pRetries p" "spaced (maxRTOMs c * millisecond) (pSentAt p) ts"
    "nat (maxRetries p - pRetries p) < length ts"
  shows "map_of (inflight (silent_ticks rng ts c)) k = None"
  using assms
proof (induction ts arbitrary: c p)
  case (Cons t ts)
  let ?c = "runRetransmitTick rng t t c"
  have step: "map_of (inflight ?c) k = (if maxRetries p \<le> pRetries p then None else Some (retry_pkt t p))"
    using Cons.prems by (intro tick_retry_or_drop) simp_all
  have ok: "client_ok ?c" "rto_config_ok ?c" using Cons.prems by (simp_all add: client_ok_tick rto_config_ok_tick)
  have st: "silent_ticks rng (t # ts) c = silent_ticks rng ts ?c" by (simp add: silent_ticks_def)
  show ?case
  proof (cases "maxRetries p \<le> pRetries p")
    case True
    with step ok Cons.prems(2) show ?thesis by (simp add: st silent_ticks_absent)
  next
    case False
    then have "pRetries p < 10" by (simp add: maxRetries_def split: if_splits)
    with Cons.prems(5) have "pRetries (retry_pkt t p) = pRetries p + 1"
      by (simp add: retry_pkt_def in_i64_def)
    moreover have "maxRetries (retry_pkt t p) = maxRetries p" "pSentAt (retry_pkt t p) = t"
      by (simp_all add: maxRetries_def retry_pkt_def)
    ultimately show ?thesis
      using False Cons.prems ok step unfolding st
      by (intro Cons.IH [of ?c "retry_pkt t p"]) (auto simp: tick_config_fields)
  qed
qed simp



text \<open>A tick leaves every other datagram alone: it removes exactly the datagrams whose
  timeout elapsed after their last retry, counts them as dropped, restarts the timer of those it
  retransmitted and keeps the rest unchanged.\<close>

theorem tick_effect:
  assumes "client_ok c" "is_range rng"
  shows "map_of (inflight (runRetransmitTick rng now lnow c)) k =
      (case map_of (inflight c) k of
         None \<Rightarrow> None
       | Some p \<Rightarrow> if expired (baseRTOMs c) (maxRTOMs c) now p then None
                  else if (k, p) \<in> set (retransmitted rng now c) then Some (retry_pkt now p)
                  else Some p)
    \<and> dropped (runRetransmitTick rng now lnow c) = dropped c
        + of_nat (card {j. \<exists>p. map_of (inflight c) j = Some p \<and> expired (baseRTOMs c) (maxRTOMs c) now p})"
proof -
  note ok = client_okD(1) [OF assms(1)]
  have "distinct (removed rng now c)"
    using ok is_range_gomap_ok [OF assms(2)] by (simp add: removed_def gomap_ok_def distinct_map_filter)
  moreover have "{j. \<exists>p. map_of (inflight c) j = Some p \<and> expired (baseRTOMs c) (maxRTOMs c) now p}
      = set (removed rng now c)" by (auto simp: removed_iff [OF assms(2) ok])
  ultimately show ?thesis
    by (simp add: tick_lookup [OF assms(2) ok] runRetransmitTick_fields(4) distinct_card)
qed

theorem tick_effect_witness:
  "map_of (inflight (runRetransmitTick rev 1 1 sample_client)) 7 = None"
  using tick_effect [OF sample_client_ok is_range_rev, of 1 1 7] sample_client_inflight(1) by auto

text \<open>The congestion tuner keeps the window between its floor of four and the ceiling it
  started with, whatever is predicted, when the ceiling is at least four.\<close>

theorem tuner_window_bounds:
  assumes "4 \<le> cap"
  shows "4 \<le> tuner_target cap action \<and> tuner_target cap action \<le> cap"
proof -
  have "go_div cap n = cap div n" if "n \<in> {2, 4, 8}" for n
    using assms that by (intro go_div_nonneg) auto
  moreover have "cap div 2 \<le> cap" "cap div 4 \<le> cap" "cap div 8 \<le> cap" using assms by auto
  ultimately show ?thesis using assms by (auto simp: tuner_target_def Let_def)
qed

theorem tuner_window_bounds_witness: "tuner_target 64 ''reduce'' \<le> 64"
  using tuner_window_bounds [of 64 "''reduce''"] by simp

end
