(* ===== verification/Client_Send.thy ===== *)
theory Client_Send
  imports Client_V2
begin

section \<open>The V2 send path\<close>

text \<open>
  The operations of \<open>transport/agenticudp.go\<close> and \<open>transport/agenticudp_pipeline.go\<close> that a caller
  uses: signal sends with AI tier selection and congestion shaping, chunked bulk sends that wait for
  the in-flight window, protobuf sends and pipeline tasks.

  A caller's send interleaves with the client's background goroutines. The environment \<open>send_env\<close>
  holds what the outside does at each tick of a step counter: the result of a write, the clock, and
  the background steps (\<open>client_event\<close>s) that run while the caller sleeps in
  \<open>waitForInflightWindow\<close>. \<open>encoding/json\<close> and \<open>google.golang.org/protobuf\<close> are its marshalling
  functions; a value passed as \<open>interface{}\<close> is its JSON value. A call that never returns is \<open>None\<close>.
\<close>

record send_env =
  seWrite :: "nat \<Rightarrow> err option"
  seNow :: "nat \<Rightarrow> gotime"
  seBackground :: "nat \<Rightarrow> client_event list"
  seAI :: ai_env
  seMarshal :: "json \<Rightarrow> string + bytes"

record send_state =
  client :: Client
  tick :: nat
  randPos :: rpos

type_synonym send_result = "(send_state \<times> err option) option"

definition not_connected :: err where
  "not_connected = Err ''agenticudp: not connected''"

subsection \<open>Waiting for the window\<close>

text \<open>\<open>ctxErr\<close> is the error of the context once it is done, \<open>deadline\<close> is \<open>None\<close> for the zero time.\<close>

partial_function (option) wait_loop ::
  "send_env \<Rightarrow> (nat \<Rightarrow> err option) \<Rightarrow> int \<Rightarrow> gotime option \<Rightarrow> send_state \<Rightarrow> (send_state \<times> err option) option" where
  "wait_loop e ctxErr cap deadline s =
     (if int (length (inflight (client s))) < cap then Some (s, None)
      else if deadline \<noteq> None \<and> the deadline < seNow e (tick s)
      then Some (s, Some (Err (''agenticudp: inflight window stalled (>='' @ format_int cap
                             @ '' unacked) past deadline'')))
      else if ctxErr (tick s) \<noteq> None then Some (s, ctxErr (tick s))
      else wait_loop e ctxErr cap deadline
             (s\<lparr>client := run_client (seBackground e (tick s)) (client s), tick := Suc (tick s)\<rparr>))"

definition waitForInflightWindow ::
  "send_env \<Rightarrow> (nat \<Rightarrow> err option) \<Rightarrow> gotime option \<Rightarrow> send_state \<Rightarrow> send_result" where
  "waitForInflightWindow e ctxErr deadline s =
     (let cap = maxInflight (client s)
      in if cap \<le> 0 then Some (s, None) else wait_loop e ctxErr cap deadline s)"

definition background_ctx :: "nat \<Rightarrow> err option" where
  "background_ctx n = None"

subsection \<open>Signals\<close>

definition transmit_step ::
  "send_env \<Rightarrow> bytes \<Rightarrow> tier \<Rightarrow> u16 \<Rightarrow> u8 \<Rightarrow> send_state \<Rightarrow> send_state \<times> err option" where
  "transmit_step e payload tr streamID flags s =
     (let n = tick s;
          (c, er) = transmitWithFlags (seWrite e n) (seNow e n) payload tr streamID flags (client s)
      in (s\<lparr>client := c, tick := Suc n\<rparr>, er))"

definition envelope_json :: "string \<Rightarrow> string \<Rightarrow> json \<Rightarrow> json" where
  "envelope_json signalType tenant data =
     JObj [(''signal_type'', JStr signalType), (''tenant_id'', JStr tenant), (''data'', data)]"

text \<open>AI tier selection: extract the context and classify, when both modules are attached.\<close>

definition select_tier ::
  "send_env \<Rightarrow> string \<Rightarrow> tier \<Rightarrow> send_state \<Rightarrow> (send_state \<times> tier) option" where
  "select_tier e signalType defaultTier s =
     (case (aiClassifier (client s), featureExtractor (client s)) of
        (Some cl, Some fe) \<Rightarrow>
          let n = tick s;
              (fe, ctx) = Extract (seNow e n) signalType 0 (real_of_int (lastRTTMs (client s)))
                            (lossRate (client s)) fe
          in do { (cl, classification, rp) \<leftarrow>
                    Classify (seAI e) (seNow e (n + 1)) (seNow e (n + 2)) ctx (randPos s) cl;
                  Some (s\<lparr>client := (client s)\<lparr>aiClassifier := Some cl, featureExtractor := Some fe\<rparr>,
                          tick := n + 3, randPos := rp\<rparr>, aiTier classification) }
      | _ \<Rightarrow> Some (s, defaultTier))"

text \<open>Congestion shaping: \<open>True\<close> when the signal is shed. Pacing only sleeps.\<close>

definition shape_traffic :: "send_env \<Rightarrow> tier \<Rightarrow> send_state \<Rightarrow> send_state \<times> bool" where
  "shape_traffic e tr s =
     (case congestionPredictor (client s) of
        None \<Rightarrow> (s, False)
      | Some cp \<Rightarrow>
          let (cp, shaping) = RecommendShaping (seNow e (tick s)) cp;
              c = (client s)\<lparr>congestionPredictor := Some cp\<rparr>
          in if DeferBestEffort shaping \<and> tr = TierBesteff
             then (s\<lparr>client := c\<lparr>dropped := dropped c + 1\<rparr>, tick := Suc (tick s)\<rparr>, True)
             else (s\<lparr>client := c, tick := Suc (tick s)\<rparr>, False))"

definition sendSignal :: "send_env \<Rightarrow> string \<Rightarrow> tier \<Rightarrow> json \<Rightarrow> send_state \<Rightarrow> send_result" where
  "sendSignal e signalType defaultTier data s =
     (if \<not> established (client s) then Some (s, Some not_connected)
      else do {
        (s, tr) \<leftarrow> select_tier e signalType defaultTier s;
        let (s, shed) = shape_traffic e tr s;
        if shed then Some (s, None)
        else (case seMarshal e (envelope_json signalType (tenantID (client s)) data) of
                Inl er \<Rightarrow> Some (s, Some (Err (''agenticudp: marshal '' @ signalType @ '': '' @ er)))
              | Inr payload \<Rightarrow> Some (transmit_step e payload tr 0 0 s)) })"

definition SendMetrics where "SendMetrics e data s = sendSignal e ''metrics'' TierBesteff data s"
definition SendTraces where "SendTraces e data s = sendSignal e ''traces'' TierGuaranteed data s"
definition SendLogs where "SendLogs e data s = sendSignal e ''logs'' TierReliable data s"
definition SendEvents where "SendEvents e data s = sendSignal e ''logs'' TierGuaranteed data s"
definition SendFingerprint where
  "SendFingerprint e data s = sendSignal e ''fingerprint'' TierGuaranteed data s"

definition SendRaw :: "send_env \<Rightarrow> bytes \<Rightarrow> tier \<Rightarrow> send_state \<Rightarrow> send_state \<times> err option" where
  "SendRaw e payload tr s =
     (if \<not> established (client s) then (s, Some not_connected) else transmit_step e payload tr 0 0 s)"

subsection \<open>Chunked bulk sends\<close>

datatype pass_result = PassDone | PassOversize | PassAbort err

text \<open>One pass of the inner loop over the remaining records with chunk size \<open>n\<close>. The outer loop
  only starts a pass with \<open>n > 0\<close>.\<close>

function send_chunks ::
  "send_env \<Rightarrow> string \<Rightarrow> tier \<Rightarrow> gotime option \<Rightarrow> nat \<Rightarrow> json list \<Rightarrow> send_state
     \<Rightarrow> (send_state \<times> pass_result) option" where
  "send_chunks e st tr deadline n arr s =
     (if arr = [] \<or> n = 0 then Some (s, PassDone)
      else do {
        (s, werr) \<leftarrow> waitForInflightWindow e background_ctx deadline s;
        case werr of
          Some er \<Rightarrow> Some (s, PassAbort er)
        | None \<Rightarrow> do {
            (s, cerr) \<leftarrow> sendSignal e st tr (JArr (take n arr)) s;
            case cerr of
              None \<Rightarrow> send_chunks e st tr deadline n (drop n arr) s
            | Some er \<Rightarrow> (if isOversizeDatagramErr cerr then Some (s, PassOversize)
                         else Some (s, PassAbort er)) } })"
  by pat_completeness auto
termination
  by (relation "measure (\<lambda>(e, st, tr, dl, n, arr, s). length arr)") auto

declare send_chunks.simps [simp del]

text \<open>The last resort: one record at a time.\<close>

fun send_singly ::
  "send_env \<Rightarrow> string \<Rightarrow> tier \<Rightarrow> gotime option \<Rightarrow> json list \<Rightarrow> send_state \<Rightarrow> send_result" where
  "send_singly e st tr deadline [] s = Some (s, None)"
| "send_singly e st tr deadline (item # items) s =
     do { (s, werr) \<leftarrow> waitForInflightWindow e background_ctx deadline s;
          case werr of
            Some er \<Rightarrow> Some (s, Some er)
          | None \<Rightarrow> do {
              (s, cerr) \<leftarrow> sendSignal e st tr (JArr [item]) s;
              case cerr of Some er \<Rightarrow> Some (s, Some er)
              | None \<Rightarrow> send_singly e st tr deadline items s } }"

function chunk_passes ::
  "send_env \<Rightarrow> string \<Rightarrow> tier \<Rightarrow> gotime option \<Rightarrow> json list \<Rightarrow> nat \<Rightarrow> send_state \<Rightarrow> send_result" where
  "chunk_passes e st tr deadline arr chunkSize s =
     (if chunkSize > 0 then
        do { (s, r) \<leftarrow> send_chunks e st tr deadline chunkSize arr s;
             case r of
               PassDone \<Rightarrow> Some (s, None)
             | PassAbort er \<Rightarrow> Some (s, Some er)
             | PassOversize \<Rightarrow> chunk_passes e st tr deadline arr (chunkSize div 2) s }
      else send_singly e st tr deadline arr s)"
  by pat_completeness auto
termination
  by (relation "measure (\<lambda>(e, st, tr, dl, arr, n, s). n)") auto

declare chunk_passes.simps [simp del]

definition sendChunkedSignal ::
  "send_env \<Rightarrow> string \<Rightarrow> tier \<Rightarrow> json \<Rightarrow> nat \<Rightarrow> send_state \<Rightarrow> send_result" where
  "sendChunkedSignal e st tr data chunkSize s =
     do { (s, er) \<leftarrow> sendSignal e st tr data s;
          if er = None then Some (s, None)
          else if \<not> isOversizeDatagramErr er then Some (s, er)
          else (case seMarshal e data of
                  Inl _ \<Rightarrow> Some (s, er)
                | Inr _ \<Rightarrow>
                    (case data of
                       JArr (x # xs) \<Rightarrow>
                         chunk_passes e st tr (Some (seNow e (tick s) + 60 * second)) (x # xs) chunkSize
                           (s\<lparr>tick := Suc (tick s)\<rparr>)
                     | _ \<Rightarrow> Some (s, er))) }"

text \<open>The first error of a sequence of sends, all of which are tried.\<close>

fun send_all :: "(send_state \<Rightarrow> send_result) list \<Rightarrow> err option \<Rightarrow> send_state \<Rightarrow> send_result" where
  "send_all [] firstErr s = Some (s, firstErr)"
| "send_all (f # fs) firstErr s =
     do { (s, er) \<leftarrow> f s;
          send_all fs (if er \<noteq> None \<and> firstErr = None then er else firstErr) s }"

text \<open>\<open>None\<close> stands for a nil argument.\<close>

definition SendCycle ::
  "send_env \<Rightarrow> json option \<Rightarrow> json option \<Rightarrow> json option \<Rightarrow> send_state \<Rightarrow> send_result" where
  "SendCycle e metrics traces logs s =
     (if \<not> established (client s) then Some (s, Some not_connected)
      else send_all
        ((case metrics of None \<Rightarrow> [] | Some d \<Rightarrow> [sendChunkedSignal e ''metrics'' TierBesteff d 30])
         @ (case logs of None \<Rightarrow> [] | Some d \<Rightarrow> [sendChunkedSignal e ''logs'' TierReliable d 10])
         @ (case traces of None \<Rightarrow> [] | Some d \<Rightarrow> [sendChunkedSignal e ''traces'' TierGuaranteed d 15]))
        None s)"

subsection \<open>Protobuf sends\<close>

text \<open>The protobuf types come from generated code: \<open>'env\<close> is the envelope, \<open>pm\<close> is \<open>proto.Marshal\<close>.\<close>

definition sendProtoEnvelope ::
  "send_env \<Rightarrow> ('env \<Rightarrow> string + bytes) \<Rightarrow> 'env \<Rightarrow> tier \<Rightarrow> send_state \<Rightarrow> send_result" where
  "sendProtoEnvelope e pm env tr s =
     (if \<not> established (client s) then Some (s, Some not_connected)
      else case pm env of
             Inl er \<Rightarrow> Some (s, Some (Err (''agenticudp: proto marshal: '' @ er)))
           | Inr payload \<Rightarrow> Some (transmit_step e payload tr 0 flagProtobuf s))"

datatype ('m, 't, 'l, 'f) spp_payload =
  PMetrics "'m list" | PTraces "'t list" | PLogs "'l list" | PFingerprint 'f

record ('m, 't, 'l, 'f) Envelope =
  envTenant :: string
  envPayload :: "('m, 't, 'l, 'f) spp_payload"

definition SendFingerprintProto ::
  "send_env \<Rightarrow> (('m, 't, 'l, 'f) Envelope \<Rightarrow> string + bytes) \<Rightarrow> 'f \<Rightarrow> send_state \<Rightarrow> send_result" where
  "SendFingerprintProto e pm fp s =
     sendProtoEnvelope e pm \<lparr>envTenant = tenantID (client s), envPayload = PFingerprint fp\<rparr>
       TierGuaranteed s"

definition SendCycleProto ::
  "send_env \<Rightarrow> (('m, 't, 'l, 'f) Envelope \<Rightarrow> string + bytes) \<Rightarrow> 'm list \<Rightarrow> 't list \<Rightarrow> 'l list
     \<Rightarrow> send_state \<Rightarrow> send_result" where
  "SendCycleProto e pm metrics traces logs s =
     (let tenant = tenantID (client s);
          envelope = (\<lambda>p. \<lparr>envTenant = tenant, envPayload = p\<rparr>)
      in if \<not> established (client s) then Some (s, Some not_connected)
         else send_all
           ((if metrics \<noteq> [] then [sendProtoEnvelope e pm (envelope (PMetrics metrics)) TierBesteff] else [])
            @ (if logs \<noteq> [] then [sendProtoEnvelope e pm (envelope (PLogs logs)) TierReliable] else [])
            @ (if traces \<noteq> [] then [sendProtoEnvelope e pm (envelope (PTraces traces)) TierGuaranteed] else []))
           None s)"

subsection \<open>Pipeline tasks\<close>

record PipelineTask =
  TaskID :: string
  TaskType :: string
  Params :: bytes
  StreamID :: u16
  Priority :: int
  DeadlineMs :: int

definition SendOnStream ::
  "send_env \<Rightarrow> u16 \<Rightarrow> string \<Rightarrow> tier \<Rightarrow> json \<Rightarrow> send_state \<Rightarrow> send_state \<times> err option" where
  "SendOnStream e streamID signalType tr data s =
     (if \<not> established (client s) then (s, Some not_connected)
      else case seMarshal e (envelope_json signalType (tenantID (client s)) data) of
             Inl er \<Rightarrow> (s, Some (Err (''agenticudp: marshal '' @ signalType @ '': '' @ er)))
           | Inr payload \<Rightarrow> transmit_step e payload tr streamID 0 s)"

definition SendTaskResult :: "send_env \<Rightarrow> PipelineTask \<Rightarrow> json \<Rightarrow> send_state \<Rightarrow> send_state \<times> err option" where
  "SendTaskResult e task result s =
     SendOnStream e (StreamID task) ''task_result'' TierGuaranteed
       (JObj [(''task_id'', JStr (TaskID task)), (''task_type'', JStr (TaskType task)), (''result'', result)]) s"

definition SetPipelineTaskHandler :: "Client \<Rightarrow> Client" where
  "SetPipelineTaskHandler c = SetConfigHandler (Some PipelineHandler) c"

text \<open>The deadline of a task has passed at time \<open>now\<close>.\<close>

definition task_expired :: "gotime \<Rightarrow> PipelineTask \<Rightarrow> bool" where
  "task_expired now task \<longleftrightarrow> DeadlineMs task > 0 \<and> DeadlineMs task * millisecond < now"

text \<open>The callback that \<open>SetPipelineTaskHandler\<close> registers: the task handed on, if any.\<close>

definition pipeline_dispatch ::
  "(bytes \<Rightarrow> PipelineTask option) \<Rightarrow> gotime \<Rightarrow> bytes \<Rightarrow> PipelineTask option" where
  "pipeline_dispatch unmarshal now raw =
     (case unmarshal raw of
        None \<Rightarrow> None
      | Some task \<Rightarrow> if TaskID task = [] then None
                    else if task_expired now task then None else Some task)"

text \<open>\<open>fmtTime\<close> is the textual form of a time, \<open>ctxErr\<close> the state of the context derived from the
  caller's and the deadline.\<close>

definition SendTaskResultWithContext ::
  "(gotime \<Rightarrow> string) \<Rightarrow> send_env \<Rightarrow> string option \<Rightarrow> PipelineTask \<Rightarrow> json \<Rightarrow> send_state \<Rightarrow> send_state \<times> err option" where
  "SendTaskResultWithContext fmtTime e ctxErr task result s =
     (let now = seNow e (tick s); s' = s\<lparr>tick := Suc (tick s)\<rparr>
      in if task_expired now task
         then (s', Some (Err (''agenticudp: task '' @ TaskID task @ '' deadline expired at ''
                             @ fmtTime (DeadlineMs task * millisecond))))
         else case ctxErr of
                Some er \<Rightarrow> (s', Some (Err (''agenticudp: send task result cancelled: '' @ er)))
              | None \<Rightarrow> SendTaskResult e task result s')"

subsection \<open>Lemmas: what a step of a session preserves\<close>

text \<open>No module that may change the tier or shed the signal is attached.\<close>

definition plain :: "Client \<Rightarrow> bool" where
  "plain c \<longleftrightarrow> aiClassifier c = None \<and> congestionPredictor c = None"

text \<open>The log grows, the tenant stays, and a plain client stays plain.\<close>

definition extends :: "Client \<Rightarrow> Client \<Rightarrow> bool" where
  "extends c c' \<longleftrightarrow> set (wlog c) \<subseteq> set (wlog c') \<and> tenantID c' = tenantID c \<and> (plain c \<longrightarrow> plain c')
     \<and> (established c \<longrightarrow> established c')"

lemma extends_refl [simp]: "extends c c" and
  extends_trans: "extends a b \<Longrightarrow> extends b c \<Longrightarrow> extends a c"
  by (auto simp: extends_def)

definition attaches_ai :: "client_event \<Rightarrow> bool" where
  "attaches_ai ev = (case ev of Configure (AI cl fe cp) \<Rightarrow> True | _ \<Rightarrow> False)"

definition quiet_env :: "send_env \<Rightarrow> bool" where
  "quiet_env e \<longleftrightarrow> (\<forall>n. \<forall>ev \<in> set (seBackground e n). \<not> attaches_ai ev)"

lemma extends_processACK: "extends c (fst (processACK rng now sq st c))"
  by (auto simp: processACK_def extends_def plain_def Let_def split: option.splits)

lemma extends_processNACK: "extends c (processNACK rng now sq st c)"
  by (auto simp: processNACK_def extends_def plain_def log_write_def split: option.splits)

lemma extends_tick: "extends c (runRetransmitTick rng now lnow c)"
  by (auto simp: extends_def plain_def runRetransmitTick_fields)
     (auto simp: runRetransmitTick_def classify_inflight_eq retransmit_loop_eq Let_def)

lemma extends_transmit: "extends c (fst (transmitWithFlags we now payload tr st fl c))"
  by (auto simp: transmitWithFlags_def extends_def plain_def log_write_def Let_def split: option.splits)

lemma extends_setting: "\<not> attaches_ai (Configure s) \<Longrightarrow> extends c (apply_setting s c)"
  by (cases s) (auto simp: attaches_ai_def extends_def plain_def SetMaxInflight_def SetBaseRTO_def
      SetMaxRTO_def SetRetransmitBudget_def SetConfigHandler_def Let_def)

lemma extends_log [simp]: "extends c (log_write d c)" "extends c (log_write d c\<lparr>fired := f\<rparr>)"
  by (auto simp: extends_def plain_def log_write_def)

lemma extends_ackLoop: "extends c (ackLoop_step rng now d c)"
  by (simp add: ackLoop_step_def Let_def extends_processACK extends_processNACK split: option.splits)

lemma extends_sack: "extends c (sack_loop rngs now i d st c)"
  by (induction rngs now i d st c rule: sack_loop.induct) (auto intro: extends_trans extends_processACK)

lemma extends_ackLoopV3: "extends c (ackLoopV3_step rngs now d c)"
  by (simp add: ackLoopV3_step_def handleConfigPayload_def Let_def extends_processACK
      extends_processNACK extends_sack split: option.splits)

lemma extends_tuner: "extends c (congestionTunerLoop_tick cap now c)"
  by (auto simp: congestionTunerLoop_tick_def case_prod_beta Let_def extends_def plain_def split: option.splits)

lemma extends_step: "\<not> attaches_ai ev \<Longrightarrow> extends c (client_step ev c)"
  by (cases ev) (simp_all add: client_step_def extends_transmit extends_tick extends_setting
      keepaliveLoop_tick_def extends_ackLoop extends_ackLoopV3 extends_tuner)

lemma extends_run: "\<forall>ev \<in> set evs. \<not> attaches_ai ev \<Longrightarrow> extends c (run_client evs c)"
  unfolding run_client_def
  by (induction evs arbitrary: c) (auto intro: extends_trans extends_step)

lemma wait_loop_extends:
  assumes "wait_loop e ctx cap dl s = Some (s', r)" "quiet_env e"
  shows "extends (client s) (client s') \<and> (r = None \<longrightarrow> int (length (inflight (client s'))) < cap)"
proof -
  have "quiet_env e \<longrightarrow> extends (client s) (client (fst y))
      \<and> (snd y = None \<longrightarrow> int (length (inflight (client (fst y)))) < cap)"
    if "wait_loop e ctx cap dl s = Some y" for y
  proof (rule wait_loop.raw_induct [where P = "\<lambda>e ctx cap dl s y. quiet_env e \<longrightarrow>
        extends (client s) (client (fst y))
        \<and> (snd y = None \<longrightarrow> int (length (inflight (client (fst y)))) < cap)", OF _ that], goal_cases)
    case (1 w e ctx cap dl s y)
    let ?s = "s\<lparr>client := run_client (seBackground e (tick s)) (client s), tick := Suc (tick s)\<rparr>"
    have "extends (client s) (client ?s)" if "quiet_env e"
      using that by (auto simp: quiet_env_def intro!: extends_run)
    with 1(1) [of e ctx cap dl ?s y] 1(2) show ?case
      by (auto split: if_splits intro: extends_trans)
  qed
  from this [OF assms(1)] assms(2) show ?thesis by simp
qed

lemma waitForInflightWindow_extends:
  assumes "waitForInflightWindow e ctx dl s = Some (s', r)" "quiet_env e"
  shows "extends (client s) (client s')"
  using assms wait_loop_extends [of e ctx _ dl s s' r]
  by (auto simp: waitForInflightWindow_def Let_def split: if_splits)

text \<open>The wait ends once the clock has passed the deadline.\<close>

lemma wait_loop_returns:
  "dl < seNow e (tick s + k) \<Longrightarrow> \<exists>y. wait_loop e ctx cap (Some dl) s = Some y"
proof (induction k arbitrary: s)
  case 0
  then show ?case by (subst wait_loop.simps) simp
next
  case (Suc k)
  let ?s = "s\<lparr>client := run_client (seBackground e (tick s)) (client s), tick := Suc (tick s)\<rparr>"
  from Suc.IH [of ?s] Suc.prems have "\<exists>y. wait_loop e ctx cap (Some dl) ?s = Some y" by simp
  then show ?case by (subst wait_loop.simps) auto
qed

subsection \<open>Lemmas: complete delivery of a chunked send\<close>

definition datagram_sent :: "send_env \<Rightarrow> string \<Rightarrow> tier \<Rightarrow> json \<Rightarrow> Client \<Rightarrow> bool" where
  "datagram_sent e st tr data c \<longleftrightarrow>
     (\<exists>payload sq. seMarshal e (envelope_json st (tenantID c) data) = Inr payload
        \<and> buildPacket pktData tr 0 sq 0 (fnv1a payload) payload \<in> set (wlog c))"

lemma datagram_sent_extends: "datagram_sent e st tr d c \<Longrightarrow> extends c c' \<Longrightarrow> datagram_sent e st tr d c'"
  by (auto simp: datagram_sent_def extends_def)

lemma transmit_step_sent:
  assumes "transmit_step e payload tr 0 0 s = (s', None)"
  shows "\<exists>sq. buildPacket pktData tr 0 sq 0 (fnv1a payload) payload \<in> set (wlog (client s'))"
  using assms
  by (auto simp: transmit_step_def transmitWithFlags_def Let_def log_write_def
      split: option.splits if_splits)

lemma transmit_step_extends: "transmit_step e payload tr st fl s = (s', r) \<Longrightarrow> extends (client s) (client s')"
  using extends_transmit [of "client s" "seWrite e (tick s)" "seNow e (tick s)" payload tr st fl]
  by (auto simp: transmit_step_def Let_def case_prod_beta)

lemma sendSignal_plain:
  assumes "sendSignal e st tr data s = Some (s', r)" "plain (client s)"
  shows "extends (client s) (client s') \<and> (r = None \<longrightarrow> datagram_sent e st tr data (client s'))"
proof (cases "established (client s)")
  case True
  have sel: "select_tier e st tr s = Some (s, tr)"
    using assms(2) by (simp add: select_tier_def plain_def split: option.splits)
  have shp: "shape_traffic e tr s = (s, False)"
    using assms(2) by (simp add: shape_traffic_def plain_def)
  show ?thesis
  proof (cases "seMarshal e (envelope_json st (tenantID (client s)) data)")
    case (Inr payload)
    with assms(1) True sel shp have t: "transmit_step e payload tr 0 0 s = (s', r)"
      by (simp add: sendSignal_def)
    from transmit_step_extends [OF t] transmit_step_sent [of e payload tr s s'] t Inr show ?thesis
      by (auto simp: datagram_sent_def extends_def)
  qed (use assms(1) True sel shp in \<open>auto simp: sendSignal_def\<close>)
qed (use assms(1) in \<open>auto simp: sendSignal_def\<close>)

lemma extends_plain: "extends c c' \<Longrightarrow> plain c \<Longrightarrow> plain c'"
  by (simp add: extends_def)

lemma send_chunks_complete:
  assumes "send_chunks e st tr dl n arr s = Some (s', r)" "plain (client s)" "quiet_env e" "0 < n"
  shows "extends (client s) (client s') \<and>
    (r = PassDone \<longrightarrow> (\<exists>chunks. concat chunks = arr \<and>
       (\<forall>ch \<in> set chunks. ch \<noteq> [] \<and> length ch \<le> n \<and> datagram_sent e st tr (JArr ch) (client s'))))"
  using assms
proof (induction "length arr" arbitrary: arr s rule: less_induct)
  case less
  show ?case
  proof (cases "arr = []")
    case True
    with less.prems show ?thesis by (subst (asm) send_chunks.simps) (auto intro: exI [of _ "[]"])
  next
    case False
    with less.prems obtain s1 w where w: "waitForInflightWindow e background_ctx dl s = Some (s1, w)"
      by (subst (asm) send_chunks.simps) (auto simp: bind_eq_Some_conv)
    note e1 = waitForInflightWindow_extends [OF w less.prems(3)]
    show ?thesis
    proof (cases w)
      case (Some er)
      with w e1 False less.prems show ?thesis by (subst (asm) send_chunks.simps) auto
    next
      case None
      with w False less.prems obtain s2 c2 where
        sg: "sendSignal e st tr (JArr (take n arr)) s1 = Some (s2, c2)"
        by (subst (asm) send_chunks.simps) (auto simp: bind_eq_Some_conv)
      from sendSignal_plain [OF sg extends_plain [OF e1 less.prems(2)]] e1
      have e2: "extends (client s) (client s2)"
        and snt: "c2 = None \<Longrightarrow> datagram_sent e st tr (JArr (take n arr)) (client s2)"
        by (auto intro: extends_trans)
      show ?thesis
      proof (cases c2)
        case (Some er)
        with None w sg e2 False less.prems show ?thesis
          by (subst (asm) send_chunks.simps) (auto split: if_splits)
      next
        case c2: None
        have rest: "send_chunks e st tr dl n (drop n arr) s2 = Some (s', r)"
          using None c2 w sg False less.prems by (subst (asm) send_chunks.simps) auto
        have "length (drop n arr) < length arr" using False less.prems(4) by simp
        from less.hyps [OF this rest extends_plain [OF e2 less.prems(2)] less.prems(3,4)]
        have IH: "extends (client s2) (client s')" "r = PassDone \<Longrightarrow> \<exists>chunks. concat chunks = drop n arr \<and>
            (\<forall>ch \<in> set chunks. ch \<noteq> [] \<and> length ch \<le> n \<and> datagram_sent e st tr (JArr ch) (client s'))"
          by auto
        have "datagram_sent e st tr (JArr (take n arr)) (client s')"
          using datagram_sent_extends [OF snt [OF c2] IH(1)] .
        with IH e2 False less.prems(4) show ?thesis
          by (auto intro: extends_trans) (metis append_take_drop_id concat.simps(2) insert_iff length_take
              list.simps(15) min.cobounded2 take_eq_Nil neq0_conv)
      qed
    qed
  qed
qed

definition all_sent :: "send_env \<Rightarrow> string \<Rightarrow> tier \<Rightarrow> json list \<Rightarrow> Client \<Rightarrow> bool" where
  "all_sent e st tr arr c \<longleftrightarrow>
     (\<exists>chunks. concat chunks = arr \<and> (\<forall>ch \<in> set chunks. ch \<noteq> [] \<and> datagram_sent e st tr (JArr ch) c))"

lemma all_sent_Cons:
  "datagram_sent e st tr (JArr [x]) c \<Longrightarrow> all_sent e st tr xs c \<Longrightarrow> all_sent e st tr (x # xs) c"
  unfolding all_sent_def by (elim exE, rule exI [where x = "[x] # chunks" for chunks]) auto

lemma send_singly_complete:
  assumes "send_singly e st tr dl arr s = Some (s', None)" "plain (client s)" "quiet_env e"
  shows "extends (client s) (client s') \<and> all_sent e st tr arr (client s')"
  using assms
proof (induction arr arbitrary: s)
  case Nil
  then show ?case by (auto simp: all_sent_def intro: exI [of _ "[]"])
next
  case (Cons x xs)
  from Cons.prems(1) obtain s1 s2 where w: "waitForInflightWindow e background_ctx dl s = Some (s1, None)"
    and sg: "sendSignal e st tr (JArr [x]) s1 = Some (s2, None)"
    and rest: "send_singly e st tr dl xs s2 = Some (s', None)"
    by (auto simp: bind_eq_Some_conv split: option.splits)
  note e1 = waitForInflightWindow_extends [OF w Cons.prems(3)]
  note p1 = extends_plain [OF e1 Cons.prems(2)]
  from sendSignal_plain [OF sg p1] have e2: "extends (client s1) (client s2)"
    and snt: "datagram_sent e st tr (JArr [x]) (client s2)" by auto
  from Cons.IH [OF rest extends_plain [OF e2 p1] Cons.prems(3)]
  have IH: "extends (client s2) (client s')" "all_sent e st tr xs (client s')" by auto
  from datagram_sent_extends [OF snt IH(1)] IH(2) have "all_sent e st tr (x # xs) (client s')"
    by (rule all_sent_Cons)
  with e1 e2 IH(1) show ?case by (blast intro: extends_trans)
qed

lemma chunk_passes_complete:
  assumes "chunk_passes e st tr dl arr n s = Some (s', None)" "plain (client s)" "quiet_env e"
  shows "all_sent e st tr arr (client s')"
  using assms
proof (induction n arbitrary: s rule: less_induct)
  case (less n)
  show ?case
  proof (cases "n > 0")
    case False
    with less.prems show ?thesis
      by (subst (asm) chunk_passes.simps) (auto dest: send_singly_complete)
  next
    case True
    with less.prems obtain s1 r where p: "send_chunks e st tr dl n arr s = Some (s1, r)"
      by (subst (asm) chunk_passes.simps) (auto simp: bind_eq_Some_conv)
    note sc = send_chunks_complete [OF p less.prems(2,3) True]
    show ?thesis
    proof (cases r)
      case PassDone
      with p True less.prems have "s' = s1" by (subst (asm) chunk_passes.simps) auto
      with sc PassDone show ?thesis by (auto simp: all_sent_def)
    next
      case (PassAbort er)
      with p True less.prems show ?thesis by (subst (asm) chunk_passes.simps) auto
    next
      case PassOversize
      with p True less.prems have "chunk_passes e st tr dl arr (n div 2) s1 = Some (s', None)"
        by (subst (asm) chunk_passes.simps) auto
      with less.IH [of "n div 2" s1] True sc less.prems(2,3) show ?thesis
        by (auto dest: extends_plain)
    qed
  qed
qed

subsection \<open>Lemmas: termination of a chunked send\<close>

definition clock_advances :: "send_env \<Rightarrow> bool" where
  "clock_advances e \<longleftrightarrow> (\<forall>t n. \<exists>k. t < seNow e (n + k))"

lemma waitForInflightWindow_returns:
  "clock_advances e \<Longrightarrow> \<exists>y. waitForInflightWindow e ctx (Some dl) s = Some y"
proof -
  assume "clock_advances e"
  then obtain k where "dl < seNow e (tick s + k)" unfolding clock_advances_def by blast
  from wait_loop_returns [OF this] show ?thesis unfolding waitForInflightWindow_def Let_def by auto
qed

lemma sendSignal_plain_returns:
  "plain (client s) \<Longrightarrow> \<exists>s' r. sendSignal e st tr data s = Some (s', r)"
  by (auto simp: sendSignal_def select_tier_def shape_traffic_def plain_def Let_def case_prod_beta
      split: sum.splits option.splits)

lemma send_chunks_returns:
  assumes "clock_advances e" "plain (client s)" "quiet_env e"
  shows "\<exists>y. send_chunks e st tr (Some dl) n arr s = Some y"
  using assms
proof (induction "length arr" arbitrary: arr s rule: less_induct)
  case less
  obtain s1 w where w: "waitForInflightWindow e background_ctx (Some dl) s = Some (s1, w)"
    using waitForInflightWindow_returns [OF less.prems(1)] by fast
  have p1: "plain (client s1)"
    using waitForInflightWindow_extends [OF w less.prems(3)] less.prems(2) by (rule extends_plain)
  obtain s2 r where sg: "sendSignal e st tr (JArr (take n arr)) s1 = Some (s2, r)"
    using sendSignal_plain_returns [OF p1] by blast
  have p2: "plain (client s2)" using sendSignal_plain [OF sg p1] p1 by (auto dest: extends_plain)
  have IH: "arr \<noteq> [] \<Longrightarrow> n \<noteq> 0 \<Longrightarrow> \<exists>y. send_chunks e st tr (Some dl) n (drop n arr) s2 = Some y"
    using less.hyps [of "drop n arr" s2] less.prems p2 by simp
  show ?case
    by (subst send_chunks.simps) (use w sg IH in \<open>auto split: option.splits\<close>)
qed

lemma send_singly_returns:
  assumes "clock_advances e" "plain (client s)" "quiet_env e"
  shows "\<exists>y. send_singly e st tr (Some dl) arr s = Some y"
  using assms
proof (induction arr arbitrary: s)
  case (Cons x arr)
  obtain s1 w where w: "waitForInflightWindow e background_ctx (Some dl) s = Some (s1, w)"
    using waitForInflightWindow_returns [OF Cons.prems(1)] by fast
  have p1: "plain (client s1)"
    using waitForInflightWindow_extends [OF w Cons.prems(3)] Cons.prems(2) by (rule extends_plain)
  obtain s2 r where sg: "sendSignal e st tr (JArr [x]) s1 = Some (s2, r)"
    using sendSignal_plain_returns [OF p1] by blast
  have p2: "plain (client s2)" using sendSignal_plain [OF sg p1] p1 by (auto dest: extends_plain)
  show ?case using w sg Cons.IH [OF Cons.prems(1) p2 Cons.prems(3)] by (auto split: option.splits)
qed simp

lemma chunk_passes_returns:
  assumes "clock_advances e" "plain (client s)" "quiet_env e"
  shows "\<exists>y. chunk_passes e st tr (Some dl) arr n s = Some y"
  using assms
proof (induction n arbitrary: s rule: less_induct)
  case (less n)
  obtain s1 r where sc: "send_chunks e st tr (Some dl) n arr s = Some (s1, r)"
    using send_chunks_returns [OF less.prems] by fast
  have "plain (client s1)" if "0 < n"
    using send_chunks_complete [OF sc less.prems(2,3) that] less.prems(2) by (auto dest: extends_plain)
  then have IH: "0 < n \<Longrightarrow> \<exists>y. chunk_passes e st tr (Some dl) arr (n div 2) s1 = Some y"
    using less.IH [of "n div 2" s1] less.prems by simp
  show ?case
    by (subst chunk_passes.simps)
       (use sc IH send_singly_returns [OF less.prems] in \<open>auto split: pass_result.splits\<close>)
qed

text \<open>An environment and a connected state for the witnesses.\<close>

definition sample_env :: send_env where
  "sample_env = \<lparr>seWrite = (\<lambda>_. None), seNow = (\<lambda>n. int n * second), seBackground = (\<lambda>_. []),
     seAI = \<lparr>aeIO = \<lparr>httpPost = (\<lambda>_ _ _. HttpFailed []), decodeOllama = (\<lambda>_. Inl []),
         decodeChoices = (\<lambda>_. Inl []), decodeContent = (\<lambda>_. Inl []), decodeParsed = (\<lambda>_. Inl []),
         getenv = (\<lambda>_. [])\<rparr>, aeFmt = (\<lambda>_ _. []),
       aeRands = \<lparr>normAt = (\<lambda>_. 0), uniAt = (\<lambda>_. 0)\<rparr>\<rparr>,
     seMarshal = (\<lambda>_. Inr [1, 2, 3])\<rparr>"

definition sample_state :: send_state where
  "sample_state = \<lparr>client = (zeroClient ''acme'')\<lparr>established := True, maxInflight := 64\<rparr>, tick = 0,
     randPos = (0, 0)\<rparr>"

lemma sample_env_ok: "quiet_env sample_env" "plain (client sample_state)" "clock_advances sample_env"
proof -
  show "quiet_env sample_env" "plain (client sample_state)"
    by (simp_all add: quiet_env_def sample_env_def plain_def sample_state_def zeroClient_def)
  have "\<exists>k. t < int (n + k) * second" for t and n :: nat
    by (rule exI [of _ "nat \<bar>t\<bar> + 1"]) auto
  then show "clock_advances sample_env" by (simp add: clock_advances_def sample_env_def)
qed

lemma sample_send:
  "\<exists>s'. sendChunkedSignal sample_env ''traces'' TierGuaranteed (JArr [JNull]) 15 sample_state = Some (s', None)"
  by (simp add: sendChunkedSignal_def sendSignal_def select_tier_def shape_traffic_def sample_env_def
      sample_state_def zeroClient_def transmit_step_def transmitWithFlags_def log_write_def Let_def)

subsection \<open>Properties\<close>





text \<open>When the wait for the window succeeds, fewer datagrams than the configured cap
  are in flight.\<close>

theorem window_respected:
  assumes "waitForInflightWindow e ctx dl s = Some (s', None)" "0 < maxInflight (client s)" "quiet_env e"
  shows "int (length (inflight (client s'))) < maxInflight (client s)"
  using assms wait_loop_extends [of e ctx "maxInflight (client s)" dl s s' None]
  by (auto simp: waitForInflightWindow_def Let_def)

theorem window_respected_witness:
  "int (length (inflight (client sample_state))) < 64"
  using window_respected [of sample_env background_ctx None sample_state sample_state] sample_env_ok(1)
  by (simp add: waitForInflightWindow_def sample_state_def zeroClient_def wait_loop.simps)

end
