(* ===== verification/Client_V3.thy ===== *)
theory Client_V3
  imports Client_Send
begin

section \<open>The V3 client: transparent fragmentation\<close>

text \<open>
  \<open>transport/agenticudp_v3.go\<close>: \<open>ClientV3\<close> embeds the V2 client (field \<open>base\<close>) and sends V3 datagrams,
  splitting a payload that does not fit one datagram into fragments that share a message number. Its
  receive loop is \<open>ackLoopV3_step\<close> of theory \<open>Client_V2\<close>. The environment of a send is the \<open>send_env\<close>
  of theory \<open>Client_Send\<close>.
\<close>

record inflightMsgV3 =
  msgIDField :: u32
  totalFrags :: u16
  ackedFrags :: u32
  msgSentAt :: gotime

record ClientV3 =
  base :: Client
  msgCounter :: u32
  inflightMsgs :: "(u32, inflightMsgV3) gomap"
  fragPayloadSize :: int

definition wrapV3 :: "Client \<Rightarrow> ClientV3" where
  "wrapV3 c = \<lparr>base = c, msgCounter = 0, inflightMsgs = [], fragPayloadSize = 0\<rparr>"

definition NewClientV3 ::
  "(string \<Rightarrow> string) \<Rightarrow> string option \<Rightarrow> string option \<Rightarrow> string \<Rightarrow> string \<Rightarrow> err + ClientV3" where
  "NewClientV3 env resolveErr dialErr host tenant =
     (case NewClient env resolveErr dialErr host tenant of Inl e \<Rightarrow> Inl e | Inr c \<Rightarrow> Inr (wrapV3 c))"

definition NewClientV3DTLS ::
  "(string \<Rightarrow> string) \<Rightarrow> string option \<Rightarrow> string \<Rightarrow> string \<Rightarrow> bool \<Rightarrow> err + ClientV3" where
  "NewClientV3DTLS env resolveErr host tenant modeNone =
     (case NewClientDTLS env resolveErr host tenant modeNone of Inl e \<Rightarrow> Inl e | Inr c \<Rightarrow> Inr (wrapV3 c))"

definition NewClientV3FromConn :: "string \<Rightarrow> ClientV3" where
  "NewClientV3FromConn tenant =
     wrapV3 ((zeroClient tenant)\<lparr>connNil := False, maxInflight := 64, baseMaxInflight := 64,
        baseRTOMs := defaultBaseRTOMs, maxRTOMs := defaultMaxRTOMs,
        maxRetransmitBudget := defaultMaxRetransmitsPerTick\<rparr>)"

definition nextMsgID :: "ClientV3 \<Rightarrow> ClientV3 \<times> u32" where
  "nextMsgID cv = (cv\<lparr>msgCounter := msgCounter cv + 1\<rparr>, msgCounter cv + 1)"

definition fragDataCapacity :: "ClientV3 \<Rightarrow> nat" where
  "fragDataCapacity cv = (if fragPayloadSize cv > 0 then nat (fragPayloadSize cv) else maxPayloadV3)"

subsection \<open>Sending one datagram\<close>

text \<open>The part both paths share: take the next sequence number, write the datagram built from it, and
  track it unless it is best effort.\<close>

definition send_datagramV3 ::
  "err option \<Rightarrow> gotime \<Rightarrow> (u16 \<Rightarrow> bytes) \<Rightarrow> tier \<Rightarrow> u16 \<Rightarrow> Client \<Rightarrow> Client \<times> err option" where
  "send_datagramV3 writeErr now build tr streamID c =
     (let seqFull = seqCounter c + 1;
          c = c\<lparr>seqCounter := seqFull\<rparr>;
          seq = ucast seqFull;
          pkt = build seq;
          c = log_write pkt c
      in case writeErr of
           Some er \<Rightarrow> (c\<lparr>dropped := dropped c + 1\<rparr>, Some er)
         | None \<Rightarrow>
             let c = c\<lparr>sent := sent c + 1\<rparr>
             in (if tr \<noteq> TierBesteff
                 then c\<lparr>inflight := AList.update seqFull
                        \<lparr>pData = pkt, pSeq = seq, pStreamID = streamID, pTier = tr, pSentAt = now,
                         pRetries = 0\<rparr> (inflight c)\<rparr>
                 else c, None))"

definition transmitSingleV3 ::
  "err option \<Rightarrow> gotime \<Rightarrow> bytes \<Rightarrow> tier \<Rightarrow> u16 \<Rightarrow> u8 \<Rightarrow> ClientV3 \<Rightarrow> ClientV3 \<times> err option" where
  "transmitSingleV3 writeErr now payload tr streamID userFlags cv =
     (let (cv, msgID) = nextMsgID cv;
          contentID = fnv1a payload;
          (c, er) = send_datagramV3 writeErr now
             (\<lambda>seq. buildPacketV3 pktData tr userFlags seq streamID msgID 0 1 contentID payload)
             tr streamID (base cv)
      in (cv\<lparr>base := c\<rparr>, er))"

subsection \<open>Fragmentation\<close>

definition frag_count :: "nat \<Rightarrow> nat \<Rightarrow> nat" where
  "frag_count len chunkSize = (len + chunkSize - 1) div chunkSize"

definition frag_slice :: "nat \<Rightarrow> bytes \<Rightarrow> nat \<Rightarrow> bytes" where
  "frag_slice chunkSize payload i =
     (let start = i * chunkSize; fin = min (start + chunkSize) (length payload)
      in take (fin - start) (drop start payload))"

definition frag_flags :: "nat \<Rightarrow> nat \<Rightarrow> u8" where
  "frag_flags tot i =
     (let flags = flagV3Fragmented;
          flags = (if i = 0 then or flags flagV3FragStart else flags)
      in if i = tot - 1 then or flags flagV3FragEnd else flags)"

definition fragment_packet ::
  "tier \<Rightarrow> u16 \<Rightarrow> u32 \<Rightarrow> nat \<Rightarrow> nat \<Rightarrow> bytes \<Rightarrow> nat \<Rightarrow> u16 \<Rightarrow> bytes" where
  "fragment_packet tr streamID msgID tot chunkSize payload i seq =
     (let chunk = frag_slice chunkSize payload i
      in buildPacketV3 pktData tr (frag_flags tot i) seq streamID msgID (of_nat i) (of_nat tot)
           (fnv1a chunk) chunk)"

text \<open>The state of a V3 send: the client, the step counter and the position of the random tapes.\<close>

record v3_state =
  cv3 :: ClientV3
  vtick :: nat
  vrand :: rpos

definition wait_window_v3 :: "send_env \<Rightarrow> gotime option \<Rightarrow> v3_state \<Rightarrow> (v3_state \<times> err option) option" where
  "wait_window_v3 e deadline s =
     do { (t, er) \<leftarrow> waitForInflightWindow e background_ctx deadline
                       \<lparr>client = base (cv3 s), tick = vtick s, randPos = vrand s\<rparr>;
          Some (s\<lparr>cv3 := (cv3 s)\<lparr>base := client t\<rparr>, vtick := tick t, vrand := randPos t\<rparr>, er) }"

text \<open>The loop over the fragments \<open>i\<close> still to send.\<close>

fun fragment_loop ::
  "send_env \<Rightarrow> gotime option \<Rightarrow> tier \<Rightarrow> u16 \<Rightarrow> u32 \<Rightarrow> nat \<Rightarrow> nat \<Rightarrow> bytes \<Rightarrow> nat list \<Rightarrow> v3_state
     \<Rightarrow> (v3_state \<times> err option) option" where
  "fragment_loop e deadline tr st msgID tot chunkSize payload [] s = Some (s, None)"
| "fragment_loop e deadline tr st msgID tot chunkSize payload (i # is) s =
     do { (s, werr) \<leftarrow> wait_window_v3 e deadline s;
          case werr of
            Some er \<Rightarrow> Some (s, Some er)
          | None \<Rightarrow>
              let (c, er) = send_datagramV3 (seWrite e (vtick s)) (seNow e (vtick s))
                    (fragment_packet tr st msgID tot chunkSize payload i) tr st (base (cv3 s));
                  s = s\<lparr>cv3 := (cv3 s)\<lparr>base := c\<rparr>, vtick := Suc (vtick s)\<rparr>
              in case er of
                   Some er \<Rightarrow> Some (s, Some er)
                 | None \<Rightarrow> fragment_loop e deadline tr st msgID tot chunkSize payload is s }"

definition transmitFragmentedV3 ::
  "send_env \<Rightarrow> bytes \<Rightarrow> tier \<Rightarrow> u16 \<Rightarrow> v3_state \<Rightarrow> (v3_state \<times> err option) option" where
  "transmitFragmentedV3 e payload tr streamID s =
     (let (cv, msgID) = nextMsgID (cv3 s);
          chunkSize = fragDataCapacity cv;
          tot = frag_count (length payload) chunkSize
      in if tot > 65535
         then Some (s\<lparr>cv3 := cv\<rparr>, Some (Err (''agenticudp v3: payload '' @ digits_of (length payload)
                      @ '' bytes requires '' @ digits_of tot @ '' fragments (limit 65535)'')))
         else
           let now = seNow e (vtick s);
               cv = (if tr \<noteq> TierBesteff
                     then cv\<lparr>inflightMsgs := AList.update msgID
                            \<lparr>msgIDField = msgID, totalFrags = of_nat tot, ackedFrags = 0,
                             msgSentAt = now\<rparr> (inflightMsgs cv)\<rparr>
                     else cv);
               deadline = Some (seNow e (vtick s + 1) + 60 * second)
           in fragment_loop e deadline tr streamID msgID tot chunkSize payload [0..<tot]
                (s\<lparr>cv3 := cv, vtick := vtick s + 2\<rparr>))"

definition transmitV3 ::
  "send_env \<Rightarrow> bytes \<Rightarrow> tier \<Rightarrow> u16 \<Rightarrow> u8 \<Rightarrow> v3_state \<Rightarrow> (v3_state \<times> err option) option" where
  "transmitV3 e payload tr streamID userFlags s =
     (if length payload \<le> fragDataCapacity (cv3 s)
      then (let n = vtick s;
                (cv, er) = transmitSingleV3 (seWrite e n) (seNow e n) payload tr streamID userFlags (cv3 s)
            in Some (s\<lparr>cv3 := cv, vtick := Suc n\<rparr>, er))
      else transmitFragmentedV3 e payload tr streamID s)"

subsection \<open>Signals\<close>

definition not_connected_v3 :: err where
  "not_connected_v3 = Err ''agenticudp v3: not connected''"

definition lift_send :: "send_state \<Rightarrow> v3_state \<Rightarrow> v3_state" where
  "lift_send t s = s\<lparr>cv3 := (cv3 s)\<lparr>base := client t\<rparr>, vtick := tick t, vrand := randPos t\<rparr>"

definition sendSignalV3 ::
  "send_env \<Rightarrow> string \<Rightarrow> tier \<Rightarrow> u16 \<Rightarrow> json \<Rightarrow> v3_state \<Rightarrow> (v3_state \<times> err option) option" where
  "sendSignalV3 e signalType defaultTier streamID data s =
     (if \<not> established (base (cv3 s)) then Some (s, Some not_connected_v3)
      else do {
        (t, tr) \<leftarrow> select_tier e signalType defaultTier
                     \<lparr>client = base (cv3 s), tick = vtick s, randPos = vrand s\<rparr>;
        let (t, shed) = shape_traffic e tr t;
        let s = lift_send t s;
        if shed then Some (s, None)
        else (case seMarshal e (envelope_json signalType (tenantID (base (cv3 s))) data) of
                Inl er \<Rightarrow> Some (s, Some (Err (''agenticudp v3: marshal '' @ signalType @ '': '' @ er)))
              | Inr payload \<Rightarrow> transmitV3 e payload tr streamID 0 s) })"

definition V3_SendTraces where "V3_SendTraces e d s = sendSignalV3 e ''traces'' TierGuaranteed 0 d s"
definition V3_SendMetrics where "V3_SendMetrics e d s = sendSignalV3 e ''metrics'' TierBesteff 0 d s"
definition V3_SendLogs where "V3_SendLogs e d s = sendSignalV3 e ''logs'' TierReliable 0 d s"
definition V3_SendEvents where "V3_SendEvents e d s = sendSignalV3 e ''events'' TierReliable 0 d s"

fun send_all_v3 ::
  "(v3_state \<Rightarrow> (v3_state \<times> err option) option) list \<Rightarrow> err option \<Rightarrow> v3_state
     \<Rightarrow> (v3_state \<times> err option) option" where
  "send_all_v3 [] firstErr s = Some (s, firstErr)"
| "send_all_v3 (f # fs) firstErr s =
     do { (s, er) \<leftarrow> f s;
          send_all_v3 fs (if er \<noteq> None \<and> firstErr = None then er else firstErr) s }"

definition V3_SendCycle ::
  "send_env \<Rightarrow> json option \<Rightarrow> json option \<Rightarrow> json option \<Rightarrow> v3_state \<Rightarrow> (v3_state \<times> err option) option" where
  "V3_SendCycle e metrics traces logs s =
     send_all_v3
       ((case metrics of None \<Rightarrow> [] | Some d \<Rightarrow> [sendSignalV3 e ''metrics'' TierBesteff 0 d])
        @ (case logs of None \<Rightarrow> [] | Some d \<Rightarrow> [sendSignalV3 e ''logs'' TierReliable 0 d])
        @ (case traces of None \<Rightarrow> [] | Some d \<Rightarrow> [sendSignalV3 e ''traces'' TierGuaranteed 0 d]))
       None s"

definition V3_SendOnStream where
  "V3_SendOnStream e streamID signalType tr data s = sendSignalV3 e signalType tr streamID data s"

definition V3_SendTaskResult where
  "V3_SendTaskResult e task result s =
     V3_SendOnStream e (StreamID task) ''task_result'' TierGuaranteed
       (JObj [(''task_id'', JStr (TaskID task)), (''task_type'', JStr (TaskType task)), (''result'', result)]) s"

subsection \<open>Lemmas: the fragments of a payload\<close>

lemma frag_slice_eq: "frag_slice n p i = take n (drop (i * n) p)"
  by (auto simp: frag_slice_def Let_def min_def)

lemma concat_slices: "concat (map (frag_slice n p) [0..<k]) = take (k * n) p"
  by (induction k) (simp_all add: frag_slice_eq take_add add.commute [of n])

lemma frag_count_covers: "0 < n \<Longrightarrow> len \<le> frag_count len n * n"
proof -
  assume n: "0 < n"
  have "len + n - 1 = (len + n - 1) div n * n + (len + n - 1) mod n" by simp
  moreover have "(len + n - 1) mod n < n" using n by simp
  ultimately show ?thesis unfolding frag_count_def using n by linarith
qed

lemma frag_count_tight: "0 < n \<Longrightarrow> i < frag_count len n \<Longrightarrow> i * n < len"
proof -
  assume n: "0 < n" and i: "i < frag_count len n"
  have "frag_count len n * n \<le> len + n - 1" by (simp add: frag_count_def)
  moreover have "i * n + n \<le> frag_count len n * n"
    using i by (metis Suc_leI add.commute mult_Suc mult_le_mono1)
  ultimately show ?thesis using n by linarith
qed

lemma fragments_partition:
  assumes "0 < n"
  shows "concat (map (frag_slice n p) [0..<frag_count (length p) n]) = p"
    "i < frag_count (length p) n \<Longrightarrow> frag_slice n p i \<noteq> [] \<and> length (frag_slice n p i) \<le> n"
  using frag_count_covers [OF assms, of "length p"] frag_count_tight [OF assms, of i "length p"] assms
  by (auto simp: concat_slices frag_slice_eq)

lemma frag_flags_eq:
  "frag_flags tot i = (if i = 0 then if i = tot - 1 then 7 else 3 else if i = tot - 1 then 5 else 1)"
  by (simp add: frag_flags_def Let_def)

subsection \<open>Lemmas: the V3 session\<close>

datatype v3_event =
    CoreStep client_event
  | SingleV3 "err option" gotime bytes tier u16 u8
  | FragmentV3 "err option" gotime tier u16 u32 nat nat bytes nat

definition v3_step :: "v3_event \<Rightarrow> ClientV3 \<Rightarrow> ClientV3" where
  "v3_step ev cv =
     (case ev of
        CoreStep ce \<Rightarrow> cv\<lparr>base := client_step ce (base cv)\<rparr>
      | SingleV3 we now payload tr st fl \<Rightarrow> fst (transmitSingleV3 we now payload tr st fl cv)
      | FragmentV3 we now tr st msgID tot n payload i \<Rightarrow>
          cv\<lparr>base := fst (send_datagramV3 we now (fragment_packet tr st msgID tot n payload i) tr st (base cv))\<rparr>)"

definition v3_event_ok :: "v3_event \<Rightarrow> bool" where
  "v3_event_ok ev =
     (case ev of
        CoreStep ce \<Rightarrow> event_ok ce
      | SingleV3 we now payload tr st fl \<Rightarrow> length payload \<le> maxPayloadV3
      | FragmentV3 we now tr st msgID tot n payload i \<Rightarrow> n \<le> maxPayloadV3)"

definition v3_sends :: "v3_event \<Rightarrow> nat" where
  "v3_sends ev = (case ev of CoreStep ce \<Rightarrow> if is_send ce then 1 else 0 | _ \<Rightarrow> 1)"

definition v3_tracks :: "v3_event \<Rightarrow> nat" where
  "v3_tracks ev =
     (case ev of
        CoreStep ce \<Rightarrow> tracked_by ce
      | SingleV3 we now payload tr st fl \<Rightarrow> if we = None \<and> tr \<noteq> TierBesteff then 1 else 0
      | FragmentV3 we now tr st msgID tot n payload i \<Rightarrow> if we = None \<and> tr \<noteq> TierBesteff then 1 else 0)"

definition v3_gives_up :: "v3_event \<Rightarrow> ClientV3 \<Rightarrow> nat" where
  "v3_gives_up ev cv = (case ev of CoreStep ce \<Rightarrow> given_up_by ce (base cv) | _ \<Rightarrow> 0)"

lemma buildPacketV3_wire_ids: "wire_ids (buildPacketV3 pt tr fl sq st mi fo ft ci p) = (sq, st)"
  by (simp add: wire_ids_def buildPacketV3_layout Let_def)

lemma client_ok_send_datagramV3:
  assumes "client_ok c" "seqCounter c \<noteq> - 1"
    and b: "\<And>sq. wire_ids (build sq) = (sq, st)" "\<And>sq. length (build sq) \<le> maxPayload"
  shows "client_ok (fst (send_datagramV3 we now build tr st c))"
proof -
  have e: "entry_ok (seqCounter c + 1) (k, p)" if "map_of (inflight c) k = Some p" for k p
    using client_ok_lookup [OF assms(1) that] seq_fresh(1) [OF assms(1,2)] by (auto elim!: entry_ok_mono)
  have new: "entry_ok k (k, \<lparr>pData = build (ucast k), pSeq = ucast k, pStreamID = st, pTier = tr,
      pSentAt = now, pRetries = 0\<rparr>)" if "tr \<noteq> TierBesteff" for k
    using that b by (simp add: entry_ok_def)
  show ?thesis
    using client_okD(1,3) [OF assms(1)]
    by (auto simp: send_datagramV3_def Let_def log_write_def update_conv'
        split: option.splits if_splits intro!: client_okI e new)
qed

lemma account_send_datagramV3:
  assumes "client_ok c" "seqCounter c \<noteq> - 1"
  shows "account (fst (send_datagramV3 we now build tr st c))
    = account c + (if we = None \<and> tr \<noteq> TierBesteff then 1 else 0)"
  using seq_fresh(2) [OF assms]
  by (simp add: send_datagramV3_def account_def Let_def log_write_def length_update_fresh split: option.splits)

lemma seqCounter_send_datagramV3: "seqCounter (fst (send_datagramV3 we now build tr st c)) = seqCounter c + 1"
  by (simp add: send_datagramV3_def Let_def log_write_def split: option.splits)

lemma fragment_packet_ok:
  "wire_ids (fragment_packet tr st msgID tot n payload i sq) = (sq, st)"
  "n \<le> maxPayloadV3 \<Longrightarrow> length (fragment_packet tr st msgID tot n payload i sq) \<le> maxPayload"
  by (simp_all add: fragment_packet_def Let_def buildPacketV3_wire_ids frag_slice_eq)

lemma v3_single_base:
  "base (fst (transmitSingleV3 we now payload tr st fl cv)) =
     fst (send_datagramV3 we now (\<lambda>seq. buildPacketV3 pktData tr fl seq st (msgCounter cv + 1) 0 1
       (fnv1a payload) payload) tr st (base cv))"
  by (simp add: transmitSingleV3_def nextMsgID_def Let_def case_prod_beta)

interpretation v3: tracked_session v3_step base v3_event_ok "\<lambda>ev _. v3_sends ev" "\<lambda>ev _. v3_tracks ev" v3_gives_up
proof
  fix ev and cv :: ClientV3
  assume ok: "v3_event_ok ev" and lt: "unat (seqCounter (base cv)) + v3_sends ev < 2 ^ 32"
  from lt have n: "v3_sends ev = 1 \<Longrightarrow> seqCounter (base cv) \<noteq> - 1" using seq_bound_neq_max by auto
  then have core: "\<And>ce. ev = CoreStep ce \<Longrightarrow> is_send ce \<Longrightarrow> seqCounter (base cv) \<noteq> - 1"
    by (simp add: v3_sends_def)
  show "unat (seqCounter (base (v3_step ev cv))) \<le> unat (seqCounter (base cv)) + v3_sends ev"
    using n seqCounter_step [of _ "base cv"]
    by (cases ev) (auto simp: v3_step_def v3_sends_def v3_single_base seqCounter_send_datagramV3
        unat_plus_one split: if_splits)
  assume c: "client_ok (base cv)"
  show "client_ok (base (v3_step ev cv))"
    using ok n c core
    by (cases ev) (auto simp: v3_step_def v3_event_ok_def v3_sends_def v3_single_base client_ok_step
        buildPacketV3_wire_ids fragment_packet_ok intro!: client_ok_send_datagramV3)
  show "account (base (v3_step ev cv)) + of_nat (v3_gives_up ev cv) = account (base cv) + of_nat (v3_tracks ev)"
    using ok n c core account_step [of "base cv"]
    by (cases ev) (auto simp: v3_step_def v3_event_ok_def v3_sends_def v3_single_base v3_tracks_def
        v3_gives_up_def account_send_datagramV3)
qed

subsection \<open>Lemmas: the fragment loop\<close>

lemma send_datagramV3_sent:
  assumes "send_datagramV3 we now build tr st c = (c', None)"
  shows "extends c c' \<and> (\<exists>sq. build sq \<in> set (wlog c'))"
  using assms
  by (auto simp: send_datagramV3_def extends_def plain_def log_write_def Let_def split: option.splits if_splits)

lemma wait_window_v3_extends:
  assumes "wait_window_v3 e dl s = Some (s', r)" "quiet_env e"
  shows "extends (base (cv3 s)) (base (cv3 s'))"
  using assms waitForInflightWindow_extends [of e background_ctx dl
      "\<lparr>client = base (cv3 s), tick = vtick s, randPos = vrand s\<rparr>"]
  by (auto simp: wait_window_v3_def bind_eq_Some_conv)

lemma fragment_loop_sent:
  assumes "fragment_loop e dl tr st m tot n payload is s = Some (s', None)" "quiet_env e"
  shows "extends (base (cv3 s)) (base (cv3 s')) \<and>
    (\<forall>i \<in> set is. \<exists>sq. fragment_packet tr st m tot n payload i sq \<in> set (wlog (base (cv3 s'))))"
  using assms
proof (induction "is" arbitrary: s)
  case (Cons i "is")
  from Cons.prems(1) obtain s1 where w: "wait_window_v3 e dl s = Some (s1, None)"
    by (auto simp: bind_eq_Some_conv split: option.splits)
  obtain c er where sd: "send_datagramV3 (seWrite e (vtick s1)) (seNow e (vtick s1))
      (fragment_packet tr st m tot n payload i) tr st (base (cv3 s1)) = (c, er)" by fastforce
  let ?s2 = "s1\<lparr>cv3 := (cv3 s1)\<lparr>base := c\<rparr>, vtick := Suc (vtick s1)\<rparr>"
  from Cons.prems(1) w sd have er: "er = None"
    and rest: "fragment_loop e dl tr st m tot n payload is ?s2 = Some (s', None)"
    by (auto simp: Let_def split: option.splits)
  from Cons.IH [OF rest Cons.prems(2)] have IH: "extends c (base (cv3 s'))"
    "\<forall>i \<in> set is. \<exists>sq. fragment_packet tr st m tot n payload i sq \<in> set (wlog (base (cv3 s')))" by auto
  from send_datagramV3_sent [OF sd [unfolded er]] IH(1)
  have "extends (base (cv3 s1)) (base (cv3 s'))"
    "\<exists>sq. fragment_packet tr st m tot n payload i sq \<in> set (wlog (base (cv3 s')))"
    by (auto intro: extends_trans simp: extends_def)
  with IH(2) wait_window_v3_extends [OF w Cons.prems(2)] show ?case by (auto intro: extends_trans)
qed simp

lemma fragDataCapacity_pos: "0 < fragDataCapacity cv"
  by (simp add: fragDataCapacity_def)

subsection \<open>Properties\<close>


definition sample_v3 :: v3_state where
  "sample_v3 = \<lparr>cv3 = (wrapV3 (client sample_state))\<lparr>fragPayloadSize := 2\<rparr>, vtick = 0, vrand = (0, 0)\<rparr>"

lemma sample_v3_send: "\<exists>s'. transmitFragmentedV3 sample_env [1, 2, 3] TierGuaranteed 0 sample_v3 = Some (s', None)"
  by (simp add: transmitFragmentedV3_def nextMsgID_def fragDataCapacity_def sample_v3_def wrapV3_def
      frag_count_def upt_rec wait_window_v3_def waitForInflightWindow_def wait_loop.simps sample_state_def
      zeroClient_def send_datagramV3_def sample_env_def log_write_def Let_def)


text \<open>The accounting of reliable datagrams holds for V3 sessions too, where every fragment
  is a datagram of its own and selective acknowledgements settle many at once.\<close>

theorem v3_session_accounting:
  assumes "NewClientV3 env None None host tenant = Inr cv" "\<forall>ev \<in> set evs. v3_event_ok ev"
    "sum_list (map v3_sends evs) < 2 ^ 32"
  shows "of_nat (sum_list (map v3_tracks evs))
    = acked (base (fold v3_step evs cv)) + of_nat (run_sum v3_step v3_gives_up evs cv)
      + of_nat (length (inflight (base (fold v3_step evs cv))))"
proof -
  obtain c where c: "NewClient env None None host tenant = Inr c" "cv = wrapV3 c"
    using assms(1) by (auto simp: NewClientV3_def split: sum.splits)
  from v3.run_account [of cv evs] client_ok_new [OF c(1)] c(2) assms(2,3)
  have "account (base (fold v3_step evs cv)) + of_nat (run_sum v3_step v3_gives_up evs cv)
      = of_nat (sum_list (map v3_tracks evs))"
    by (simp add: wrapV3_def run_sum_const)
  then show ?thesis by (simp add: account_def algebra_simps)
qed

theorem v3_session_accounting_witness:
  "\<exists>cv. NewClientV3 (\<lambda>_. []) None None [] [] = Inr cv
     \<and> 1 = acked (base (fold v3_step [SingleV3 None 0 [7] TierReliable 0 0] cv))
         + of_nat (run_sum v3_step v3_gives_up [SingleV3 None 0 [7] TierReliable 0 0] cv)
         + of_nat (length (inflight (base (fold v3_step [SingleV3 None 0 [7] TierReliable 0 0] cv))))"
proof -
  obtain cv where cv: "NewClientV3 (\<lambda>_. []) None None [] [] = Inr cv"
    by (simp add: NewClientV3_def NewClient_def Let_def)
  from v3_session_accounting [OF cv, of "[SingleV3 None 0 [7] TierReliable 0 0]"] cv show ?thesis
    by (simp add: v3_event_ok_def v3_sends_def v3_tracks_def)
qed

end
