(* ===== verification/Client_Race.thy ===== *)
theory Client_Race
  imports Client_V2
begin

section \<open>Writing and tracking a datagram as two steps\<close>

text \<open>
  \<open>transmitWithFlags\<close> does not hold the lock of the in-flight map while it writes: the datagram is on
  the wire before it is tracked, and every other goroutine may run in between. The session of
  \<open>Client_V2\<close> takes a send as one step; here it is two, and any number of sends may be between them.

  The state is the client together with the datagrams written but not yet tracked. Its view as one
  client, with these datagrams already in flight, satisfies the contract \<open>tracked_session\<close>, so the books
  balance for the finer interleavings too. What the coarse session does not show is that an
  acknowledgement can come too early: it finds nothing and is dropped.
\<close>

subsection \<open>The two halves\<close>

definition transmit_write ::
  "err option \<Rightarrow> bytes \<Rightarrow> tier \<Rightarrow> u16 \<Rightarrow> u8 \<Rightarrow> Client \<Rightarrow> Client \<times> err option \<times> (u32 \<times> inflightPkt) option" where
  "transmit_write writeErr payload tr streamID flags c =
     (if headerSize + length payload > maxPayload then (c, Some EMSGSIZE, None)
      else
        let seqFull = seqCounter c + 1;
            c = c\<lparr>seqCounter := seqFull\<rparr>;
            seq = ucast seqFull;
            contentID = fnv1a payload;
            pkt = buildPacket pktData tr flags seq streamID contentID payload;
            c = log_write pkt c
        in case writeErr of
             Some e \<Rightarrow> (c\<lparr>dropped := dropped c + 1\<rparr>, Some e, None)
           | None \<Rightarrow> (c\<lparr>sent := sent c + 1\<rparr>, None,
               if tr \<noteq> TierBesteff
               then Some (seqFull, \<lparr>pData = pkt, pSeq = seq, pStreamID = streamID, pTier = tr,
                                    pSentAt = 0, pRetries = 0\<rparr>)
               else None))"

definition transmit_track :: "gotime \<Rightarrow> u32 \<times> inflightPkt \<Rightarrow> Client \<Rightarrow> Client" where
  "transmit_track now e c = c\<lparr>inflight := AList.update (fst e) ((snd e)\<lparr>pSentAt := now\<rparr>) (inflight c)\<rparr>"

text \<open>Without anything in between the two halves are the send.\<close>

lemma transmit_split:
  "transmitWithFlags we now p tr st fl c = (case transmit_write we p tr st fl c of
     (c', er, None) \<Rightarrow> (c', er) | (c', er, Some e) \<Rightarrow> (transmit_track now e c', er))"
  by (simp add: transmitWithFlags_def transmit_write_def transmit_track_def log_write_def Let_def split: option.split)

subsection \<open>Sessions\<close>

record split_state =
  spClient :: Client
  spPending :: "(u32, inflightPkt) gomap"

datatype split_event =
    Whole client_event
  | WriteHalf "err option" bytes tier u16 u8
  | TrackHalf nat gotime

fun split_step :: "split_event \<Rightarrow> split_state \<Rightarrow> split_state" where
  "split_step (Whole ev) s = s\<lparr>spClient := client_step ev (spClient s)\<rparr>"
| "split_step (WriteHalf we p tr st fl) s =
     (let (c, er, e) = transmit_write we p tr st fl (spClient s)
      in \<lparr>spClient = c, spPending = spPending s @ (case e of None \<Rightarrow> [] | Some e \<Rightarrow> [e])\<rparr>)"
| "split_step (TrackHalf i now) s =
     (if i < length (spPending s)
      then \<lparr>spClient = transmit_track now (spPending s ! i) (spClient s),
            spPending = take i (spPending s) @ drop (Suc i) (spPending s)\<rparr>
      else s)"

fun split_ok :: "split_event \<Rightarrow> bool" where
  "split_ok (Whole ev) = event_ok ev"
| "split_ok _ = True"

fun split_sends :: "split_event \<Rightarrow> nat" where
  "split_sends (Whole ev) = (if is_send ev then 1 else 0)"
| "split_sends (WriteHalf _ _ _ _ _) = 1"
| "split_sends (TrackHalf _ _) = 0"

fun split_tracks :: "split_event \<Rightarrow> nat" where
  "split_tracks (Whole ev) = tracked_by ev"
| "split_tracks (WriteHalf we p tr st fl) = tracked_by (Send we 0 p tr st fl)"
| "split_tracks (TrackHalf _ _) = 0"

fun split_gives_up :: "split_event \<Rightarrow> split_state \<Rightarrow> nat" where
  "split_gives_up (Whole ev) s = given_up_by ev (spClient s)"
| "split_gives_up _ s = 0"

text \<open>The view as one client.\<close>

definition tracked_view :: "split_state \<Rightarrow> Client" where
  "tracked_view s = (spClient s)\<lparr>inflight := inflight (spClient s) @ spPending s\<rparr>"

subsection \<open>Keys of the in-flight map\<close>

abbreviation keys :: "Client \<Rightarrow> u32 set" where
  "keys c \<equiv> fst ` set (inflight c)"

lemma keys_eq_dom: "fst ` set m = dom (map_of m)"
  by (simp add: dom_map_of_conv_image_fst)

lemma keys_processACK: "keys (fst (processACK rng now sq st c)) \<subseteq> keys c"
  by (auto simp: processACK_def Let_def AList.delete_eq split: option.splits)

lemma keys_processNACK:
  assumes "client_ok c" "is_range rng"
  shows "keys (processNACK rng now sq st c) \<subseteq> keys c"
proof (cases "find (match_wire sq st) (rng (inflight c))")
  case (Some e)
  then obtain k p where e: "find (match_wire sq st) (rng (inflight c)) = Some (k, p)" by (cases e) auto
  from find_range_Some(3) [OF assms(2) client_okD(1) [OF assms(1)] e] have "k \<in> dom (map_of (inflight c))" by blast
  with e show ?thesis by (auto simp: processNACK_def log_write_def keys_eq_dom update_conv')
qed (simp add: processNACK_def)

lemma keys_sack: "keys (sack_loop rngs now i d st c) \<subseteq> keys c"
proof (induction rngs now i d st c rule: sack_loop.induct)
  case (1 rngs now i a b rest st c)
  have "keys (sack_loop rngs now i (a # b # rest) st c) \<subseteq> keys (fst (processACK (rngs i) now (be16 a b) st c))"
    using 1 by simp
  also have "\<dots> \<subseteq> keys c" by (rule keys_processACK)
  finally show ?case .
qed simp_all

lemma keys_tick:
  assumes "client_ok c" "is_range rng"
  shows "keys (runRetransmitTick rng now lnow c) \<subseteq> keys c"
  unfolding keys_eq_dom
  using tick_lookup [OF assms(2) client_okD(1) [OF assms(1)]] by (auto simp: dom_def split: option.splits)

lemma keys_transmit: "keys (fst (transmitWithFlags we now p tr st fl c)) \<subseteq> insert (seqCounter c + 1) (keys c)"
  by (auto simp: transmitWithFlags_def log_write_def keys_eq_dom update_conv' Let_def split: option.splits if_splits)

lemma keys_step:
  assumes "client_ok c" "event_ok ev"
  shows "keys (client_step ev c) \<subseteq> (if is_send ev then insert (seqCounter c + 1) (keys c) else keys c)"
proof (cases ev)
  case (Send we now p tr st fl)
  then show ?thesis using keys_transmit by (simp add: client_step_def is_send_def)
next
  case (Receive rng now d)
  with assms keys_processACK keys_processNACK show ?thesis
    by (simp add: client_step_def is_send_def event_ok_def ackLoop_step_def log_write_def Let_def split: option.split)
next
  case (ReceiveV3 rngs now d)
  with assms keys_processACK keys_processNACK keys_sack show ?thesis
    by (simp add: client_step_def is_send_def event_ok_def ackLoopV3_step_def handleConfigPayload_def log_write_def Let_def
        split: option.split)
next
  case (RetransmitTick rng now lnow)
  with assms keys_tick show ?thesis by (simp add: client_step_def is_send_def event_ok_def)
next
  case (Configure st)
  then show ?thesis
    by (cases st) (simp_all add: client_step_def is_send_def SetMaxInflight_def SetBaseRTO_def SetMaxRTO_def
        SetRetransmitBudget_def SetConfigHandler_def EnableAI_def Let_def)
qed (simp_all add: client_step_def is_send_def keepaliveLoop_tick_def log_write_def congestionTunerLoop_tick_def
      case_prod_beta Let_def split: option.split)

lemma seqCounter_grows:
  assumes "is_send ev \<Longrightarrow> seqCounter c \<noteq> - 1"
  shows "seqCounter c \<le> seqCounter (client_step ev c)"
proof (cases ev)
  case (Send we now p tr st fl)
  with assms have "seqCounter c < seqCounter c + 1" by (simp add: is_send_def word_less_plus_one)
  with Send show ?thesis
    by (auto simp: client_step_def transmitWithFlags_def log_write_def Let_def split: option.splits)
next
  case (Receive rng now d)
  then show ?thesis
    by (simp add: client_step_def ackLoop_step_def processACK_def processNACK_def log_write_def Let_def split: option.splits)
next
  case (ReceiveV3 rngs now d)
  then show ?thesis
    by (simp add: client_step_def ackLoopV3_step_def handleConfigPayload_def processACK_def processNACK_def
        log_write_def Let_def seqCounter_sack split: option.splits)
next
  case (Configure st)
  then show ?thesis
    by (cases st) (simp_all add: client_step_def SetMaxInflight_def SetBaseRTO_def SetMaxRTO_def
        SetRetransmitBudget_def SetConfigHandler_def EnableAI_def Let_def)
qed (simp_all add: client_step_def runRetransmitTick_fields(7) keepaliveLoop_tick_def log_write_def
      congestionTunerLoop_tick_def case_prod_beta Let_def split: option.split)

subsection \<open>The invariant of the view\<close>

definition pending_ok :: "u32 \<Rightarrow> u32 set \<Rightarrow> (u32, inflightPkt) gomap \<Rightarrow> bool" where
  "pending_ok sc ks ps \<longleftrightarrow> gomap_ok ps \<and> fst ` set ps \<inter> ks = {} \<and> (\<forall>e \<in> set ps. entry_ok sc e)"

lemma view_ok:
  "client_ok (tracked_view s) \<longleftrightarrow>
     client_ok (spClient s) \<and> pending_ok (seqCounter (spClient s)) (keys (spClient s)) (spPending s)"
  by (auto simp: tracked_view_def client_ok_def pending_ok_def gomap_ok_def)

lemma pending_ok_mono:
  assumes "pending_ok sc ks ps" "sc \<le> sc'" "ks' \<subseteq> ks \<union> {k. sc < k}"
  shows "pending_ok sc' ks' ps"
  using assms by (fastforce simp: pending_ok_def entry_ok_def)

lemma view_account: "account (tracked_view s) = account (spClient s) + of_nat (length (spPending s))"
  by (simp add: tracked_view_def account_def algebra_simps)

lemma view_seq [simp]: "seqCounter (tracked_view s) = seqCounter (spClient s)"
  by (simp add: tracked_view_def)

lemma transmit_write_fields:
  assumes "transmit_write we p tr st fl c = (c', er, e)"
  shows "inflight c' = inflight c" "acked c' = acked c" "congestionPredictor c' = congestionPredictor c"
    "seqCounter c' = seqCounter c \<or> seqCounter c' = seqCounter c + 1"
    "e = Some (k, q) \<Longrightarrow> k = seqCounter c + 1 \<and> seqCounter c' = k \<and> entry_ok k (k, q)"
    "(e = None) = (tracked_by (Send we t p tr st fl) = 0)" "tracked_by (Send we t p tr st fl) \<le> 1"
  using assms
  by (auto simp: transmit_write_def log_write_def Let_def tracked_by_def entry_ok_def buildPacket_wire_ids
      split: if_splits option.splits)

lemma write_seq:
  assumes "seqCounter c \<noteq> - 1"
  shows "unat (seqCounter (fst (transmit_write we p tr st fl c))) \<le> unat (seqCounter c) + 1"
proof -
  obtain c' er e where w: "transmit_write we p tr st fl c = (c', er, e)" by (metis prod_cases3)
  show ?thesis using transmit_write_fields(4) [OF w] unat_plus_one [OF assms] by (auto simp: w)
qed

lemma view_ok_whole:
  assumes "client_ok (tracked_view s)" "event_ok ev" "is_send ev \<Longrightarrow> seqCounter (spClient s) \<noteq> - 1"
  shows "client_ok (tracked_view (split_step (Whole ev) s))"
proof -
  let ?c = "spClient s"
  have c: "client_ok ?c" and p: "pending_ok (seqCounter ?c) (keys ?c) (spPending s)"
    using assms(1) by (simp_all add: view_ok)
  have "keys (client_step ev ?c) \<subseteq> keys ?c \<union> {k. seqCounter ?c < k}"
  proof (cases "is_send ev")
    case True
    then have "keys (client_step ev ?c) \<subseteq> insert (seqCounter ?c + 1) (keys ?c)"
      using keys_step [OF c assms(2)] by simp
    also have "\<dots> \<subseteq> keys ?c \<union> {k. seqCounter ?c < k}"
      using word_less_plus_one [OF assms(3) [OF True]] by simp
    finally show ?thesis .
  next
    case False
    then have "keys (client_step ev ?c) \<subseteq> keys ?c" using keys_step [OF c assms(2)] by simp
    then show ?thesis by (rule le_supI1)
  qed
  then have "pending_ok (seqCounter (client_step ev ?c)) (keys (client_step ev ?c)) (spPending s)"
    using pending_ok_mono [OF p seqCounter_grows [OF assms(3)]] by simp
  with client_ok_step [OF c assms(2,3)] show ?thesis by (simp add: view_ok)
qed

lemma view_ok_write:
  assumes "client_ok (tracked_view s)" "seqCounter (spClient s) \<noteq> - 1"
  shows "client_ok (tracked_view (split_step (WriteHalf we p tr st fl) s))"
    "account (tracked_view (split_step (WriteHalf we p tr st fl) s))
       = account (tracked_view s) + of_nat (split_tracks (WriteHalf we p tr st fl))"
proof -
  let ?c = "spClient s"
  obtain c' er e where w: "transmit_write we p tr st fl ?c = (c', er, e)" by (metis prod_cases3)
  note fields = transmit_write_fields [OF w]
  have c: "client_ok ?c" and pd: "pending_ok (seqCounter ?c) (keys ?c) (spPending s)"
    using assms(1) by (simp_all add: view_ok)
  have lt: "seqCounter ?c < seqCounter ?c + 1" using assms(2) by (rule word_less_plus_one)
  then have mono: "seqCounter ?c \<le> seqCounter c'" using fields(4) by auto
  have c': "client_ok c'"
    using c mono by (auto simp: client_ok_def fields(1,3) elim: entry_ok_mono)
  have pd': "pending_ok (seqCounter c') (keys c') (spPending s)"
    using pending_ok_mono [OF pd mono, of "keys c'"] by (simp add: fields(1))
  have "pending_ok (seqCounter c') (keys c') (spPending s @ [(k, q)])" if "e = Some (k, q)" for k q
  proof -
    have k: "k = seqCounter ?c + 1" "seqCounter c' = k" "entry_ok k (k, q)" using fields(5) [OF that] by auto
    have "k \<notin> fst ` set (spPending s)" using pd lt by (force simp: pending_ok_def entry_ok_def k(1))
    moreover have "k \<notin> keys c'" using seq_fresh(2) [OF c assms(2)] by (simp add: k(1) fields(1))
    ultimately show ?thesis using pd' k(2,3) by (auto simp: pending_ok_def gomap_ok_def)
  qed
  with w c' pd' show "client_ok (tracked_view (split_step (WriteHalf we p tr st fl) s))"
    by (cases e) (auto simp: view_ok)
  show "account (tracked_view (split_step (WriteHalf we p tr st fl) s))
       = account (tracked_view s) + of_nat (split_tracks (WriteHalf we p tr st fl))"
    using w fields(1,2) fields(6,7) [of 0] by (cases e) (auto simp: tracked_view_def account_def le_Suc_eq)
qed

lemma pending_ok_remove:
  assumes "pending_ok sc ks ps" "set ps' \<subseteq> set ps" "gomap_ok ps'" "k \<notin> fst ` set ps'"
  shows "pending_ok sc (insert k ks) ps'"
proof -
  have "fst ` set ps' \<subseteq> fst ` set ps" using assms(2) by (rule image_mono)
  moreover have "fst ` set ps \<inter> ks = {}" "\<forall>e \<in> set ps. entry_ok sc e" using assms(1) by (simp_all add: pending_ok_def)
  ultimately have "fst ` set ps' \<inter> insert k ks = {}" "\<forall>e \<in> set ps'. entry_ok sc e"
    using assms(2,4) by (fast, fast)
  with assms(3) show ?thesis by (simp add: pending_ok_def)
qed

lemma view_ok_track:
  assumes "client_ok (tracked_view s)" "i < length (spPending s)"
  shows "client_ok (tracked_view (split_step (TrackHalf i now) s))
    \<and> account (tracked_view (split_step (TrackHalf i now) s)) = account (tracked_view s)"
proof -
  let ?c = "spClient s" and ?p = "spPending s"
  have c: "client_ok ?c" and pd: "pending_ok (seqCounter ?c) (keys ?c) ?p"
    using assms(1) by (simp_all add: view_ok)
  obtain k q where e: "?p ! i = (k, q)" by force
  let ?c' = "transmit_track now (k, q) ?c" and ?p' = "take i ?p @ drop (Suc i) ?p"
  have split: "?p = take i ?p @ (k, q) # drop (Suc i) ?p" using id_take_nth_drop [OF assms(2)] e by simp
  have "(k, q) \<in> set ?p" using nth_mem [OF assms(2)] e by simp
  then have new: "k \<notin> keys ?c" "entry_ok (seqCounter ?c) (k, q)" using pd by (force simp: pending_ok_def)+
  have "gomap_ok (take i ?p @ (k, q) # drop (Suc i) ?p)" using pd split by (simp add: pending_ok_def)
  then have d: "gomap_ok ?p'" "k \<notin> fst ` set ?p'" by (auto simp: gomap_ok_def)
  have infl: "inflight ?c' = inflight ?c @ [(k, q\<lparr>pSentAt := now\<rparr>)]" "seqCounter ?c' = seqCounter ?c"
    "congestionPredictor ?c' = congestionPredictor ?c" "acked ?c' = acked ?c"
    using new(1) by (simp_all add: transmit_track_def update_fresh)
  have c': "client_ok ?c'"
    using c new by (auto simp: client_ok_def infl gomap_ok_def entry_ok_def)
  have "pending_ok (seqCounter ?c) (insert k (keys ?c)) ?p'"
    by (rule pending_ok_remove [OF pd _ d]) (use split in \<open>metis Un_upper1 Un_upper2 set_append set_subset_Cons subset_trans Un_subset_iff\<close>)
  then have pd': "pending_ok (seqCounter ?c') (keys ?c') ?p'" by (simp add: infl)
  have "length ?p = Suc (length ?p')" using assms(2) by simp
  then have "of_nat (length ?p) = (1 + of_nat (length ?p') :: u64)" by (metis of_nat_Suc)
  moreover have "account ?c' = account ?c + 1" by (simp add: account_def infl)
  ultimately have "account ?c' + of_nat (length ?p') = account ?c + of_nat (length ?p)" by (simp add: algebra_simps)
  with c' pd' show ?thesis
    using assms(2) e by (simp add: view_ok view_account del: length_append length_take length_drop)
qed

interpretation split: tracked_session split_step tracked_view split_ok "\<lambda>ev _. split_sends ev" "\<lambda>ev _. split_tracks ev"
  split_gives_up
proof
  fix ev and s :: split_state
  assume ok: "split_ok ev" and lt: "unat (seqCounter (tracked_view s)) + split_sends ev < 2 ^ 32"
  from lt have n: "split_sends ev = 1 \<Longrightarrow> seqCounter (spClient s) \<noteq> - 1" using seq_bound_neq_max by auto
  show "unat (seqCounter (tracked_view (split_step ev s))) \<le> unat (seqCounter (tracked_view s)) + split_sends ev"
  proof (cases ev)
    case (Whole w)
    then show ?thesis using seqCounter_step [of w "spClient s"] n by simp
  next
    case (WriteHalf we p tr st fl)
    with n write_seq [of "spClient s" we p tr st fl] show ?thesis by (simp add: case_prod_beta Let_def)
  qed (simp add: transmit_track_def)
  assume inv: "client_ok (tracked_view s)"
  show "client_ok (tracked_view (split_step ev s))"
  proof (cases ev)
    case (TrackHalf i now)
    then show ?thesis using view_ok_track [OF inv, of i now] inv by (cases "i < length (spPending s)") simp_all
  qed (use inv ok n view_ok_whole view_ok_write(1) in \<open>simp_all del: split_step.simps\<close>)
  show "account (tracked_view (split_step ev s)) + of_nat (split_gives_up ev s)
      = account (tracked_view s) + of_nat (split_tracks ev)"
  proof (cases ev)
    case (Whole w)
    with inv ok n account_step [of "spClient s" w] show ?thesis by (simp add: view_ok view_account algebra_simps)
  next
    case (WriteHalf we p tr st fl)
    with view_ok_write(2) [OF inv] n show ?thesis by (simp del: split_step.simps)
  next
    case (TrackHalf i now)
    then show ?thesis using view_ok_track [OF inv, of i now] by (cases "i < length (spPending s)") simp_all
  qed
qed

subsection \<open>Properties\<close>

text \<open>Property C5. The books balance for every interleaving of the goroutines, also when others run between
  the write of a datagram and its entry in the in-flight map: the reliable datagrams written are
  exactly those acknowledged, given up, in flight, or still on their way into the map. When no send
  is under way, none is missing.\<close>

theorem split_session_accounting:
  assumes "NewClient env None None host tenant = Inr c0" "\<forall>ev \<in> set evs. split_ok ev"
    "sum_list (map split_sends evs) < 2 ^ 32"
    and "s = fold split_step evs \<lparr>spClient = c0, spPending = []\<rparr>"
  shows "of_nat (sum_list (map split_tracks evs))
    = acked (spClient s) + of_nat (run_sum split_step split_gives_up evs \<lparr>spClient = c0, spPending = []\<rparr>)
      + of_nat (length (inflight (spClient s))) + of_nat (length (spPending s))
    \<and> distinct (map fst (inflight (spClient s) @ spPending s))"
proof -
  let ?s0 = "\<lparr>spClient = c0, spPending = []\<rparr>"
  have c0: "client_ok (tracked_view ?s0)" "account (tracked_view ?s0) = 0" "seqCounter (tracked_view ?s0) = 0"
    using client_ok_new [OF assms(1)] by (simp_all add: view_ok view_account pending_ok_def)
  then have "account (tracked_view s) + of_nat (run_sum split_step split_gives_up evs ?s0)
      = of_nat (sum_list (map split_tracks evs))" and ok: "client_ok (tracked_view s)"
    using split.run_account [of ?s0 evs] split.run_ok [of ?s0 evs] assms(2-4) by (simp_all add: run_sum_const)
  then show ?thesis
    using ok by (simp add: view_account account_def algebra_simps client_ok_def gomap_ok_def tracked_view_def)
qed

theorem split_session_accounting_witness:
  "\<exists>c0. NewClient (\<lambda>_. []) None None [] [] = Inr c0
     \<and> (let s = fold split_step [WriteHalf None [7] TierGuaranteed 0 0, WriteHalf None [8] TierGuaranteed 0 0, TrackHalf 1 5]
           \<lparr>spClient = c0, spPending = []\<rparr>
        in (2 :: u64) = acked (spClient s) + of_nat (length (inflight (spClient s))) + of_nat (length (spPending s)))"
proof -
  obtain c0 where c0: "NewClient (\<lambda>_. []) None None [] [] = Inr c0" by (simp add: NewClient_def Let_def)
  let ?evs = "[WriteHalf None [7] TierGuaranteed 0 0, WriteHalf None [8] TierGuaranteed 0 0, TrackHalf 1 5]"
  have "sum_list (map split_tracks ?evs) = 2" by (simp add: tracked_by_def)
  moreover have "run_sum split_step split_gives_up ?evs \<lparr>spClient = c0, spPending = []\<rparr> = 0" by simp
  moreover have "\<forall>ev \<in> set ?evs. split_ok ev" "sum_list (map split_sends ?evs) < 2 ^ 32" by simp_all
  ultimately show ?thesis
    using split_session_accounting [OF c0, of ?evs] c0 by (simp add: Let_def del: fold_simps split_step.simps)
qed

text \<open>An acknowledgement that arrives before its datagram is tracked matches nothing and is dropped: the
  datagram then enters the map although it has been delivered, and is retransmitted.\<close>

lemma early_ack_dropped:
  assumes "transmit_write None p tr st fl c = (c1, None, Some (k, q))" "is_range rng"
    and "\<forall>e \<in> set (inflight c). \<not> match_wire (pSeq q) st e"
  shows "ackLoop_step rng now (buildPacket pktACK 0 0 (pSeq q) st ci []) c1 = c1
    \<and> map_of (inflight (transmit_track now' (k, q) c1)) k = Some (q\<lparr>pSentAt := now'\<rparr>)"
proof -
  have "find (match_wire (pSeq q) st) (rng (inflight c1)) = None"
    using assms(3) by (simp add: find_range_None [OF assms(2)] transmit_write_fields(1) [OF assms(1)])
  then have none: "processACK rng now (pSeq q) st c1 = (c1, False)" by (simp add: processACK_def)
  have "wire_ids (buildPacket pktACK 0 0 (pSeq q) st ci []) = (pSeq q, st)" by (rule buildPacket_wire_ids)
  with none show ?thesis
    by (simp add: ackLoop_step_def wire_ids_def buildPacket_layout transmit_track_def update_conv')
qed

end
