(* ===== verification/Records.thy ===== *)
theory Records
  imports Prelude
begin

section \<open>Telemetry records\<close>

text \<open>
  The records that components exchange: the storage rows (\<open>storage.Metric\<close>, \<open>storage.Trace\<close>,
  \<open>storage.LogRecord\<close>, with the fields the program reads or writes) and the protobuf messages of
  \<open>pkg/sppv1\<close>, and the conversion between them (\<open>receiver/agenticudp.go\<close>). A nil protobuf timestamp is
  \<open>None\<close>; Go's zero time is \<open>zero_time\<close>.
\<close>

type_synonym labels = "(string, string) gomap"

definition zero_time :: gotime where
  "zero_time = - 62135596800 * second"

record Metric =
  mTimestamp :: gotime
  mServiceName :: string
  mMetricName :: string
  mMetricType :: string
  mValue :: real
  mLabels :: labels
  mTenantID :: string

record Trace =
  tTraceID :: string
  tSpanID :: string
  tParentSpanID :: string
  tServiceName :: string
  tOperationName :: string
  tStartTime :: gotime
  tEndTime :: gotime
  tDurationUS :: int
  tStatusCode :: string
  tSpanKind :: string
  tAttributes :: labels
  tTenantID :: string

record LogRecord =
  lTimestamp :: gotime
  lTenantID :: string
  lTraceID :: string
  lSpanID :: string
  lServiceName :: string
  lSeverityText :: string
  lSeverityNumber :: int
  lBody :: string
  lAttributes :: labels
  lResourceAttrs :: labels

subsection \<open>Protobuf messages\<close>

record PbMetric =
  pmTimestamp :: "gotime option"
  pmServiceName :: string
  pmMetricName :: string
  pmMetricType :: string
  pmValue :: real
  pmLabels :: labels
  pmTenantId :: string

record PbSpan =
  psTraceId :: string
  psSpanId :: string
  psParentSpanId :: string
  psServiceName :: string
  psOperationName :: string
  psStartTime :: "gotime option"
  psEndTime :: "gotime option"
  psDurationUs :: int
  psStatusCode :: string
  psSpanKind :: string
  psAttributes :: labels
  psTenantId :: string

record PbLog =
  plTimestamp :: "gotime option"
  plTenantId :: string
  plTraceId :: string
  plSpanId :: string
  plServiceName :: string
  plSeverityText :: string
  plSeverityNumber :: int
  plBody :: string
  plAttributes :: labels
  plResourceAttrs :: labels

record PbSoftware =
  swName :: string
  swDisplayName :: string
  swCategory :: string
  swMatchedProcesses :: "string list"
  swMatchedPorts :: "int list"
  swMatchedConfigs :: "string list"
  swConfidence :: real
  swLayer :: string
  swCollectStrategy :: string

record PbAgent =
  agName :: string
  agPid :: int
  agCmdline :: string

record LPARInfo =
  lpName :: string
  lpType :: string
  lpSysplexID :: string
  lpCPCSerial :: string

record LegacyDetection =
  ldSource :: string
  ldConfidence :: real
  ldDetails :: labels

record PbFingerprint =
  fpOs :: string
  fpArch :: string
  fpKernel :: string
  fpCloudProvider :: string
  fpHostname :: string
  fpContainerRuntime :: string
  fpPlatform :: string
  fpFingerprintId :: string
  fpConfidence :: real
  fpCollectedAt :: "gotime option"
  fpDurationNs :: int
  fpOpenPorts :: "int list"
  fpProcesses :: "PbAgent list"
  fpDetectedSoftware :: "PbSoftware list"
  fpDetectedAgents :: "PbAgent list"
  fpLparInfo :: "LPARInfo option"
  fpSmfTypes :: "int list"
  fpActiveSubsystems :: "string list"
  fpMqManagers :: "string list"
  fpIndustrialProtos :: "string list"
  fpLegacyDetected :: "LegacyDetection list"

text \<open>\<open>fingerprint.HostFingerprint\<close>; processes, software, agents, LPAR and
  legacy records have the fields of their protobuf counterparts.\<close>

record HostFingerprint =
  hOS :: string
  hArch :: string
  hKernel :: string
  hCloudProvider :: string
  hHostname :: string
  hContainerRuntime :: string
  hPlatform :: string
  hFingerprintID :: string
  hConfidence :: real
  hCollectedAt :: gotime
  hDuration :: duration
  hOpenPorts :: "int list"
  hProcesses :: "PbAgent list"
  hDetectedSoftware :: "PbSoftware list"
  hDetectedAgents :: "PbAgent list"
  hLPARInfo :: "LPARInfo option"
  hSMFTypes :: "int list"
  hActiveSubsystems :: "string list"
  hMQManagers :: "string list"
  hIndustrialProtos :: "string list"
  hLegacyDetected :: "LegacyDetection list"

subsection \<open>Conversion to storage rows\<close>

definition time_or_zero :: "gotime option \<Rightarrow> gotime" where
  "time_or_zero t = (case t of None \<Rightarrow> zero_time | Some t \<Rightarrow> t)"

definition protoMetricsToStorage :: "PbMetric list \<Rightarrow> string \<Rightarrow> Metric list" where
  "protoMetricsToStorage mb tenantID =
     map (\<lambda>m. \<lparr>mTimestamp = time_or_zero (pmTimestamp m), mServiceName = pmServiceName m,
            mMetricName = pmMetricName m, mMetricType = pmMetricType m, mValue = pmValue m,
            mLabels = pmLabels m, mTenantID = tenantID\<rparr>) mb"

definition protoTracesToStorage :: "PbSpan list \<Rightarrow> string \<Rightarrow> Trace list" where
  "protoTracesToStorage tb tenantID =
     map (\<lambda>s. \<lparr>tTraceID = psTraceId s, tSpanID = psSpanId s, tParentSpanID = psParentSpanId s,
            tServiceName = psServiceName s, tOperationName = psOperationName s,
            tStartTime = time_or_zero (psStartTime s), tEndTime = time_or_zero (psEndTime s),
            tDurationUS = psDurationUs s, tStatusCode = psStatusCode s, tSpanKind = psSpanKind s,
            tAttributes = psAttributes s, tTenantID = tenantID\<rparr>) tb"

definition protoLogsToStorage :: "PbLog list \<Rightarrow> string \<Rightarrow> LogRecord list" where
  "protoLogsToStorage lb tenantID =
     map (\<lambda>l. \<lparr>lTimestamp = time_or_zero (plTimestamp l), lTenantID = tenantID, lTraceID = plTraceId l,
            lSpanID = plSpanId l, lServiceName = plServiceName l, lSeverityText = plSeverityText l,
            lSeverityNumber = plSeverityNumber l, lBody = plBody l, lAttributes = plAttributes l,
            lResourceAttrs = plResourceAttrs l\<rparr>) lb"

definition protoFingerprintToHost :: "PbFingerprint \<Rightarrow> HostFingerprint" where
  "protoFingerprintToHost fp =
     \<lparr>hOS = fpOs fp, hArch = fpArch fp, hKernel = fpKernel fp, hCloudProvider = fpCloudProvider fp,
      hHostname = fpHostname fp, hContainerRuntime = fpContainerRuntime fp, hPlatform = fpPlatform fp,
      hFingerprintID = fpFingerprintId fp, hConfidence = fpConfidence fp,
      hCollectedAt = time_or_zero (fpCollectedAt fp), hDuration = fpDurationNs fp,
      hOpenPorts = fpOpenPorts fp, hProcesses = fpProcesses fp,
      hDetectedSoftware = fpDetectedSoftware fp, hDetectedAgents = fpDetectedAgents fp,
      hLPARInfo = None, hSMFTypes = [], hActiveSubsystems = [], hMQManagers = [],
      hIndustrialProtos = [], hLegacyDetected = []\<rparr>"

end
