(* ===== verification/Receiver_Route.thy ===== *)
theory Receiver_Route
  imports Records Wire_Format Client_Config
begin

section \<open>The core receiver: state, routing and storage\<close>

text \<open>
  \<open>receiver/agenticudp.go\<close> behind the packet layer: an accepted payload is decoded (Path B: JSON
  envelope, Path C: protobuf envelope), published to the pipeline, handed to the storage coalescers
  or written to the store, and a fingerprint may trigger an attachment plan whose configuration is
  pushed back later.

  The store, the pipeline, the enricher, the physics engine, the fingerprint and planner packages and
  the codecs are not part of this repository; what they answer is in the environment \<open>rcv_env\<close>. What
  the receiver does to them is the list \<open>actions\<close>, in order. \<open>None\<close> is a run-time panic.
\<close>

subsection \<open>State\<close>

record AgenticUDPStats =
  PacketsReceived :: u64
  PacketsInvalid :: u64
  DatagramsAccepted :: u64
  DatagramsDuped :: u64
  ACKsSent :: u64
  NACKsSent :: u64
  KeepalivesRecv :: u64
  HandshakesRecv :: u64
  MetricsRecv :: u64
  SessionsActive :: nat
  ChecksumFails :: u64
  FragmentsReassembled :: u64
  TraversalDirect :: u64
  TraversalRelay :: u64
  TraversalAuto :: u64
  TraversalUnknown :: u64
  TraversalMode :: string
  PacketsDroppedDisabled :: u64

datatype reply_func = RawUDP | DtlsConn

record udpAddr =
  addrKey :: string
  addrIP :: string

record udpSession =
  sLastSeen :: gotime
  sState :: string
  sHostID :: string
  sNatType :: string
  sTraversal :: string
  sReply :: "reply_func option"

record fragmentBuffer =
  fbParts :: "(u16, bytes) gomap"
  fbLastSeq :: u16
  fbComplete :: bool
  fbCreated :: gotime
  fbStreamID :: u16
  fbFlags :: u8

record storage_Fingerprint =
  sfID :: string
  sfTenant :: string
  sfHost :: string
  sfScope :: string
  sfFingerprintID :: string
  sfData :: bytes
  sfCollectedAt :: gotime

record AgentRegistration =
  arAgentID :: string
  arVersion :: string
  arTenantID :: string
  arScope :: "string list"
  arLastSeenAt :: gotime

record PhysicsState =
  phTimestamp :: gotime
  phEntityID :: string
  phTenantID :: string
  phLayer :: string
  phEntropyRate :: real
  phCoolingCapacity :: real
  phRegime :: string
  phIndicators :: "(string, real) gomap"
  phSource :: string

record StructuredLogRecord =
  slTimestamp :: gotime
  slObservedAt :: gotime
  slServiceName :: string
  slEntityID :: string
  slSeverityText :: string
  slBody :: string
  slAttributes :: labels
  slResource :: labels
  slTenantID :: string
  slFormat :: string

record plan =
  planID :: string
  planFingerprintID :: string
  planTenantID :: string
  planStatus :: string
  planCreatedAt :: gotime
  planConfidences :: "real list"

record AttachmentPlanRecord =
  apID :: string
  apFingerprintID :: string
  apTenantID :: string
  apData :: bytes
  apStatus :: string
  apCreatedAt :: gotime

datatype action =
    PublishMetrics string "Metric list" | PublishTraces string "Trace list" | PublishLogs string "LogRecord list"
  | EnqueueMetrics string "Metric list" | EnqueueTraces string "Trace list" | EnqueueLogs string "LogRecord list"
  | WriteMetrics "Metric list" | WriteTraces "Trace list" | WriteLogs "LogRecord list"
  | EnrichAndStoreMetrics string "Metric list" string
  | WritePhysicsState "PhysicsState list" | UpsertAgentRegistration AgentRegistration
  | AppendStructuredLogs "StructuredLogRecord list"
  | WriteFingerprint storage_Fingerprint | WritePlan AttachmentPlanRecord | UpdatePlanStatus string string string

record Receiver =
  rTenantID :: string
  rConn :: bool
  rPipeline :: bool
  rStore :: bool
  rEngine :: bool
  rEnricher :: bool
  rZcoAutoplan :: bool
  configResponses :: "(string, bytes) gomap"
  traceBatcher :: bool
  metricBatcher :: bool
  logBatcher :: bool
  sessions :: "(string, udpSession) gomap"
  dedup :: "(u32, gotime) gomap"
  fragments :: "(u32, fragmentBuffer) gomap"
  rstats :: AgenticUDPStats
  replies :: "(string \<times> bytes) list"
  actions :: "action list"

text \<open>The environment. \<open>storeErr\<close> tells whether a store operation fails; the decoders return \<open>None\<close> on
  malformed input; \<open>protoUnmarshal\<close> gives the envelope's tenant, signal number and payload.\<close>

datatype proto_payload =
    NoPayload | MetricsPayload "PbMetric list" | TracesPayload "PbSpan list"
  | LogsPayload "PbLog list" | FingerprintPayload PbFingerprint | ConfigPayload

record rcv_env =
  osEnv :: "string \<Rightarrow> string"
  storeErr :: "action \<Rightarrow> bool"
  decodeEnvelope :: "bytes \<Rightarrow> (string \<times> string \<times> bytes) option"
  decodeMetrics :: "bytes \<Rightarrow> Metric list option"
  decodeTraces :: "bytes \<Rightarrow> Trace list option"
  decodeLogs :: "bytes \<Rightarrow> LogRecord list option"
  decodeObject :: "bytes \<Rightarrow> (string, json) gomap option"
  encodeAck :: "string \<Rightarrow> string \<Rightarrow> bytes"
  protoUnmarshal :: "bytes \<Rightarrow> (string \<times> int \<times> proto_payload) option"
  encodeHost :: "HostFingerprint \<Rightarrow> bytes"
  decodeHost :: "bytes \<Rightarrow> HostFingerprint option"
  marshalHost :: "HostFingerprint \<Rightarrow> bytes option"
  otelFingerprintID :: "string \<Rightarrow> PbSoftware list \<Rightarrow> PbAgent list \<Rightarrow> string"
  modernFingerprintID :: "HostFingerprint \<Rightarrow> string"
  latestFingerprint :: "string \<Rightarrow> string \<Rightarrow> string \<Rightarrow> string option"
  randRead16 :: bytes
  marshalPlan :: "plan \<Rightarrow> bytes"
  plannerGenerate :: "HostFingerprint \<Rightarrow> plan"
  plannerExecute :: "plan \<Rightarrow> string list option"
  readFile :: "string \<Rightarrow> bytes option"
  analyze :: "string \<Rightarrow> string \<Rightarrow> (string, real) gomap \<Rightarrow> real \<times> real \<times> string"
  supportedLayers :: "string list"
  entityOrder :: "(string, (string, real) gomap) gomap \<Rightarrow> (string, (string, real) gomap) gomap"
  rNow :: gotime

definition act :: "action \<Rightarrow> Receiver \<Rightarrow> Receiver" where
  "act a r = r\<lparr>actions := actions r @ [a]\<rparr>"

definition zero_stats :: AgenticUDPStats where
  "zero_stats = \<lparr>PacketsReceived = 0, PacketsInvalid = 0, DatagramsAccepted = 0, DatagramsDuped = 0,
     ACKsSent = 0, NACKsSent = 0, KeepalivesRecv = 0, HandshakesRecv = 0, MetricsRecv = 0,
     SessionsActive = 0, ChecksumFails = 0, FragmentsReassembled = 0, TraversalDirect = 0,
     TraversalRelay = 0, TraversalAuto = 0, TraversalUnknown = 0, TraversalMode = [],
     PacketsDroppedDisabled = 0\<rparr>"

definition traversal_env_mode :: "(string \<Rightarrow> string) \<Rightarrow> string" where
  "traversal_env_mode env =
     (let mode = to_lower (trim_space (env ''AGENTICUDP_TRAVERSAL_MODE''))
      in if mode = [] then ''auto'' else mode)"

definition NewAgenticUDPReceiver :: "(string \<Rightarrow> string) \<Rightarrow> string \<Rightarrow> Receiver" where
  "NewAgenticUDPReceiver env tenant =
     \<lparr>rTenantID = tenant, rConn = False, rPipeline = False, rStore = False, rEngine = False,
      rEnricher = False, rZcoAutoplan = False, configResponses = [], traceBatcher = False,
      metricBatcher = False, logBatcher = False, sessions = [], dedup = [], fragments = [],
      rstats = zero_stats\<lparr>TraversalMode := traversal_env_mode env\<rparr>, replies = [], actions = []\<rparr>"

definition SetPipeline :: "Receiver \<Rightarrow> Receiver" where "SetPipeline r = r\<lparr>rPipeline := True\<rparr>"
definition SetStore :: "bool \<Rightarrow> Receiver \<Rightarrow> Receiver" where
  "SetStore engine r = r\<lparr>rStore := True, rEngine := engine\<rparr>"
definition SetZCO :: "bool \<Rightarrow> Receiver \<Rightarrow> Receiver" where
  "SetZCO autoplan r = r\<lparr>rZcoAutoplan := autoplan, configResponses := []\<rparr>"
definition SetEnricher :: "Receiver \<Rightarrow> Receiver" where "SetEnricher r = r\<lparr>rEnricher := True\<rparr>"

definition PendingConfig :: "string \<Rightarrow> Receiver \<Rightarrow> Receiver \<times> bytes option" where
  "PendingConfig hostID r =
     (r\<lparr>configResponses := AList.delete hostID (configResponses r)\<rparr>, map_of (configResponses r) hostID)"

subsection \<open>Writing to the store\<close>

text \<open>The loop that chooses the host entity of a batch; \<open>seen\<close> is the set of services visited.\<close>

fun choose_host :: "Metric list \<Rightarrow> string list \<Rightarrow> string \<Rightarrow> string" where
  "choose_host [] seen host = host"
| "choose_host (m # ms) seen host =
     (let s = mServiceName m
      in if s = [] \<or> s \<in> set seen then choose_host ms seen host
         else choose_host ms (s # seen)
                (if host = [] \<or> (\<not> contains ''/'' s \<and> contains ''/'' host) then s else host))"

definition recordAgentHeartbeatFromMetrics :: "rcv_env \<Rightarrow> string \<Rightarrow> Metric list \<Rightarrow> Receiver \<Rightarrow> Receiver" where
  "recordAgentHeartbeatFromMetrics e tenantID metrics r =
     (if \<not> rStore r \<or> metrics = [] then r
      else let host = choose_host metrics [] []
           in if host = [] then r
              else act (UpsertAgentRegistration
                     \<lparr>arAgentID = host, arVersion = ''agenticudp'', arTenantID = tenantID,
                      arScope = [''metrics''], arLastSeenAt = rNow e\<rparr>) r)"

definition group_by_entity :: "Metric list \<Rightarrow> (string, (string, real) gomap) gomap" where
  "group_by_entity metrics =
     fold (\<lambda>m acc. if mServiceName m = [] then acc
        else AList.update (mServiceName m)
               (AList.update (mMetricName m) (mValue m)
                  (case map_of acc (mServiceName m) of None \<Rightarrow> [] | Some ind \<Rightarrow> ind)) acc) metrics []"

definition physics_states ::
  "rcv_env \<Rightarrow> string \<Rightarrow> (string, (string, real) gomap) gomap \<Rightarrow> PhysicsState list" where
  "physics_states e tenantID byEntity =
     concat (map (\<lambda>(entity, indicators).
       concat (map (\<lambda>layer.
         let (rate, cooling, regime) = analyze e layer entity indicators
         in if rate = 0 \<and> cooling = 0 then []
            else [\<lparr>phTimestamp = rNow e, phEntityID = entity, phTenantID = tenantID, phLayer = layer,
                   phEntropyRate = rate, phCoolingCapacity = cooling, phRegime = regime,
                   phIndicators = indicators, phSource = ''agenticudp_ingest''\<rparr>])
         (supportedLayers e))) (entityOrder e byEntity))"

definition storeMetrics :: "rcv_env \<Rightarrow> string \<Rightarrow> Metric list \<Rightarrow> Receiver \<Rightarrow> Receiver" where
  "storeMetrics e tenantID metrics r =
     (if \<not> rStore r \<or> metrics = [] then r
      else
        let r = recordAgentHeartbeatFromMetrics e tenantID metrics r
        in if rEnricher r then act (EnrichAndStoreMetrics tenantID metrics ''agenticudp_ingest'') r
           else
             let r = act (WriteMetrics metrics) r
             in if storeErr e (WriteMetrics metrics) then r
                else if \<not> rEngine r then r
                else
                  let states = physics_states e tenantID (group_by_entity metrics)
                  in if states \<noteq> [] then act (WritePhysicsState states) r else r)"

definition storeTraces :: "string \<Rightarrow> Trace list \<Rightarrow> Receiver \<Rightarrow> Receiver" where
  "storeTraces tenantID traces r =
     (if \<not> rStore r \<or> traces = [] then r
      else act (WriteTraces
             (map (\<lambda>t. if tTenantID t = [] then t\<lparr>tTenantID := tenantID\<rparr> else t) traces)) r)"

definition storeLogs :: "rcv_env \<Rightarrow> string \<Rightarrow> LogRecord list \<Rightarrow> Receiver \<Rightarrow> Receiver" where
  "storeLogs e tenantID logs r =
     (if \<not> rStore r \<or> logs = [] then r
      else
        let logs = map (\<lambda>l. if lTenantID l = [] then l\<lparr>lTenantID := tenantID\<rparr> else l) logs;
            r = act (WriteLogs logs) r;
            structured = map (\<lambda>l. \<lparr>slTimestamp = lTimestamp l, slObservedAt = rNow e,
                slServiceName = lServiceName l, slEntityID = lServiceName l,
                slSeverityText = lSeverityText l, slBody = lBody l, slAttributes = lAttributes l,
                slResource = lResourceAttrs l, slTenantID = lTenantID l, slFormat = ''agenticudp''\<rparr>) logs
        in act (AppendStructuredLogs structured) r)"

definition enqueueTraces :: "string \<Rightarrow> Trace list \<Rightarrow> Receiver \<Rightarrow> Receiver" where
  "enqueueTraces tenantID traces r =
     (if traces = [] then r
      else if traceBatcher r then act (EnqueueTraces tenantID traces) r
      else storeTraces tenantID traces r)"

definition enqueueMetrics :: "rcv_env \<Rightarrow> string \<Rightarrow> Metric list \<Rightarrow> Receiver \<Rightarrow> Receiver" where
  "enqueueMetrics e tenantID metrics r =
     (if metrics = [] then r
      else if metricBatcher r then act (EnqueueMetrics tenantID metrics) r
      else storeMetrics e tenantID metrics r)"

definition enqueueLogs :: "rcv_env \<Rightarrow> string \<Rightarrow> LogRecord list \<Rightarrow> Receiver \<Rightarrow> Receiver" where
  "enqueueLogs e tenantID logs r =
     (if logs = [] then r
      else if logBatcher r then act (EnqueueLogs tenantID logs) r
      else storeLogs e tenantID logs r)"

subsection \<open>Fingerprints and attachment plans\<close>

abbreviation (input) PlanApproved :: string where "PlanApproved \<equiv> ''approved''"
abbreviation (input) PlanExecuted :: string where "PlanExecuted \<equiv> ''executed''"
abbreviation (input) ScopeModern :: string where "ScopeModern \<equiv> ''modern''"
abbreviation (input) ScopeOTel :: string where "ScopeOTel \<equiv> ''otel''"

definition all_high_confidence :: "plan \<Rightarrow> bool" where
  "all_high_confidence p \<longleftrightarrow> planConfidences p \<noteq> [] \<and> (\<forall>c \<in> set (planConfidences p). \<not> c < 0.7)"

text \<open>Every written file that can be read becomes the pending configuration; the last one wins.\<close>

definition store_configs :: "rcv_env \<Rightarrow> string \<Rightarrow> string list \<Rightarrow> Receiver \<Rightarrow> Receiver" where
  "store_configs e hostID paths r =
     fold (\<lambda>path r. case readFile e path of
             None \<Rightarrow> r
           | Some yaml \<Rightarrow> r\<lparr>configResponses := AList.update hostID yaml (configResponses r)\<rparr>) paths r"

definition plan_record :: "rcv_env \<Rightarrow> string \<Rightarrow> plan \<Rightarrow> AttachmentPlanRecord" where
  "plan_record e tenantID p =
     \<lparr>apID = planID p, apFingerprintID = planFingerprintID p, apTenantID = tenantID,
      apData = marshalPlan e p, apStatus = planStatus p, apCreatedAt = planCreatedAt p\<rparr>"

definition runAutoplan :: "rcv_env \<Rightarrow> string \<Rightarrow> string \<Rightarrow> HostFingerprint \<Rightarrow> Receiver \<Rightarrow> Receiver" where
  "runAutoplan e tenantID hostID fp r =
     (let p = (plannerGenerate e fp)\<lparr>planTenantID := tenantID\<rparr>;
          planRec = plan_record e tenantID p;
          r = act (WritePlan planRec) r
      in if storeErr e (WritePlan planRec) then r
         else if \<not> all_high_confidence p then r
         else
           let approve = UpdatePlanStatus tenantID (planID p) PlanApproved;
               r = act approve r
           in if storeErr e approve then r
              else
                case plannerExecute e (p\<lparr>planStatus := PlanApproved\<rparr>) of
                  None \<Rightarrow> r
                | Some files \<Rightarrow>
                    store_configs e hostID files
                      (act (UpdatePlanStatus tenantID (planID p) PlanExecuted) r))"

text \<open>The session of the sender learns its host name.\<close>

definition attach_host :: "udpAddr option \<Rightarrow> string \<Rightarrow> Receiver \<Rightarrow> Receiver" where
  "attach_host from hostID r =
     (case from of
        None \<Rightarrow> r
      | Some a \<Rightarrow> (case map_of (sessions r) (addrKey a) of
           None \<Rightarrow> r
         | Some s \<Rightarrow> r\<lparr>sessions := AList.update (addrKey a) (s\<lparr>sHostID := hostID\<rparr>) (sessions r)\<rparr>))"

text \<open>A random identifier: the sixteen bytes that \<open>rand.Read\<close> gives, in hexadecimal.\<close>

definition udpRandomID :: "rcv_env \<Rightarrow> string" where
  "udpRandomID e = hex_encode (randRead16 e)"

text \<open>The second half of \<open>handleFingerprintData\<close>: the record is written, the session updated, a plan
  made. \<open>fpID[:12]\<close> in the log line panics when the identifier is shorter than twelve bytes.\<close>

definition write_fingerprint ::
  "rcv_env \<Rightarrow> string \<Rightarrow> string \<Rightarrow> string \<Rightarrow> bool \<Rightarrow> HostFingerprint \<Rightarrow> udpAddr option \<Rightarrow> Receiver
     \<Rightarrow> Receiver option" where
  "write_fingerprint e tenantID hostID scope changed fp from r =
     (case marshalHost e fp of
        None \<Rightarrow> Some r
      | Some fpData \<Rightarrow>
          let rec = WriteFingerprint \<lparr>sfID = udpRandomID e, sfTenant = tenantID, sfHost = hostID, sfScope = scope,
                sfFingerprintID = hFingerprintID fp, sfData = fpData, sfCollectedAt = hCollectedAt fp\<rparr>;
              r = act rec r
          in if storeErr e rec then Some r
             else if length (hFingerprintID fp) < 12 then None
             else
               let r = attach_host from hostID r
               in Some (if rZcoAutoplan r \<and> scope = ScopeOTel \<and> changed
                        then runAutoplan e tenantID hostID fp r else r))"

definition handleFingerprintData ::
  "rcv_env \<Rightarrow> string \<Rightarrow> bytes \<Rightarrow> udpAddr option \<Rightarrow> Receiver \<Rightarrow> Receiver option" where
  "handleFingerprintData e tenantID data from r =
     (if \<not> rStore r then Some r
      else case decodeHost e data of
        None \<Rightarrow> Some r
      | Some fp \<Rightarrow>
          let hostID = (if hHostname fp = [] then ''unknown'' else hHostname fp);
              fp = (if hCollectedAt fp = zero_time then fp\<lparr>hCollectedAt := rNow e\<rparr> else fp);
              scope = (if hDetectedSoftware fp \<noteq> [] then ScopeOTel else ScopeModern);
              fpID = (if scope = ScopeOTel
                      then otelFingerprintID e (hHostname fp) (hDetectedSoftware fp) (hDetectedAgents fp)
                      else modernFingerprintID e fp);
              fp = fp\<lparr>hFingerprintID := fpID\<rparr>;
              changed = (latestFingerprint e tenantID hostID scope \<noteq> Some fpID)
          in write_fingerprint e tenantID hostID scope changed fp from r)"

subsection \<open>Routing\<close>

text \<open>\<open>fmt.Sprintf("%08x", contentID)\<close>\<close>

definition hex8 :: "u32 \<Rightarrow> string" where
  "hex8 v = map (\<lambda>i. hex_digit (unat v div 16 ^ i mod 16)) [7, 6, 5, 4, 3, 2, 1, 0]"

definition publishRawMetric :: "rcv_env \<Rightarrow> PacketHeaderV2 \<Rightarrow> bytes \<Rightarrow> Receiver \<Rightarrow> Receiver" where
  "publishRawMetric e hdr payload r =
     (if \<not> rPipeline r then r
      else act (PublishMetrics (rTenantID r)
             [\<lparr>mTimestamp = rNow e, mServiceName = ''stream-'' @ digits_of (unat (hStreamID hdr)),
               mMetricName = ''agenticudp.raw_datagram'', mMetricType = ''gauge'',
               mValue = real (length payload),
               mLabels = [(''tier'', digits_of (unat (hTier hdr))), (''content_id'', hex8 (hContentID hdr))],
               mTenantID = rTenantID r\<rparr>]) r)"

definition publish :: "action \<Rightarrow> Receiver \<Rightarrow> Receiver" where
  "publish a r = (if rPipeline r then act a r else r)"

abbreviation (input) SIGNAL_TYPE_METRICS :: int where "SIGNAL_TYPE_METRICS \<equiv> 1"
abbreviation (input) SIGNAL_TYPE_TRACES :: int where "SIGNAL_TYPE_TRACES \<equiv> 2"
abbreviation (input) SIGNAL_TYPE_LOGS :: int where "SIGNAL_TYPE_LOGS \<equiv> 3"
abbreviation (input) SIGNAL_TYPE_FINGERPRINT :: int where "SIGNAL_TYPE_FINGERPRINT \<equiv> 4"

definition routeProtoEnvelope ::
  "rcv_env \<Rightarrow> bytes \<Rightarrow> udpAddr option \<Rightarrow> Receiver \<Rightarrow> Receiver option" where
  "routeProtoEnvelope e payload from r =
     (case protoUnmarshal e payload of
        None \<Rightarrow> Some r
      | Some (envTenant, signalType, pl) \<Rightarrow>
          let tenantID = (if envTenant = [] then rTenantID r else envTenant)
          in if signalType = SIGNAL_TYPE_METRICS then
               (case pl of
                  MetricsPayload mb \<Rightarrow>
                    let metrics = protoMetricsToStorage mb tenantID
                    in Some (enqueueMetrics e tenantID metrics (publish (PublishMetrics tenantID metrics) r))
                | _ \<Rightarrow> Some r)
             else if signalType = SIGNAL_TYPE_TRACES then
               (case pl of
                  TracesPayload tb \<Rightarrow>
                    let traces = protoTracesToStorage tb tenantID
                    in Some (enqueueTraces tenantID traces (publish (PublishTraces tenantID traces) r))
                | _ \<Rightarrow> Some r)
             else if signalType = SIGNAL_TYPE_LOGS then
               (case pl of
                  LogsPayload lb \<Rightarrow>
                    let logs = protoLogsToStorage lb tenantID
                    in Some (enqueueLogs e tenantID logs (publish (PublishLogs tenantID logs) r))
                | _ \<Rightarrow> Some r)
             else if signalType = SIGNAL_TYPE_FINGERPRINT then
               (case pl of
                  FingerprintPayload fp \<Rightarrow>
                    handleFingerprintData e tenantID (encodeHost e (protoFingerprintToHost fp)) from r
                | _ \<Rightarrow> Some r)
             else Some r)"

definition routeToQueue ::
  "rcv_env \<Rightarrow> PacketHeaderV2 \<Rightarrow> bytes \<Rightarrow> udpAddr option \<Rightarrow> Receiver \<Rightarrow> Receiver option" where
  "routeToQueue e hdr payload from r =
     (if and (hFlags hdr) flagProtobuf \<noteq> 0 then routeProtoEnvelope e payload from r
      else case decodeEnvelope e payload of
        None \<Rightarrow> Some (publishRawMetric e hdr payload r)
      | Some (signalType, envTenant, data) \<Rightarrow>
          let tenantID = (if envTenant = [] then rTenantID r else envTenant)
          in if signalType = ''metrics'' then
               (case decodeMetrics e data of
                  None \<Rightarrow> Some r
                | Some metrics \<Rightarrow>
                    Some (enqueueMetrics e tenantID metrics (publish (PublishMetrics tenantID metrics) r)))
             else if signalType = ''traces'' then
               (case decodeTraces e data of
                  None \<Rightarrow> Some r
                | Some traces \<Rightarrow>
                    Some (enqueueTraces tenantID traces (publish (PublishTraces tenantID traces) r)))
             else if signalType = ''logs'' then
               (case decodeLogs e data of
                  None \<Rightarrow> Some r
                | Some logs \<Rightarrow>
                    Some (enqueueLogs e tenantID logs (publish (PublishLogs tenantID logs) r)))
             else if signalType = ''fingerprint'' then handleFingerprintData e tenantID data from r
             else Some (publishRawMetric e hdr payload r))"

subsection \<open>Frame of the routing layer\<close>

text \<open>Routing leaves the packet layer alone: the deduplication table, the reassembly buffers, the
  replies, the counters and the set of sessions. It only appends to the list of actions.\<close>

definition route_frame :: "Receiver \<Rightarrow> Receiver \<Rightarrow> bool" where
  "route_frame r r' \<longleftrightarrow> dedup r' = dedup r \<and> fragments r' = fragments r \<and> replies r' = replies r
     \<and> rConn r' = rConn r \<and> rTenantID r' = rTenantID r \<and> rstats r' = rstats r \<and> map fst (sessions r') = map fst (sessions r)
     \<and> (\<exists>as. actions r' = actions r @ as)"

lemma route_frame_refl [simp, frame_simps]: "route_frame r r"
  by (simp add: route_frame_def)

lemma route_frame_trans: "route_frame r s \<Longrightarrow> route_frame s t \<Longrightarrow> route_frame r t"
  by (auto simp: route_frame_def)

lemma route_frame_act: "route_frame r s \<Longrightarrow> route_frame r (act a s)"
  by (auto simp: route_frame_def act_def)

lemma route_frame_publish: "route_frame r s \<Longrightarrow> route_frame r (publish a s)"
  by (simp add: publish_def route_frame_act)

lemma route_frame_heartbeat:
  "route_frame r s \<Longrightarrow> route_frame r (recordAgentHeartbeatFromMetrics e t ms s)"
  by (simp add: recordAgentHeartbeatFromMetrics_def Let_def route_frame_act)

lemma route_frame_store:
  "route_frame r s \<Longrightarrow> route_frame r (storeMetrics e t ms s)"
  "route_frame r s \<Longrightarrow> route_frame r (storeTraces t ts s)"
  "route_frame r s \<Longrightarrow> route_frame r (storeLogs e t ls s)"
  by (simp_all add: storeMetrics_def storeTraces_def storeLogs_def Let_def route_frame_act route_frame_heartbeat)

lemma route_frame_enqueue:
  "route_frame r s \<Longrightarrow> route_frame r (enqueueMetrics e t ms s)"
  "route_frame r s \<Longrightarrow> route_frame r (enqueueTraces t ts s)"
  "route_frame r s \<Longrightarrow> route_frame r (enqueueLogs e t ls s)"
  by (simp_all add: enqueueMetrics_def enqueueTraces_def enqueueLogs_def route_frame_act route_frame_store)

lemma route_frame_configs: "route_frame r s \<Longrightarrow> route_frame r (store_configs e h paths s)"
  unfolding store_configs_def
  by (induction paths arbitrary: s) (auto simp: route_frame_def split: option.splits)

lemma route_frame_autoplan: "route_frame r s \<Longrightarrow> route_frame r (runAutoplan e t h fp s)"
  by (simp add: runAutoplan_def Let_def route_frame_act route_frame_configs split: option.splits)

lemma route_frame_raw: "route_frame r s \<Longrightarrow> route_frame r (publishRawMetric e hdr p s)"
  by (simp add: publishRawMetric_def route_frame_act)

lemma route_frame_attach: "route_frame r s \<Longrightarrow> route_frame r (attach_host from h s)"
proof -
  have "k \<in> set (map fst (sessions s))" if "map_of (sessions s) k = Some v" for k v
    using map_of_SomeD [OF that] by force
  then show "route_frame r s \<Longrightarrow> route_frame r (attach_host from h s)"
    by (simp add: route_frame_def attach_host_def AList.update_keys split: option.splits)
qed

lemmas route_frames = route_frame_act route_frame_publish route_frame_store route_frame_enqueue
  route_frame_autoplan route_frame_raw route_frame_attach

text \<open>The fingerprint package returns identifiers (hexadecimal hashes) of at least twelve bytes.\<close>

definition ids_ok :: "rcv_env \<Rightarrow> bool" where
  "ids_ok e \<longleftrightarrow> (\<forall>h sw ag. 12 \<le> length (otelFingerprintID e h sw ag)) \<and> (\<forall>fp. 12 \<le> length (modernFingerprintID e fp))"

lemma write_fingerprint_returns:
  "12 \<le> length (hFingerprintID fp) \<Longrightarrow> \<exists>r'. write_fingerprint e t h sc ch fp from r = Some r'"
  by (simp add: write_fingerprint_def Let_def split: option.splits)

lemma write_fingerprint_frame:
  "write_fingerprint e t h sc ch fp from r = Some r' \<Longrightarrow> route_frame r r'"
  by (auto simp: write_fingerprint_def Let_def intro!: route_frames split: option.splits if_splits)

lemma handleFingerprintData_returns:
  "ids_ok e \<Longrightarrow> \<exists>r'. handleFingerprintData e t d from r = Some r'"
  unfolding handleFingerprintData_def Let_def
  by (auto simp: ids_ok_def intro!: write_fingerprint_returns split: option.split)

lemma handleFingerprintData_writes:
  "handleFingerprintData e t d from r = Some r
   \<or> (\<exists>h sc ch fp. handleFingerprintData e t d from r = write_fingerprint e t h sc ch fp from r)"
proof (cases "rStore r")
  case True
  then show ?thesis
    unfolding handleFingerprintData_def Let_def
    by (cases "decodeHost e d") (simp_all only: not_True_eq_False if_False option.case simp_thms, blast)
qed (simp add: handleFingerprintData_def)

lemma handleFingerprintData_frame:
  "handleFingerprintData e t d from r = Some r' \<Longrightarrow> route_frame r r'"
  using handleFingerprintData_writes [of e t d "from" r]
  by (metis option.inject route_frame_refl write_fingerprint_frame)

lemma routeProtoEnvelope_frame:
  "routeProtoEnvelope e p from r = Some r' \<Longrightarrow> route_frame r r'"
  by (auto simp: routeProtoEnvelope_def Let_def intro!: route_frames
      dest: handleFingerprintData_frame split: option.splits if_splits proto_payload.splits)

lemma routeToQueue_frame:
  "routeToQueue e hdr p from r = Some r' \<Longrightarrow> route_frame r r'"
  by (auto simp: routeToQueue_def Let_def intro!: route_frames
      dest: handleFingerprintData_frame routeProtoEnvelope_frame split: option.splits if_splits)

lemma routeToQueue_returns:
  assumes "ids_ok e"
  shows "\<exists>r'. routeToQueue e hdr p from r = Some r'"
proof -
  note fp = handleFingerprintData_returns [OF assms]
  have "\<exists>r'. routeProtoEnvelope e p from r = Some r'"
    using fp by (auto simp: routeProtoEnvelope_def Let_def split: option.splits proto_payload.splits)
  with fp show ?thesis by (auto simp: routeToQueue_def Let_def split: option.splits)
qed

subsection \<open>Tenants\<close>

text \<open>What an action names as its tenant; the records of traces, logs and registrations carry it
  themselves, metrics carry what the sender put there.\<close>

fun names_tenant :: "action \<Rightarrow> bool" where
  "names_tenant (PublishMetrics t _) = (t \<noteq> [])"
| "names_tenant (PublishTraces t _) = (t \<noteq> [])"
| "names_tenant (PublishLogs t _) = (t \<noteq> [])"
| "names_tenant (EnqueueMetrics t _) = (t \<noteq> [])"
| "names_tenant (EnqueueTraces t _) = (t \<noteq> [])"
| "names_tenant (EnqueueLogs t _) = (t \<noteq> [])"
| "names_tenant (WriteMetrics _) = True"
| "names_tenant (WriteTraces ts) = (\<forall>x \<in> set ts. tTenantID x \<noteq> [])"
| "names_tenant (WriteLogs ls) = (\<forall>x \<in> set ls. lTenantID x \<noteq> [])"
| "names_tenant (EnrichAndStoreMetrics t _ _) = (t \<noteq> [])"
| "names_tenant (WritePhysicsState ps) = (\<forall>x \<in> set ps. phTenantID x \<noteq> [])"
| "names_tenant (UpsertAgentRegistration x) = (arTenantID x \<noteq> [])"
| "names_tenant (AppendStructuredLogs ls) = (\<forall>x \<in> set ls. slTenantID x \<noteq> [])"
| "names_tenant (WriteFingerprint f) = (sfTenant f \<noteq> [])"
| "names_tenant (WritePlan p) = (apTenantID p \<noteq> [])"
| "names_tenant (UpdatePlanStatus t _ _) = (t \<noteq> [])"

definition tenants_named :: "Receiver \<Rightarrow> bool" where
  "tenants_named r \<longleftrightarrow> (\<forall>a \<in> set (actions r). names_tenant a)"

lemma tenants_act: "tenants_named r \<Longrightarrow> names_tenant a \<Longrightarrow> tenants_named (act a r)"
  by (simp add: tenants_named_def act_def)

lemma tenants_publish: "tenants_named r \<Longrightarrow> names_tenant a \<Longrightarrow> tenants_named (publish a r)"
  by (simp add: publish_def tenants_act)

lemma tenants_store:
  assumes "tenants_named r" "t \<noteq> []"
  shows "tenants_named (storeMetrics e t ms r)" "tenants_named (storeTraces t ts r)"
    "tenants_named (storeLogs e t ls r)"
proof -
  have "names_tenant (WritePhysicsState (physics_states e t m))" for m
    using assms(2) by (auto simp: physics_states_def split: prod.splits if_splits)
  moreover have "tenants_named (recordAgentHeartbeatFromMetrics e t ms r)"
    using assms by (simp add: recordAgentHeartbeatFromMetrics_def Let_def tenants_act)
  ultimately show "tenants_named (storeMetrics e t ms r)"
    using assms by (simp add: storeMetrics_def Let_def tenants_act)
  show "tenants_named (storeTraces t ts r)" "tenants_named (storeLogs e t ls r)"
    using assms by (auto simp: storeTraces_def storeLogs_def Let_def intro!: tenants_act)
qed

lemma tenants_enqueue:
  "tenants_named r \<Longrightarrow> t \<noteq> [] \<Longrightarrow> tenants_named (enqueueMetrics e t ms r)"
  "tenants_named r \<Longrightarrow> t \<noteq> [] \<Longrightarrow> tenants_named (enqueueTraces t ts r)"
  "tenants_named r \<Longrightarrow> t \<noteq> [] \<Longrightarrow> tenants_named (enqueueLogs e t ls r)"
  by (simp_all add: enqueueMetrics_def enqueueTraces_def enqueueLogs_def tenants_act tenants_store)

lemma tenants_configs: "tenants_named (store_configs e h paths r) = tenants_named r"
  unfolding store_configs_def
  by (induction paths arbitrary: r) (auto simp: tenants_named_def split: option.splits)

lemma tenants_fingerprint:
  assumes "handleFingerprintData e t d from r = Some r'" "tenants_named r" "t \<noteq> []"
  shows "tenants_named r'"
proof -
  have plan: "tenants_named (runAutoplan e t h fp s)" if "tenants_named s" for h fp s
    using that assms(3) by (simp add: runAutoplan_def plan_record_def Let_def tenants_act tenants_configs split: option.splits)
  have attach: "tenants_named (attach_host from h s) = tenants_named s" for h s
    by (simp add: attach_host_def tenants_named_def split: option.splits)
  have "tenants_named r'" if "write_fingerprint e t h sc ch fp from r = Some r'" for h sc ch fp
    using that assms(2,3)
    by (auto simp: write_fingerprint_def Let_def attach intro!: plan tenants_act split: option.splits if_splits)
  then show ?thesis
    using handleFingerprintData_writes [of e t d "from" r] assms(1,2) by (metis option.inject)
qed

lemmas tenants_rules = tenants_publish tenants_enqueue

lemma tenants_raw: "tenants_named r \<Longrightarrow> rTenantID r \<noteq> [] \<Longrightarrow> tenants_named (publishRawMetric e hdr p r)"
  by (simp add: publishRawMetric_def tenants_act)

lemma tenants_proto:
  assumes "routeProtoEnvelope e p from r = Some r'" "tenants_named r" "rTenantID r \<noteq> []"
  shows "tenants_named r'"
  using assms
  by (auto simp: routeProtoEnvelope_def Let_def intro!: tenants_rules
      elim!: tenants_fingerprint split: option.splits if_splits proto_payload.splits)

lemma tenants_route:
  assumes "routeToQueue e hdr p from r = Some r'" "tenants_named r" "rTenantID r \<noteq> []"
  shows "tenants_named r'"
  using assms
  by (auto simp: routeToQueue_def Let_def intro!: tenants_rules tenants_raw
      elim!: tenants_fingerprint tenants_proto split: option.splits if_splits)

end
