(* ===== verification/Reassembly.thy ===== *)
theory Reassembly
  imports Wire_Format
begin

section \<open>Fragment reassembly: the contract\<close>

text \<open>
  Two receivers reassemble fragmented datagrams: the core receiver (\<open>addFragment\<close>) and the collector
  receiver (\<open>AddAndMaybeAssemble\<close>). Their common contract is the locale \<open>reassembler\<close>: an abstract view
  of the buffer of a content number (the parts received and the number of the last part), what adding
  a part does to it, and when the payload comes out. Inside the locale it is proved once that the
  parts of a message may arrive in any order. Both receivers interpret the locale.

  Both loops count with a \<open>uint16\<close> up to the last number, so they do not end when the last number is
  65535 and every part is present; the contract says nothing then.
\<close>

definition all_parts :: "(u16 \<rightharpoonup> bytes) \<Rightarrow> u16 \<Rightarrow> bool" where
  "all_parts P l \<longleftrightarrow> (\<forall>i \<le> l. P i \<noteq> None)"

definition joined :: "(u16 \<rightharpoonup> bytes) \<Rightarrow> u16 \<Rightarrow> bytes" where
  "joined P l = concat (map (\<lambda>i. the (P (of_nat i))) [0..<Suc (unat l)])"

subsection \<open>Counting loops over uint16\<close>

lemma u16_le_max: "(i :: u16) \<le> - 1"
  by simp

lemma loop_split:
  fixes s l :: u16
  assumes "s \<le> l" "s \<noteq> - 1"
  shows "(\<forall>i. s \<le> i \<and> i \<le> l \<longrightarrow> Q i) \<longleftrightarrow> Q s \<and> (\<forall>i. s + 1 \<le> i \<and> i \<le> l \<longrightarrow> Q i)"
proof -
  have "s \<le> i \<longleftrightarrow> i = s \<or> s + 1 \<le> i" for i
    using unat_plus_one [OF assms(2)] by (auto simp: word_le_nat_alt word_unat_eq_iff)
  with assms(1) show ?thesis by auto
qed

lemma of_nat_unat_u16: "n \<le> 65535 \<Longrightarrow> unat (of_nat n :: u16) = n"
  by (simp add: unat_of_nat)

text \<open>The parts of a message, numbered from 0.\<close>

definition numbered :: "bytes list \<Rightarrow> (u16 \<times> bytes) list" where
  "numbered ps = map (\<lambda>i. (of_nat i, ps ! i)) [0..<length ps]"

lemma numbered_props:
  assumes "ps \<noteq> []" "length ps \<le> 65535"
  shows "distinct (map fst (numbered ps))"
    and "fst ` set (numbered ps) = {i. i \<le> of_nat (length ps - 1)}"
    and "(of_nat (length ps - 1) :: u16) \<noteq> - 1"
    and "joined (map_of (numbered ps)) (of_nat (length ps - 1)) = concat ps"
    and "length (numbered ps) = length ps"
proof -
  have small: "unat (of_nat i :: u16) = i" if "i < length ps" for i
    using that assms(2) by (intro of_nat_unat_u16) simp
  have inj: "i = j" if "(of_nat i :: u16) = of_nat j" "i < length ps" "j < length ps" for i j
    using that small by metis
  show d: "distinct (map fst (numbered ps))"
    using inj by (auto simp: numbered_def distinct_map intro!: inj_onI)
  show "length (numbered ps) = length ps" by (simp add: numbered_def)
  have l: "unat (of_nat (length ps - 1) :: u16) = length ps - 1" using assms by (intro small) (cases ps; simp)
  have up: "\<exists>j < length ps. i = of_nat j" if "i \<le> of_nat (length ps - 1)" for i :: u16
  proof (intro exI [of _ "unat i"] conjI)
    show "unat i < length ps" using that l assms by (cases ps) (simp_all add: word_le_nat_alt)
  qed simp
  have down: "(of_nat i :: u16) \<le> of_nat (length ps - 1)" if "i < length ps" for i
    using that l small [OF that] by (simp add: word_le_nat_alt)
  have im: "fst ` set (numbered ps) = of_nat ` {..<length ps}"
    by (simp add: numbered_def image_image atLeast0LessThan)
  show "fst ` set (numbered ps) = {i. i \<le> of_nat (length ps - 1)}"
    unfolding im
  proof (intro equalityI subsetI)
    fix x assume "x \<in> {i :: u16. i \<le> of_nat (length ps - 1)}"
    from up [OF this [unfolded mem_Collect_eq]] show "x \<in> of_nat ` {..<length ps}" by auto
  qed (use down in fast)
  show "(of_nat (length ps - 1) :: u16) \<noteq> - 1"
  proof
    assume "(of_nat (length ps - 1) :: u16) = - 1"
    then have "length ps - 1 = 65535" using l by (simp add: unsigned_minus_1_eq_mask mask_eq_exp_minus_1)
    with assms(2) show False by simp
  qed
  have "map_of (numbered ps) (of_nat i) = Some (ps ! i)" if "i < length ps" for i
    using d that by (intro map_of_is_SomeI) (auto simp: numbered_def)
  then have "map (\<lambda>i. the (map_of (numbered ps) (of_nat i))) [0..<length ps] = map (\<lambda>i. ps ! i) [0..<length ps]"
    by simp
  then show "joined (map_of (numbered ps)) (of_nat (length ps - 1)) = concat ps"
    using assms(1) l by (simp add: joined_def map_nth del: upt_Suc)
qed

subsection \<open>Fragment headers\<close>

text \<open>The header of part \<open>q\<close>: any header \<open>h q\<close> with the content and part number, in which the fragment
  flag is set, and the last-fragment flag exactly if \<open>fin\<close>.\<close>

definition frag_header :: "(u16 \<Rightarrow> PacketHeaderV2) \<Rightarrow> u32 \<Rightarrow> u16 \<Rightarrow> bool \<Rightarrow> PacketHeaderV2" where
  "frag_header h c q fin = (h q)\<lparr>hSeq := q, hContentID := c,
     hFlags := (if fin then hFlags (h q) OR flagFragment OR flagLastFragment
                else (hFlags (h q) OR flagFragment) AND NOT flagLastFragment)\<rparr>"

lemma last_fragment_flag:
  "and (hFlags (frag_header h c q fin)) flagLastFragment \<noteq> 0 \<longleftrightarrow> fin"
proof (cases fin)
  case True
  have "bit (and (hFlags (h q) OR flagFragment OR flagLastFragment) flagLastFragment) 5"
    by (simp add: bit_simps)
  then have "and (hFlags (h q) OR flagFragment OR flagLastFragment) flagLastFragment \<noteq> 0" by force
  with True show ?thesis by (simp add: frag_header_def)
next
  case False
  have "and ((hFlags (h q) OR flagFragment) AND NOT flagLastFragment) flagLastFragment = 0"
    by (simp add: and.assoc)
  with False show ?thesis by (simp add: frag_header_def)
qed

lemma fragment_flag: "and (hFlags (frag_header h c q fin)) flagFragment \<noteq> 0"
proof -
  have "bit (and (hFlags (frag_header h c q fin)) flagFragment) 4"
    by (cases fin) (simp_all add: frag_header_def bit_simps)
  then show ?thesis by force
qed

subsection \<open>The interface\<close>

text \<open>Adding the parts of one content number one after the other, collecting the outputs; the part
  numbered \<open>n\<close> carries the last-fragment flag.\<close>

primrec add_all ::
  "(u32 \<Rightarrow> u16 \<Rightarrow> bool \<Rightarrow> bytes \<Rightarrow> 's \<Rightarrow> ('s \<times> bytes option) option) \<Rightarrow> u32 \<Rightarrow> u16
     \<Rightarrow> (u16 \<times> bytes) list \<Rightarrow> 's \<Rightarrow> ('s \<times> bytes option list) option" where
  "add_all add c n [] s = Some (s, [])"
| "add_all add c n (x # xs) s =
     Option.bind (add c (fst x) (fst x = n) (snd x) s) (\<lambda>(s, out).
       Option.bind (add_all add c n xs s) (\<lambda>(s, outs). Some (s, out # outs)))"

text \<open>\<open>inv\<close> is the well-formedness of the buffers. A payload is promised once the parts are exactly
  \<open>0..l\<close>: the collector receiver also counts the parts.\<close>

locale reassembler =
  fixes add :: "u32 \<Rightarrow> u16 \<Rightarrow> bool \<Rightarrow> bytes \<Rightarrow> 's \<Rightarrow> ('s \<times> bytes option) option"
    and inv :: "'s \<Rightarrow> bool"
    and parts_of :: "'s \<Rightarrow> u32 \<Rightarrow> u16 \<rightharpoonup> bytes"
    and last_of :: "'s \<Rightarrow> u32 \<Rightarrow> u16 option"
  assumes add_waits: "inv s \<Longrightarrow> P = (parts_of s c)(q \<mapsto> p) \<Longrightarrow> L = (if fin then Some q else last_of s c) \<Longrightarrow>
      \<not> (\<exists>l. L = Some l \<and> all_parts P l) \<Longrightarrow>
      \<exists>s'. add c q fin p s = Some (s', None) \<and> inv s' \<and> parts_of s' c = P \<and> last_of s' c = L"
    and add_completes: "inv s \<Longrightarrow> P = (parts_of s c)(q \<mapsto> p) \<Longrightarrow> L = (if fin then Some q else last_of s c) \<Longrightarrow>
      L = Some l \<Longrightarrow> l \<noteq> - 1 \<Longrightarrow> all_parts P l \<Longrightarrow> dom P \<subseteq> {i. i \<le> l} \<Longrightarrow>
      \<exists>s' out. add c q fin p s = Some (s', out) \<and> inv s' \<and> parts_of s' c = Map.empty \<and> last_of s' c = None
        \<and> (joined P l \<noteq> [] \<longrightarrow> out = Some (joined P l))"
begin

lemma any_order_gen:
  assumes "distinct (map fst (done @ xs))" "fst ` set (done @ xs) = {i. i \<le> n}" "n \<noteq> - 1" "xs \<noteq> []"
    "parts_of s c = map_of done" "last_of s c = (if n \<in> fst ` set done then Some n else None)"
    "joined (map_of (done @ xs)) n \<noteq> []" "inv s"
  shows "\<exists>s'. add_all add c n xs s = Some (s', replicate (length xs - 1) None @ [Some (joined (map_of (done @ xs)) n)])
    \<and> parts_of s' c = Map.empty \<and> inv s'"
  using assms
proof (induction xs arbitrary: "done" s)
  case (Cons x xs)
  obtain q p where x: "x = (q, p)" by force
  let ?P = "(parts_of s c)(q \<mapsto> p)" and ?L = "if q = n then Some q else last_of s c"
  let ?done = "done @ [(q, p)]"
  have P: "?P = map_of ?done"
    using Cons.prems(1) by (auto simp: x Cons.prems(5) map_add_def fun_eq_iff split: option.splits
        dest: map_of_SomeD intro: rev_image_eqI)
  have L: "?L = (if n \<in> fst ` set ?done then Some n else None)" using Cons.prems(6) by auto
  have same: "map_of (done @ x # xs) = map_of (?done @ xs)" by (simp add: x)
  show ?case
  proof (cases "xs = []")
    case True
    have Ln: "?L = Some n" using L Cons.prems(2) True by (auto simp: x)
    moreover have "all_parts ?P n"
      using Cons.prems(2) True unfolding all_parts_def P
      by (auto simp: x map_of_eq_None_iff)
    moreover have "dom ?P \<subseteq> {i. i \<le> n}"
      using Cons.prems(2) True unfolding P dom_map_of_conv_image_fst by (simp add: x)
    ultimately obtain s' out where "add c q (q = n) p s = Some (s', out)" "inv s'" "parts_of s' c = Map.empty"
      "joined ?P n \<noteq> [] \<longrightarrow> out = Some (joined ?P n)"
      using add_completes [OF Cons.prems(8) refl refl Ln Cons.prems(3)] by blast
    with Cons.prems(7) P True show ?thesis by (auto simp: x)
  next
    case False
    then obtain y where y: "y \<in> set xs" by (cases xs) auto
    have "fst y \<le> n" using Cons.prems(2) y by force
    moreover have "fst y \<notin> fst ` set ?done" using Cons.prems(1) y by (auto simp: x image_iff)
    ultimately have "\<not> (\<exists>l. ?L = Some l \<and> all_parts ?P l)"
      unfolding L P all_parts_def by (auto simp: map_of_eq_None_iff split: if_splits)
    from add_waits [OF Cons.prems(8) refl refl this] obtain s1 where s1: "add c q (q = n) p s = Some (s1, None)"
      "parts_of s1 c = map_of ?done" "last_of s1 c = (if n \<in> fst ` set ?done then Some n else None)" "inv s1"
      using P L by auto
    have "\<exists>s'. add_all add c n xs s1 = Some (s', replicate (length xs - 1) None @ [Some (joined (map_of (?done @ xs)) n)])
        \<and> parts_of s' c = Map.empty \<and> inv s'"
      using Cons.prems(1,2,7) s1(2,3,4) same by (intro Cons.IH Cons.prems(3) False) (auto simp: x)
    moreover have "replicate (length (x # xs) - 1) (None :: bytes option) = None # replicate (length xs - 1) None"
      using False by (cases xs) simp_all
    ultimately show ?thesis using s1(1) same by (auto simp: x)
  qed
qed simp

text \<open>The parts \<open>0..n\<close> of a message, the last of them flagged, may arrive in any order: nothing comes
  out before the last arrival, and then the whole payload, in sequence order.\<close>

lemma any_order:
  assumes "distinct (map fst xs)" "fst ` set xs = {i. i \<le> n}" "n \<noteq> - 1"
    "parts_of s c = Map.empty" "last_of s c = None" "joined (map_of xs) n \<noteq> []" "inv s"
  shows "\<exists>s'. add_all add c n xs s = Some (s', replicate (length xs - 1) None @ [Some (joined (map_of xs) n)])
    \<and> parts_of s' c = Map.empty \<and> inv s'"
proof -
  have "xs \<noteq> []" using assms(2) by force
  with any_order_gen [of "[]" xs n s c] assms show ?thesis by simp
qed

text \<open>In terms of the payloads: the parts of \<open>ps\<close>, numbered from 0, in any arrival order \<open>xs\<close>.\<close>

lemma any_order_concat:
  assumes "mset xs = mset (numbered ps)" "ps \<noteq> []" "length ps \<le> 65535" "concat ps \<noteq> []"
    "parts_of s c = Map.empty" "last_of s c = None" "inv s"
  shows "\<exists>s'. add_all add c (of_nat (length ps - 1)) xs s
      = Some (s', replicate (length ps - 1) None @ [Some (concat ps)]) \<and> parts_of s' c = Map.empty \<and> inv s'"
proof -
  note n = numbered_props [OF assms(2,3)]
  have "distinct (map fst xs)"
    using n(1) mset_eq_imp_distinct_iff [of "map fst xs" "map fst (numbered ps)"] assms(1) by simp
  moreover from this have "map_of xs = map_of (numbered ps)"
    using n(1) assms(1) by (metis map_of_inject_set mset_eq_setD)
  moreover have "length xs = length ps" using assms(1) n(5) mset_eq_length by metis
  moreover have "set xs = set (numbered ps)" using assms(1) by (rule mset_eq_setD)
  ultimately show ?thesis
    using any_order [of xs "of_nat (length ps - 1)" s c] n(2-4) assms(4-7) by simp
qed

end

end
