(* ===== verification/Receiver.thy ===== *)
theory Receiver
  imports Receiver_Route Reassembly
begin

section \<open>The core receiver: packets, sessions, deduplication, reassembly\<close>

text \<open>
  The packet layer of \<open>receiver/agenticudp.go\<close>. Each handler is one step on the receiver: its mutexes
  are taken and released inside. \<open>None\<close> means that the handling goroutine panics or never returns.
  The reply functions append to \<open>replies\<close>; a raw reply needs the UDP socket (\<open>rConn\<close>), which a DTLS
  receiver does not have.
\<close>

subsection \<open>Replies\<close>

definition upd_stats :: "(AgenticUDPStats \<Rightarrow> AgenticUDPStats) \<Rightarrow> Receiver \<Rightarrow> Receiver" where
  "upd_stats f r = r\<lparr>rstats := f (rstats r)\<rparr>"

definition rawUDPReply :: "udpAddr \<Rightarrow> bytes \<Rightarrow> Receiver \<Rightarrow> Receiver" where
  "rawUDPReply to d r = (if rConn r then r\<lparr>replies := replies r @ [(addrKey to, d)]\<rparr> else r)"

definition apply_reply :: "reply_func \<Rightarrow> udpAddr \<Rightarrow> bytes \<Rightarrow> Receiver \<Rightarrow> Receiver" where
  "apply_reply rf to d r =
     (case rf of RawUDP \<Rightarrow> rawUDPReply to d r
      | DtlsConn \<Rightarrow> r\<lparr>replies := replies r @ [(addrKey to, d)]\<rparr>)"

definition sessionReply :: "udpAddr \<Rightarrow> Receiver \<Rightarrow> reply_func" where
  "sessionReply to r =
     (case map_of (sessions r) (addrKey to) of
        Some s \<Rightarrow> (case sReply s of Some rf \<Rightarrow> rf | None \<Rightarrow> RawUDP)
      | None \<Rightarrow> RawUDP)"

definition sendACK :: "u16 \<Rightarrow> u16 \<Rightarrow> u32 \<Rightarrow> udpAddr \<Rightarrow> Receiver \<Rightarrow> Receiver" where
  "sendACK streamID seq contentID to r =
     (let ack = buildPacketV2 pktACK 0 0 seq streamID contentID [];
          r = apply_reply (sessionReply to r) to ack r
      in upd_stats (\<lambda>s. s\<lparr>ACKsSent := ACKsSent s + 1\<rparr>) r)"

subsection \<open>Sessions\<close>

definition touchSession :: "gotime \<Rightarrow> udpAddr \<Rightarrow> Receiver \<Rightarrow> Receiver" where
  "touchSession now from r =
     (let s = (case map_of (sessions r) (addrKey from) of
                 Some s \<Rightarrow> s\<lparr>sLastSeen := now\<rparr>
               | None \<Rightarrow> \<lparr>sLastSeen = now, sState = ''established'', sHostID = [], sNatType = [],
                          sTraversal = [], sReply = None\<rparr>)
      in r\<lparr>sessions := AList.update (addrKey from) s (sessions r)\<rparr>)"

definition chooseTraversalMode :: "(string \<Rightarrow> string) \<Rightarrow> string \<Rightarrow> string" where
  "chooseTraversalMode env natType =
     (let mode = traversal_env_mode env
      in if mode = ''direct'' then ''direct''
         else if mode = ''relay'' then ''relay''
         else if contains ''symmetric'' natType \<or> contains ''restricted'' natType then ''relay''
         else if natType = ''unknown'' \<or> natType = [] then ''auto''
         else ''direct'')"

definition recordTraversalStat :: "string \<Rightarrow> Receiver \<Rightarrow> Receiver" where
  "recordTraversalStat mode r =
     upd_stats (\<lambda>s. if mode = ''direct'' then s\<lparr>TraversalDirect := TraversalDirect s + 1\<rparr>
        else if mode = ''relay'' then s\<lparr>TraversalRelay := TraversalRelay s + 1\<rparr>
        else if mode = ''auto'' then s\<lparr>TraversalAuto := TraversalAuto s + 1\<rparr>
        else s\<lparr>TraversalUnknown := TraversalUnknown s + 1\<rparr>) r"

definition handleHandshake ::
  "rcv_env \<Rightarrow> bytes \<Rightarrow> udpAddr \<Rightarrow> reply_func option \<Rightarrow> Receiver \<Rightarrow> Receiver" where
  "handleHandshake e payload from rf r =
     (let r = upd_stats (\<lambda>s. s\<lparr>HandshakesRecv := HandshakesRecv s + 1\<rparr>) r;
          declaredNAT = (if payload \<noteq> [] then
               (case decodeObject e payload of
                  Some hello \<Rightarrow>
                    (case map_of hello ''nat_type'' of
                       Some (JStr v) \<Rightarrow>
                         (if trim_space v \<noteq> [] then to_lower (trim_space v) else ''unknown'')
                     | _ \<Rightarrow> ''unknown'')
                | None \<Rightarrow> ''unknown'')
             else ''unknown'');
          traversal = chooseTraversalMode (osEnv e) declaredNAT;
          reply = (case rf of Some f \<Rightarrow> f | None \<Rightarrow> RawUDP);
          r = r\<lparr>sessions := AList.update (addrKey from)
                  \<lparr>sLastSeen = rNow e, sState = ''established'', sHostID = [], sNatType = declaredNAT,
                   sTraversal = traversal, sReply = Some reply\<rparr> (sessions r)\<rparr>;
          r = recordTraversalStat traversal r;
          ackPayload = encodeAck e traversal (osEnv e ''AGENTICUDP_RELAY_ENDPOINT'')
      in apply_reply reply from (buildPacketV2 pktHandshake 0 0 0 0 0 ackPayload) r)"

definition pushPendingConfig :: "udpAddr \<Rightarrow> Receiver \<Rightarrow> Receiver" where
  "pushPendingConfig to r =
     (case map_of (sessions r) (addrKey to) of
        None \<Rightarrow> r
      | Some sess \<Rightarrow>
          if sHostID sess = [] then r
          else
            let (r, cfg) = PendingConfig (sHostID sess) r
            in case cfg of
                 None \<Rightarrow> r
               | Some cfg \<Rightarrow>
                   apply_reply (sessionReply to r) to (buildPacketV2 pktConfig TierGuaranteed 0 0 0 0 cfg) r)"

definition handleKeepalive :: "rcv_env \<Rightarrow> udpAddr \<Rightarrow> Receiver \<Rightarrow> Receiver" where
  "handleKeepalive e from r =
     (let r = upd_stats (\<lambda>s. s\<lparr>KeepalivesRecv := KeepalivesRecv s + 1\<rparr>) r;
          r = touchSession (rNow e) from r;
          r = apply_reply (sessionReply from r) from (buildPacketV2 pktKeepalive 0 0 0 0 0 []) r
      in pushPendingConfig from r)"

definition handleFIN :: "udpAddr \<Rightarrow> Receiver \<Rightarrow> Receiver" where
  "handleFIN from r = r\<lparr>sessions := AList.delete (addrKey from) (sessions r)\<rparr>"

subsection \<open>Fragment reassembly\<close>

text \<open>The two loops \<open>for seq := uint16(0); seq <= fb.lastSeq; seq++\<close>. The counter wraps, so that with
  \<open>lastSeq = 65535\<close> and every part present they never end.\<close>

partial_function (option) parts_contiguous :: "(u16, bytes) gomap \<Rightarrow> u16 \<Rightarrow> u16 \<Rightarrow> bool option" where
  "parts_contiguous parts lastSeq seq =
     (if seq \<le> lastSeq
      then (if map_of parts seq = None then Some False else parts_contiguous parts lastSeq (seq + 1))
      else Some True)"

partial_function (option) assemble_parts :: "(u16, bytes) gomap \<Rightarrow> u16 \<Rightarrow> u16 \<Rightarrow> bytes \<Rightarrow> bytes option" where
  "assemble_parts parts lastSeq seq assembled =
     (if seq \<le> lastSeq
      then assemble_parts parts lastSeq (seq + 1)
             (assembled @ (case map_of parts seq of None \<Rightarrow> [] | Some p \<Rightarrow> p))
      else Some assembled)"

text \<open>The buffer after the fragment has been stored and its last-fragment flag noted.\<close>

definition frag_entry :: "gotime \<Rightarrow> PacketHeaderV2 \<Rightarrow> bytes \<Rightarrow> Receiver \<Rightarrow> fragmentBuffer" where
  "frag_entry now hdr payload r =
     (let fb = (case map_of (fragments r) (hContentID hdr) of
                  Some fb \<Rightarrow> fb
                | None \<Rightarrow> \<lparr>fbParts = [], fbLastSeq = 0, fbComplete = False, fbCreated = now,
                           fbStreamID = hStreamID hdr, fbFlags = hFlags hdr\<rparr>);
          fb = fb\<lparr>fbParts := AList.update (hSeq hdr) payload (fbParts fb)\<rparr>
      in if and (hFlags hdr) flagLastFragment \<noteq> 0
         then fb\<lparr>fbLastSeq := hSeq hdr, fbComplete := True\<rparr> else fb)"

text \<open>The result is the reassembled payload, \<open>None\<close> inside while parts are missing. Go's empty slice
  and nil differ: \<open>append\<close> of only empty parts leaves nil, which the caller takes for "waiting".\<close>

definition addFragment ::
  "gotime \<Rightarrow> PacketHeaderV2 \<Rightarrow> bytes \<Rightarrow> Receiver \<Rightarrow> (Receiver \<times> bytes option) option" where
  "addFragment now hdr payload r =
     (let cid = hContentID hdr;
          fb = frag_entry now hdr payload r;
          r = r\<lparr>fragments := AList.update cid fb (fragments r)\<rparr>
      in if \<not> fbComplete fb then Some (r, None)
         else do {
           ok \<leftarrow> parts_contiguous (fbParts fb) (fbLastSeq fb) 0;
           if \<not> ok then Some (r, None)
           else do {
             assembled \<leftarrow> assemble_parts (fbParts fb) (fbLastSeq fb) 0 [];
             let r = upd_stats (\<lambda>s. s\<lparr>FragmentsReassembled := FragmentsReassembled s + 1\<rparr>)
                       (r\<lparr>fragments := AList.delete cid (fragments r)\<rparr>);
             Some (r, if assembled = [] then None else Some assembled) } })"

definition reapStaleFragments :: "gotime \<Rightarrow> Receiver \<Rightarrow> Receiver" where
  "reapStaleFragments now r =
     (let cutoff = now - 30 * second
      in r\<lparr>fragments := filter (\<lambda>e. \<not> fbCreated (snd e) < cutoff) (fragments r)\<rparr>)"

subsection \<open>Deduplication and data\<close>

definition isDuplicate :: "gotime \<Rightarrow> u32 \<Rightarrow> Receiver \<Rightarrow> Receiver \<times> bool" where
  "isDuplicate now contentID r =
     (case map_of (dedup r) contentID of
        Some _ \<Rightarrow> (r, True)
      | None \<Rightarrow> (r\<lparr>dedup := AList.update contentID now (dedup r)\<rparr>, False))"

definition dedupGC_tick :: "gotime \<Rightarrow> Receiver \<Rightarrow> Receiver" where
  "dedupGC_tick now r =
     (let cutoff = now - 60 * second
      in reapStaleFragments now (r\<lparr>dedup := filter (\<lambda>e. \<not> snd e < cutoff) (dedup r)\<rparr>))"

definition sessionGC_tick :: "gotime \<Rightarrow> Receiver \<Rightarrow> Receiver" where
  "sessionGC_tick now r =
     (let cutoff = now - 300 * second
      in r\<lparr>sessions := filter (\<lambda>e. \<not> sLastSeen (snd e) < cutoff) (sessions r)\<rparr>)"

text \<open>The part of \<open>handleData\<close> after reassembly.\<close>

definition accept_data ::
  "rcv_env \<Rightarrow> PacketHeaderV2 \<Rightarrow> bytes \<Rightarrow> udpAddr \<Rightarrow> Receiver \<Rightarrow> Receiver option" where
  "accept_data e hdr payload from r =
     (let (r, dup) = isDuplicate (rNow e) (hContentID hdr) r
      in if dup then Some (upd_stats (\<lambda>s. s\<lparr>DatagramsDuped := DatagramsDuped s + 1\<rparr>) r)
         else
           let r = upd_stats (\<lambda>s. s\<lparr>DatagramsAccepted := DatagramsAccepted s + 1\<rparr>) r
           in if payload \<noteq> [] then routeToQueue e hdr payload (Some from) r else Some r)"

definition handleData ::
  "rcv_env \<Rightarrow> PacketHeaderV2 \<Rightarrow> bytes \<Rightarrow> udpAddr \<Rightarrow> Receiver \<Rightarrow> Receiver option" where
  "handleData e hdr payload from r =
     (let r = touchSession (rNow e) from r;
          r = (if hTier hdr \<noteq> TierBesteff
               then sendACK (hStreamID hdr) (hSeq hdr) (hContentID hdr) from r else r)
      in if and (hFlags hdr) flagFragment \<noteq> 0 then
           do { (r, assembled) \<leftarrow> addFragment (rNow e) hdr payload r;
                case assembled of
                  None \<Rightarrow> Some r
                | Some payload \<Rightarrow> accept_data e hdr payload from r }
         else accept_data e hdr payload from r)"

text \<open>A JSON number decodes to \<open>float64\<close>; every other value, or none, gives zero.\<close>

definition safeFloat :: "json option \<Rightarrow> real" where
  "safeFloat v = (case v of Some (JNum x) \<Rightarrow> x | _ \<Rightarrow> 0)"

definition handleMetrics ::
  "rcv_env \<Rightarrow> bytes \<Rightarrow> udpAddr \<Rightarrow> Receiver \<Rightarrow> Receiver" where
  "handleMetrics e payload from r =
     (let r = upd_stats (\<lambda>s. s\<lparr>MetricsRecv := MetricsRecv s + 1\<rparr>) r;
          r = touchSession (rNow e) from r
      in if rPipeline r \<and> payload \<noteq> [] then
           (case decodeObject e payload of
              None \<Rightarrow> r
            | Some transportMetrics \<Rightarrow>
                let entityID = (case map_of transportMetrics ''entity_id'' of Some (JStr s) \<Rightarrow> s | _ \<Rightarrow> []);
                    entityID = (if entityID = [] then addrIP from else entityID);
                    metrics = [\<lparr>mTimestamp = rNow e, mServiceName = entityID,
                      mMetricName = ''agenticudp.transport_health'', mMetricType = ''gauge'',
                      mValue = safeFloat (map_of transportMetrics ''elasticity_score''),
                      mLabels = [(''source'', ''agenticudp''), (''protocol'', ''agentic-udp'')],
                      mTenantID = rTenantID r\<rparr>]
                in enqueueMetrics e (rTenantID r) metrics (act (PublishMetrics (rTenantID r) metrics) r))
         else r)"

subsection \<open>Packets\<close>

text \<open>\<open>allowed\<close> is what \<open>ingestAllowed\<close> returns (\<open>True\<close> when it is not set).\<close>

definition handlePacketWithReply ::
  "rcv_env \<Rightarrow> bool \<Rightarrow> bytes \<Rightarrow> udpAddr \<Rightarrow> reply_func option \<Rightarrow> Receiver \<Rightarrow> Receiver option" where
  "handlePacketWithReply e allowed data from rf r =
     (if length data < headerSize
      then Some (upd_stats (\<lambda>s. s\<lparr>PacketsInvalid := PacketsInvalid s + 1\<rparr>) r)
      else if data ! 0 \<noteq> protoV2
      then Some (upd_stats (\<lambda>s. s\<lparr>PacketsInvalid := PacketsInvalid s + 1\<rparr>) r)
      else do {
        hdr \<leftarrow> parseHeaderV2 data;
        ok \<leftarrow> verifyChecksum data;
        if \<not> ok then Some (upd_stats (\<lambda>s. s\<lparr>ChecksumFails := ChecksumFails s + 1\<rparr>) r)
        else if \<not> allowed
        then Some (upd_stats (\<lambda>s. s\<lparr>PacketsDroppedDisabled := PacketsDroppedDisabled s + 1\<rparr>) r)
        else
          let payload = drop headerSize data; ty = hType hdr
          in if ty = pktHandshake then Some (handleHandshake e payload from rf r)
             else if ty = pktKeepalive then Some (handleKeepalive e from r)
             else if ty = pktData then handleData e hdr payload from r
             else if ty = pktMetrics then Some (handleMetrics e payload from r)
             else if ty = pktFIN then Some (handleFIN from r)
             else if ty = pktMTUProbe
             then Some (sendACK (hStreamID hdr) (hSeq hdr) (hContentID hdr) from r)
             else Some r })"

definition handlePacket :: "rcv_env \<Rightarrow> bool \<Rightarrow> bytes \<Rightarrow> udpAddr \<Rightarrow> Receiver \<Rightarrow> Receiver option" where
  "handlePacket e allowed data from r = handlePacketWithReply e allowed data from None r"

text \<open>One datagram in the read loops of \<open>startRawUDP\<close> and \<open>serveDTLSConn\<close>.\<close>

definition receive_raw :: "rcv_env \<Rightarrow> bool \<Rightarrow> bytes \<Rightarrow> udpAddr \<Rightarrow> Receiver \<Rightarrow> Receiver option" where
  "receive_raw e allowed data from r =
     handlePacket e allowed (take 65535 data) from
       (upd_stats (\<lambda>s. s\<lparr>PacketsReceived := PacketsReceived s + 1\<rparr>) r)"

definition receive_dtls :: "rcv_env \<Rightarrow> bool \<Rightarrow> bytes \<Rightarrow> udpAddr \<Rightarrow> Receiver \<Rightarrow> Receiver option" where
  "receive_dtls e allowed data from r =
     handlePacketWithReply e allowed (take 65535 data) from (Some DtlsConn)
       (upd_stats (\<lambda>s. s\<lparr>PacketsReceived := PacketsReceived s + 1\<rparr>) r)"

definition receiver_Stats :: "Receiver \<Rightarrow> Receiver \<times> AgenticUDPStats" where
  "receiver_Stats r =
     (let r = upd_stats (\<lambda>s. s\<lparr>SessionsActive := length (sessions r)\<rparr>) r in (r, rstats r))"

subsection \<open>Lemmas: the reassembly loops\<close>

lemma parts_contiguous_eq:
  assumes "l \<noteq> - 1 \<or> (\<exists>i \<ge> s. map_of parts i = None)"
  shows "parts_contiguous parts l s = Some (\<forall>i. s \<le> i \<and> i \<le> l \<longrightarrow> map_of parts i \<noteq> None)"
  using assms
proof (induction "Suc (unat l) - unat s" arbitrary: s)
  case 0
  then have "\<not> s \<le> l" by (simp add: word_le_nat_alt)
  then show ?case by (subst parts_contiguous.simps) auto
next
  case (Suc k)
  then have le: "s \<le> l" by (simp add: word_le_nat_alt)
  show ?case
  proof (cases "map_of parts s = None")
    case True
    with le show ?thesis by (subst parts_contiguous.simps) auto
  next
    case False
    have s: "s \<noteq> - 1"
    proof
      assume "s = - 1"
      with le have "l = - 1" by (simp add: word_order.extremum_unique)
      with Suc.prems \<open>s = - 1\<close> False show False by (auto simp: word_order.extremum_unique)
    qed
    then have u: "unat (s + 1) = Suc (unat s)" by (rule unat_plus_one)
    have nxt: "s + 1 \<le> i" if "s \<le> i" "i \<noteq> s" for i
      using u that by (simp add: word_le_nat_alt word_unat_eq_iff)
    have "l \<noteq> - 1 \<or> (\<exists>i \<ge> s + 1. map_of parts i = None)"
      using Suc.prems False nxt by metis
    with Suc.hyps(1) [of "s + 1"] Suc.hyps(2) u
    have "parts_contiguous parts l (s + 1) = Some (\<forall>i. s + 1 \<le> i \<and> i \<le> l \<longrightarrow> map_of parts i \<noteq> None)"
      by simp
    then show ?thesis
      unfolding loop_split [OF le s, of "\<lambda>i. map_of parts i \<noteq> None"]
      using False le by (subst parts_contiguous.simps) auto
  qed
qed

lemma assemble_parts_eq:
  assumes "l \<noteq> - 1"
  shows "assemble_parts parts l s acc =
    Some (acc @ concat (map (\<lambda>i. case map_of parts (of_nat i) of None \<Rightarrow> [] | Some p \<Rightarrow> p)
      [unat s..<Suc (unat l)]))"
proof (induction "Suc (unat l) - unat s" arbitrary: s acc)
  case 0
  then have "\<not> s \<le> l" by (simp add: word_le_nat_alt)
  with 0 show ?case by (subst assemble_parts.simps) simp
next
  case (Suc k)
  then have le: "s \<le> l" by (simp add: word_le_nat_alt)
  have "s \<noteq> - 1" using le assms by (auto simp: word_order.extremum_unique)
  then have u: "unat (s + 1) = Suc (unat s)" by (rule unat_plus_one)
  have "[unat s..<Suc (unat l)] = unat s # [Suc (unat s)..<Suc (unat l)]"
    using le by (simp add: upt_conv_Cons word_le_nat_alt)
  with Suc.hyps(1) [of "s + 1"] Suc.hyps(2) u le show ?case
    by (subst assemble_parts.simps) simp
qed

text \<open>With the last number 65535 and every part present, the check runs for ever.\<close>

lemma parts_contiguous_diverges:
  assumes "\<forall>i. map_of parts i \<noteq> None"
  shows "parts_contiguous parts (- 1) s = None"
proof (rule ccontr)
  assume "parts_contiguous parts (- 1) s \<noteq> None"
  then obtain y where y: "parts_contiguous parts (- 1) s = Some y" by blast
  have "(\<forall>i. map_of parts i \<noteq> None) \<and> (- 1 :: u16) = - 1 \<longrightarrow> False"
    by (rule parts_contiguous.raw_induct [where P = "\<lambda>parts l s y. (\<forall>i. map_of parts i \<noteq> None) \<and> l = - 1 \<longrightarrow> False", OF _ y])
       (auto split: if_splits)
  with assms show False by simp
qed

subsection \<open>The core receiver implements the reassembly contract\<close>

text \<open>The view of the contract: part \<open>q\<close> arrives at time \<open>now q\<close> with the header \<open>frag_header h c q fin\<close>.\<close>

definition core_add ::
  "(u16 \<Rightarrow> gotime) \<Rightarrow> (u16 \<Rightarrow> PacketHeaderV2) \<Rightarrow> u32 \<Rightarrow> u16 \<Rightarrow> bool \<Rightarrow> bytes \<Rightarrow> Receiver
     \<Rightarrow> (Receiver \<times> bytes option) option" where
  "core_add now h c q fin p r = addFragment (now q) (frag_header h c q fin) p r"

definition core_parts :: "Receiver \<Rightarrow> u32 \<Rightarrow> u16 \<rightharpoonup> bytes" where
  "core_parts r c = (case map_of (fragments r) c of None \<Rightarrow> Map.empty | Some fb \<Rightarrow> map_of (fbParts fb))"

definition core_last :: "Receiver \<Rightarrow> u32 \<Rightarrow> u16 option" where
  "core_last r c = (case map_of (fragments r) c of None \<Rightarrow> None
     | Some fb \<Rightarrow> if fbComplete fb then Some (fbLastSeq fb) else None)"

lemma addFragment_cases:
  fixes now hdr payload r
  defines "fb \<equiv> frag_entry now hdr payload r"
    and "r1 \<equiv> r\<lparr>fragments := AList.update (hContentID hdr) (frag_entry now hdr payload r) (fragments r)\<rparr>"
  shows "\<not> fbComplete fb \<Longrightarrow> addFragment now hdr payload r = Some (r1, None)"
    and "fbComplete fb \<Longrightarrow> \<not> all_parts (map_of (fbParts fb)) (fbLastSeq fb) \<Longrightarrow>
         addFragment now hdr payload r = Some (r1, None)"
    and "fbComplete fb \<Longrightarrow> fbLastSeq fb \<noteq> - 1 \<Longrightarrow> all_parts (map_of (fbParts fb)) (fbLastSeq fb) \<Longrightarrow>
         addFragment now hdr payload r =
           Some (upd_stats (\<lambda>s. s\<lparr>FragmentsReassembled := FragmentsReassembled s + 1\<rparr>)
                   (r1\<lparr>fragments := AList.delete (hContentID hdr) (fragments r1)\<rparr>),
                 let j = joined (map_of (fbParts fb)) (fbLastSeq fb) in if j = [] then None else Some j)"
proof -
  have add: "addFragment now hdr payload r =
      (if \<not> fbComplete fb then Some (r1, None)
       else do {
         ok \<leftarrow> parts_contiguous (fbParts fb) (fbLastSeq fb) 0;
         if \<not> ok then Some (r1, None)
         else do {
           assembled \<leftarrow> assemble_parts (fbParts fb) (fbLastSeq fb) 0 [];
           Some (upd_stats (\<lambda>s. s\<lparr>FragmentsReassembled := FragmentsReassembled s + 1\<rparr>)
                   (r1\<lparr>fragments := AList.delete (hContentID hdr) (fragments r1)\<rparr>),
                 if assembled = [] then None else Some assembled) } })"
    unfolding addFragment_def fb_def r1_def Let_def ..
  show "\<not> fbComplete fb \<Longrightarrow> addFragment now hdr payload r = Some (r1, None)" by (simp add: add)
  show "addFragment now hdr payload r = Some (r1, None)"
    if "fbComplete fb" "\<not> all_parts (map_of (fbParts fb)) (fbLastSeq fb)"
  proof -
    from that(2) obtain i where i: "i \<le> fbLastSeq fb" "map_of (fbParts fb) i = None"
      by (auto simp: all_parts_def)
    then have "parts_contiguous (fbParts fb) (fbLastSeq fb) 0 = Some False"
      by (subst parts_contiguous_eq) auto
    with that(1) show ?thesis by (simp add: add)
  qed
  show "addFragment now hdr payload r =
           Some (upd_stats (\<lambda>s. s\<lparr>FragmentsReassembled := FragmentsReassembled s + 1\<rparr>)
                   (r1\<lparr>fragments := AList.delete (hContentID hdr) (fragments r1)\<rparr>),
                 let j = joined (map_of (fbParts fb)) (fbLastSeq fb) in if j = [] then None else Some j)"
    if "fbComplete fb" "fbLastSeq fb \<noteq> - 1" "all_parts (map_of (fbParts fb)) (fbLastSeq fb)"
  proof -
    have pc: "parts_contiguous (fbParts fb) (fbLastSeq fb) 0 = Some True"
      using that by (subst parts_contiguous_eq) (auto simp: all_parts_def)
    have "(of_nat i :: u16) \<le> fbLastSeq fb" if "i \<in> set [0..<Suc (unat (fbLastSeq fb))]" for i
    proof -
      have "i \<le> 65535" using that unsigned_less [of "fbLastSeq fb", where ?'a = nat] by auto
      then show ?thesis using that unfolding word_le_nat_alt of_nat_unat_u16 [OF \<open>i \<le> 65535\<close>] by auto
    qed
    then have "(case map_of (fbParts fb) (of_nat i) of None \<Rightarrow> [] | Some p \<Rightarrow> p) = the (map_of (fbParts fb) (of_nat i))"
      if "i \<in> set [0..<Suc (unat (fbLastSeq fb))]" for i
      using that \<open>all_parts _ _\<close> unfolding all_parts_def by (metis option.case_eq_if)
    then have "assemble_parts (fbParts fb) (fbLastSeq fb) 0 [] = Some (joined (map_of (fbParts fb)) (fbLastSeq fb))"
      unfolding assemble_parts_eq [OF that(2)] joined_def append_Nil unsigned_0
      by (intro arg_cong [of _ _ Some] arg_cong [of _ _ concat] map_cong refl)
    with that(1) pc show ?thesis by (simp add: add Let_def)
  qed
qed

lemma frag_entry_core:
  "map_of (fbParts (frag_entry t (frag_header h c q fin) p r)) = (core_parts r c)(q \<mapsto> p)"
  "(if fbComplete (frag_entry t (frag_header h c q fin) p r)
    then Some (fbLastSeq (frag_entry t (frag_header h c q fin) p r)) else None)
   = (if fin then Some q else core_last r c)"
proof -
  have f: "hSeq (frag_header h c q fin) = q" "hContentID (frag_header h c q fin) = c"
    by (simp_all add: frag_header_def)
  show "map_of (fbParts (frag_entry t (frag_header h c q fin) p r)) = (core_parts r c)(q \<mapsto> p)"
    by (simp add: frag_entry_def f core_parts_def Let_def update_conv' split: option.splits)
  show "(if fbComplete (frag_entry t (frag_header h c q fin) p r)
      then Some (fbLastSeq (frag_entry t (frag_header h c q fin) p r)) else None)
    = (if fin then Some q else core_last r c)"
    unfolding frag_entry_def Let_def f last_fragment_flag
    by (simp add: core_last_def split: option.splits)
qed

interpretation core_frag: reassembler "core_add now h" "\<lambda>_. True" core_parts core_last for now h
proof
  fix P s c q p L fin
  let ?fb = "frag_entry (now q) (frag_header h c q fin) p s"
  assume P: "P = (core_parts s c)(q \<mapsto> p)" and L: "L = (if fin then Some q else core_last s c)"
  note PL = P [folded frag_entry_core(1) [of "now q" h c q fin p s]]
    L [folded frag_entry_core(2) [of "now q" h c q fin p s]]
  have c: "hContentID (frag_header h c q fin) = c" by (simp add: frag_header_def)
  show "\<exists>s'. core_add now h c q fin p s = Some (s', None) \<and> True \<and> core_parts s' c = P \<and> core_last s' c = L"
    if "\<not> (\<exists>l. L = Some l \<and> all_parts P l)"
  proof -
    have "core_add now h c q fin p s = Some (s\<lparr>fragments := AList.update c ?fb (fragments s)\<rparr>, None)"
      using that addFragment_cases(1,2) [of "now q" "frag_header h c q fin" p s]
      unfolding core_add_def PL c by (cases "fbComplete ?fb") auto
    then show ?thesis using PL by (simp add: core_parts_def core_last_def update_conv')
  qed
  show "\<exists>s' out. core_add now h c q fin p s = Some (s', out) \<and> True \<and> core_parts s' c = Map.empty
        \<and> core_last s' c = None \<and> (joined P l \<noteq> [] \<longrightarrow> out = Some (joined P l))"
    if "L = Some l" "l \<noteq> - 1" "all_parts P l" for l
    using that addFragment_cases(3) [of "now q" "frag_header h c q fin" p s]
    unfolding core_add_def PL c
    by (auto simp: core_parts_def core_last_def upd_stats_def delete_conv' split: if_splits)
qed

subsection \<open>Frames: what the handlers leave alone\<close>

lemma upd_stats_frame [simp]:
  "sessions (upd_stats f r) = sessions r" "dedup (upd_stats f r) = dedup r"
  "fragments (upd_stats f r) = fragments r" "replies (upd_stats f r) = replies r"
  "actions (upd_stats f r) = actions r" "rConn (upd_stats f r) = rConn r"
  "rstats (upd_stats f r) = f (rstats r)" "rTenantID (upd_stats f r) = rTenantID r"
  by (simp_all add: upd_stats_def)

lemma apply_reply_frame [simp]:
  "sessions (apply_reply rf to d r) = sessions r" "dedup (apply_reply rf to d r) = dedup r"
  "fragments (apply_reply rf to d r) = fragments r" "actions (apply_reply rf to d r) = actions r"
  "rConn (apply_reply rf to d r) = rConn r" "rstats (apply_reply rf to d r) = rstats r"
  "rConn r \<Longrightarrow> replies (apply_reply rf to d r) = replies r @ [(addrKey to, d)]"
  by (simp_all add: apply_reply_def rawUDPReply_def split: reply_func.splits)

lemma sendACK_frame [simp]:
  "sessions (sendACK st sq ci to r) = sessions r" "dedup (sendACK st sq ci to r) = dedup r"
  "fragments (sendACK st sq ci to r) = fragments r" "actions (sendACK st sq ci to r) = actions r"
  "rConn (sendACK st sq ci to r) = rConn r"
  "rConn r \<Longrightarrow> replies (sendACK st sq ci to r) = replies r @ [(addrKey to, buildPacket pktACK 0 0 sq st ci [])]"
  "rstats (sendACK st sq ci to r) = (rstats r)\<lparr>ACKsSent := ACKsSent (rstats r) + 1\<rparr>"
  by (simp_all add: sendACK_def buildPacketV2_eq Let_def)

lemma touchSession_frame [simp]:
  "dedup (touchSession t a r) = dedup r" "fragments (touchSession t a r) = fragments r"
  "actions (touchSession t a r) = actions r" "rConn (touchSession t a r) = rConn r"
  "replies (touchSession t a r) = replies r" "rstats (touchSession t a r) = rstats r"
  "gomap_ok (sessions (touchSession t a r)) = gomap_ok (AList.update (addrKey a) undefined (sessions r))"
  by (simp_all add: touchSession_def gomap_ok_def AList.update_keys)

lemma isDuplicate_frame [simp]:
  "sessions (fst (isDuplicate t c r)) = sessions r" "fragments (fst (isDuplicate t c r)) = fragments r"
  "actions (fst (isDuplicate t c r)) = actions r" "rConn (fst (isDuplicate t c r)) = rConn r"
  "replies (fst (isDuplicate t c r)) = replies r" "rstats (fst (isDuplicate t c r)) = rstats r"
  by (simp_all add: isDuplicate_def split: option.splits)

text \<open>A datagram of the client as the read loop sees it.\<close>

definition built_header :: "u8 \<Rightarrow> u8 \<Rightarrow> u8 \<Rightarrow> u16 \<Rightarrow> u16 \<Rightarrow> u32 \<Rightarrow> bytes \<Rightarrow> PacketHeaderV2" where
  "built_header pt tr fl sq st ci p = the (parseHeaderV2 (buildPacket pt tr fl sq st ci p))"

lemma built_header_fields [simp]:
  "hType (built_header pt tr fl sq st ci p) = pt" "hTier (built_header pt tr fl sq st ci p) = tr"
  "hFlags (built_header pt tr fl sq st ci p) = fl" "hSeq (built_header pt tr fl sq st ci p) = sq"
  "hStreamID (built_header pt tr fl sq st ci p) = st" "hContentID (built_header pt tr fl sq st ci p) = ci"
  by (simp_all add: built_header_def parse_buildPacket)

lemma built_first [simp]: "buildPacket pt tr fl sq st ci p ! 0 = 2"
  by (simp add: buildPacket_layout)

lemma receive_built:
  assumes "length p \<le> 65521"
  shows "receive_raw e True (buildPacket pktData tr fl sq st ci p) from r =
    handleData e (built_header pktData tr fl sq st ci p) p from
      (upd_stats (\<lambda>s. s\<lparr>PacketsReceived := PacketsReceived s + 1\<rparr>) r)"
  using assms
  by (simp add: receive_raw_def handlePacket_def handlePacketWithReply_def verify_buildPacket
      parse_buildPacket built_header_def Let_def)

subsection \<open>The invariant\<close>

text \<open>The Go maps have one entry per key, and no buffer has been told that its last part is number
  65535: only then can the reassembly loop run for ever.\<close>

definition frag_ok :: "fragmentBuffer \<Rightarrow> bool" where
  "frag_ok fb \<longleftrightarrow> gomap_ok (fbParts fb) \<and> fbLastSeq fb \<noteq> - 1"

definition rcv_ok :: "Receiver \<Rightarrow> bool" where
  "rcv_ok r \<longleftrightarrow> gomap_ok (sessions r) \<and> gomap_ok (dedup r) \<and> gomap_ok (fragments r)
     \<and> all_vals frag_ok (fragments r)"

definition not_last_65535 :: "PacketHeaderV2 \<Rightarrow> bool" where
  "not_last_65535 hdr \<longleftrightarrow> hSeq hdr \<noteq> - 1 \<or> and (hFlags hdr) flagLastFragment = 0"

lemma frag_entry_ok:
  "all_vals frag_ok (fragments r) \<Longrightarrow> not_last_65535 hdr \<Longrightarrow> frag_ok (frag_entry t hdr p r)"
  by (cases "map_of (fragments r) (hContentID hdr)")
    (auto simp: frag_entry_def frag_ok_def Let_def not_last_65535_def AList.update_Some_unfold
      dest: all_vals_lookup)

lemma addFragment_ok:
  assumes "rcv_ok r" "not_last_65535 hdr"
  shows "\<exists>r' out. addFragment t hdr p r = Some (r', out) \<and> rcv_ok r'
    \<and> sessions r' = sessions r \<and> dedup r' = dedup r \<and> replies r' = replies r \<and> actions r' = actions r
    \<and> rConn r' = rConn r"
proof -
  let ?fb = "frag_entry t hdr p r"
  have fb: "frag_ok ?fb" using assms by (simp add: rcv_ok_def frag_entry_ok)
  then have ok: "rcv_ok (r\<lparr>fragments := AList.update (hContentID hdr) ?fb (fragments r)\<rparr>)"
    "rcv_ok (r\<lparr>fragments := AList.delete (hContentID hdr) (AList.update (hContentID hdr) ?fb (fragments r))\<rparr>)"
    using assms(1) by (simp_all add: rcv_ok_def)
  have "fbLastSeq ?fb \<noteq> - 1" using fb by (simp add: frag_ok_def)
  then show ?thesis
    using addFragment_cases [of t hdr p r] ok
    by (cases "fbComplete ?fb"; cases "all_parts (map_of (fbParts ?fb)) (fbLastSeq ?fb)")
      (simp_all add: rcv_ok_def)
qed

lemma accept_data_dup:
  "map_of (dedup r) (hContentID hdr) = Some t \<Longrightarrow>
   accept_data e hdr p from r = Some (upd_stats (\<lambda>s. s\<lparr>DatagramsDuped := DatagramsDuped s + 1\<rparr>) r)"
  by (simp add: accept_data_def isDuplicate_def)

lemma accept_data_new:
  "map_of (dedup r) (hContentID hdr) = None \<Longrightarrow>
   accept_data e hdr p from r =
     (let r = upd_stats (\<lambda>s. s\<lparr>DatagramsAccepted := DatagramsAccepted s + 1\<rparr>)
                (r\<lparr>dedup := AList.update (hContentID hdr) (rNow e) (dedup r)\<rparr>)
      in if p \<noteq> [] then routeToQueue e hdr p (Some from) r else Some r)"
  by (simp add: accept_data_def isDuplicate_def)

lemma accept_data_returns:
  assumes "ids_ok e"
  shows "\<exists>r'. accept_data e hdr p from r = Some r'"
  using routeToQueue_returns [OF assms]
  by (cases "map_of (dedup r) (hContentID hdr)") (simp_all add: accept_data_dup accept_data_new Let_def)

lemma accept_data_frame:
  assumes "accept_data e hdr p from r = Some r'"
  shows "fragments r' = fragments r" "replies r' = replies r" "rConn r' = rConn r"
    "map fst (sessions r') = map fst (sessions r)"
    "dedup r' = (case map_of (dedup r) (hContentID hdr) of Some _ \<Rightarrow> dedup r
                 | None \<Rightarrow> AList.update (hContentID hdr) (rNow e) (dedup r))"
    "\<exists>as. actions r' = actions r @ as"
proof -
  have "fragments r' = fragments r \<and> replies r' = replies r \<and> rConn r' = rConn r
    \<and> map fst (sessions r') = map fst (sessions r)
    \<and> dedup r' = (case map_of (dedup r) (hContentID hdr) of Some _ \<Rightarrow> dedup r
                 | None \<Rightarrow> AList.update (hContentID hdr) (rNow e) (dedup r))
    \<and> (\<exists>as. actions r' = actions r @ as)"
  proof (cases "map_of (dedup r) (hContentID hdr)")
    case None
    show ?thesis
    proof (cases "p = []")
      case False
      with assms None have "route_frame (upd_stats (\<lambda>s. s\<lparr>DatagramsAccepted := DatagramsAccepted s + 1\<rparr>)
                (r\<lparr>dedup := AList.update (hContentID hdr) (rNow e) (dedup r)\<rparr>)) r'"
        by (auto simp: accept_data_new Let_def dest: routeToQueue_frame)
      with None show ?thesis by (simp add: route_frame_def)
    qed (use assms None in \<open>auto simp: accept_data_new Let_def\<close>)
  qed (use assms in \<open>auto simp: accept_data_dup\<close>)
  then show "fragments r' = fragments r" "replies r' = replies r" "rConn r' = rConn r"
    "map fst (sessions r') = map fst (sessions r)"
    "dedup r' = (case map_of (dedup r) (hContentID hdr) of Some _ \<Rightarrow> dedup r
                 | None \<Rightarrow> AList.update (hContentID hdr) (rNow e) (dedup r))"
    "\<exists>as. actions r' = actions r @ as"
    by blast+
qed

lemma accept_data_ok:
  assumes "accept_data e hdr p from r = Some r'" "rcv_ok r"
  shows "rcv_ok r'"
proof -
  note f = accept_data_frame [OF assms(1)]
  have "gomap_ok (sessions r')" using f(4) assms(2) by (simp add: rcv_ok_def gomap_ok_def)
  moreover have "gomap_ok (dedup r')" using f(5) assms(2) by (simp add: rcv_ok_def split: option.splits)
  ultimately show ?thesis using f(1) assms(2) by (simp add: rcv_ok_def)
qed

lemma rcv_ok_simple [simp]:
  "rcv_ok (upd_stats f r) = rcv_ok r" "rcv_ok (apply_reply rf to d r) = rcv_ok r"
  "rcv_ok (sendACK st sq ci to r) = rcv_ok r"
  by (simp_all add: rcv_ok_def)

lemma rcv_ok_touch [simp]: "rcv_ok r \<Longrightarrow> rcv_ok (touchSession t a r)"
  by (simp add: rcv_ok_def touchSession_def)

lemma handleData_ok:
  assumes "ids_ok e" "rcv_ok r" "not_last_65535 hdr"
  shows "\<exists>r'. handleData e hdr p from r = Some r' \<and> rcv_ok r'"
proof -
  let ?r = "if hTier hdr \<noteq> TierBesteff
    then sendACK (hStreamID hdr) (hSeq hdr) (hContentID hdr) from (touchSession (rNow e) from r)
    else touchSession (rNow e) from r"
  have ok: "rcv_ok ?r" using assms(2) by simp
  have acc: "\<exists>r'. accept_data e hdr q from s = Some r' \<and> rcv_ok r'" if "rcv_ok s" for q s
    using accept_data_returns [OF assms(1)] accept_data_ok that by blast
  obtain s out where add: "addFragment (rNow e) hdr p ?r = Some (s, out)" "rcv_ok s"
    using addFragment_ok [OF ok assms(3)] by blast
  with ok acc show ?thesis
    unfolding handleData_def Let_def by (cases out) simp_all
qed

lemma parse_returns: "headerSize \<le> length d \<Longrightarrow> \<exists>hdr. parseHeaderV2 d = Some hdr"
  by (auto simp: parseHeaderV2_def get_u8_def get_u16_def get_u32_def)

lemma verify_returns: "headerSize \<le> length d \<Longrightarrow> \<exists>b. verifyChecksum d = Some b"
  by (simp add: verifyChecksum_def get_u16_def Let_def)

lemma handleMetrics_frame:
  "dedup (handleMetrics e p a r) = dedup r" "fragments (handleMetrics e p a r) = fragments r"
  "map fst (sessions (handleMetrics e p a r)) = map fst (sessions (touchSession (rNow e) a r))"
  "replies (handleMetrics e p a r) = replies r"
proof -
  have "route_frame (touchSession (rNow e) a (upd_stats (\<lambda>s. s\<lparr>MetricsRecv := MetricsRecv s + 1\<rparr>) r))
      (handleMetrics e p a r)"
    by (simp add: handleMetrics_def Let_def route_frames split: option.splits)
  then show "dedup (handleMetrics e p a r) = dedup r" "fragments (handleMetrics e p a r) = fragments r"
    "map fst (sessions (handleMetrics e p a r)) = map fst (sessions (touchSession (rNow e) a r))"
    "replies (handleMetrics e p a r) = replies r"
    by (simp_all add: route_frame_def) (simp add: touchSession_def AList.update_keys)
qed

lemma PendingConfig_frame [simp]:
  "sessions (fst (PendingConfig h r)) = sessions r" "dedup (fst (PendingConfig h r)) = dedup r"
  "fragments (fst (PendingConfig h r)) = fragments r" "actions (fst (PendingConfig h r)) = actions r"
  by (simp_all add: PendingConfig_def)

lemma pushPendingConfig_frame [simp]:
  "sessions (pushPendingConfig to r) = sessions r" "dedup (pushPendingConfig to r) = dedup r"
  "fragments (pushPendingConfig to r) = fragments r" "actions (pushPendingConfig to r) = actions r"
  by (simp_all add: pushPendingConfig_def PendingConfig_def split: option.splits)

lemma handlers_ok:
  assumes "rcv_ok r"
  shows "rcv_ok (handleHandshake e p a rf r)" "rcv_ok (handleKeepalive e a r)"
    "rcv_ok (handleMetrics e p a r)" "rcv_ok (handleFIN a r)"
    "rcv_ok (dedupGC_tick t r)" "rcv_ok (sessionGC_tick t r)"
proof -
  show "rcv_ok (handleHandshake e p a rf r)"
    using assms by (simp add: handleHandshake_def Let_def recordTraversalStat_def) (simp add: rcv_ok_def)
  show "rcv_ok (handleKeepalive e a r)"
    using assms rcv_ok_touch [of r "rNow e" a]
    by (simp add: handleKeepalive_def Let_def rcv_ok_def touchSession_def)
  show "rcv_ok (handleMetrics e p a r)"
    using rcv_ok_touch [OF assms, of "rNow e" a] handleMetrics_frame [of e p a r] assms
    unfolding rcv_ok_def gomap_ok_def by simp
  show "rcv_ok (handleFIN a r)" "rcv_ok (dedupGC_tick t r)" "rcv_ok (sessionGC_tick t r)"
    using assms by (simp_all add: rcv_ok_def handleFIN_def dedupGC_tick_def sessionGC_tick_def reapStaleFragments_def Let_def)
qed

text \<open>The datagrams for which the reassembly loop surely ends: all those that are not the fragment
  65535 flagged as the last one.\<close>

definition datagram_ok :: "bytes \<Rightarrow> bool" where
  "datagram_ok d \<longleftrightarrow> (case parseHeaderV2 d of None \<Rightarrow> True | Some hdr \<Rightarrow> not_last_65535 hdr)"

lemma handlePacketWithReply_ok:
  assumes "ids_ok e" "rcv_ok r" "datagram_ok d"
  shows "\<exists>r'. handlePacketWithReply e allowed d a rf r = Some r' \<and> rcv_ok r'"
proof (cases "length d < headerSize")
  case False
  then obtain hdr b where hdr: "parseHeaderV2 d = Some hdr" "verifyChecksum d = Some b"
    using parse_returns [of d] verify_returns [of d] by (auto simp: not_less)
  then have "not_last_65535 hdr" using assms(3) by (simp add: datagram_ok_def)
  with hdr show ?thesis
    using False handleData_ok [OF assms(1,2) \<open>not_last_65535 hdr\<close>] handlers_ok [OF assms(2)] assms(2)
    by (simp add: handlePacketWithReply_def Let_def)
qed (use assms(2) in \<open>simp add: handlePacketWithReply_def\<close>)

subsection \<open>Runs\<close>

text \<open>What happens to a receiver: datagrams on the raw socket or on a DTLS connection, the ticks of the
  two collector goroutines, and the poll of a pending configuration.\<close>

datatype rcv_event =
    Datagram rcv_env bool bytes udpAddr | DtlsDatagram rcv_env bool bytes udpAddr
  | DedupTick gotime | SessionTick gotime | PollConfig string

fun rcv_step :: "rcv_event \<Rightarrow> Receiver \<Rightarrow> Receiver option" where
  "rcv_step (Datagram e allowed d a) r = receive_raw e allowed d a r"
| "rcv_step (DtlsDatagram e allowed d a) r = receive_dtls e allowed d a r"
| "rcv_step (DedupTick t) r = Some (dedupGC_tick t r)"
| "rcv_step (SessionTick t) r = Some (sessionGC_tick t r)"
| "rcv_step (PollConfig h) r = Some (fst (PendingConfig h r))"

fun rcv_run :: "rcv_event list \<Rightarrow> Receiver \<Rightarrow> Receiver option" where
  "rcv_run [] r = Some r"
| "rcv_run (ev # evs) r = do { r \<leftarrow> rcv_step ev r; rcv_run evs r }"

fun rcv_event_ok :: "rcv_event \<Rightarrow> bool" where
  "rcv_event_ok (Datagram e _ d _) = (ids_ok e \<and> datagram_ok (take 65535 d))"
| "rcv_event_ok (DtlsDatagram e _ d _) = (ids_ok e \<and> datagram_ok (take 65535 d))"
| "rcv_event_ok _ = True"

lemma rcv_step_ok:
  assumes "rcv_event_ok ev" "rcv_ok r"
  shows "\<exists>r'. rcv_step ev r = Some r' \<and> rcv_ok r'"
proof -
  have "rcv_ok (fst (PendingConfig h r))" for h
    using assms(2) by (simp add: rcv_ok_def)
  then show ?thesis
    using assms handlePacketWithReply_ok [of _ "upd_stats f r" for f] handlers_ok [OF assms(2)]
    by (cases ev) (simp_all add: receive_raw_def receive_dtls_def handlePacket_def)
qed

lemma rcv_run_ok:
  assumes "\<forall>ev \<in> set evs. rcv_event_ok ev" "rcv_ok r"
  shows "\<exists>r'. rcv_run evs r = Some r' \<and> rcv_ok r'"
  using assms
proof (induction evs arbitrary: r)
  case (Cons ev evs)
  then obtain r1 where "rcv_step ev r = Some r1" "rcv_ok r1"
    using rcv_step_ok [of ev r] by auto
  with Cons.IH [of r1] Cons.prems show ?case by simp
qed simp

subsection \<open>Duplicates stay known\<close>

lemma addFragment_frame:
  assumes "addFragment t hdr p r = Some (r', out)"
  shows "dedup r' = dedup r" "replies r' = replies r" "actions r' = actions r" "sessions r' = sessions r"
  using assms by (auto simp: addFragment_def Let_def upd_stats_def split: if_splits bind_splits)

lemma accept_data_keeps:
  "accept_data e hdr p from r = Some r' \<Longrightarrow> map_of (dedup r) c = Some t \<Longrightarrow> map_of (dedup r') c = Some t"
  by (auto simp: accept_data_frame(5) update_conv' split: option.splits)

lemma handleData_keeps:
  assumes "handleData e hdr p from r = Some r'" "map_of (dedup r) c = Some t"
  shows "map_of (dedup r') c = Some t"
proof -
  let ?r = "if hTier hdr \<noteq> TierBesteff
    then sendACK (hStreamID hdr) (hSeq hdr) (hContentID hdr) from (touchSession (rNow e) from r)
    else touchSession (rNow e) from r"
  have d: "dedup ?r = dedup r" by simp
  show ?thesis
  proof (cases "and (hFlags hdr) flagFragment = 0")
    case True
    with assms(1) have "accept_data e hdr p from ?r = Some r'" by (simp add: handleData_def Let_def)
    then show ?thesis using assms(2) d by (metis accept_data_keeps)
  next
    case False
    with assms(1) obtain s out where s: "addFragment (rNow e) hdr p ?r = Some (s, out)"
      "(case out of None \<Rightarrow> Some s | Some q \<Rightarrow> accept_data e hdr q from s) = Some r'"
      by (auto simp: handleData_def Let_def split: bind_splits)
    from addFragment_frame(1) [OF s(1)] assms(2) d have "map_of (dedup s) c = Some t" by simp
    with s(2) show ?thesis by (auto split: option.splits intro: accept_data_keeps)
  qed
qed

lemma packet_keeps:
  assumes "handlePacketWithReply e allowed d a rf r = Some r'" "map_of (dedup r) c = Some t"
  shows "map_of (dedup r') c = Some t"
  using assms
  by (auto simp: handlePacketWithReply_def Let_def handleMetrics_frame handleFIN_def handleHandshake_def
      recordTraversalStat_def handleKeepalive_def intro: handleData_keeps split: if_splits bind_splits)

lemma step_keeps:
  assumes "rcv_step ev r = Some r'" "map_of (dedup r) c = Some t"
    "\<And>now. ev = DedupTick now \<Longrightarrow> now \<le> t + 60 * second"
  shows "map_of (dedup r') c = Some t"
proof (cases ev)
  case (DedupTick now)
  with assms show ?thesis
    by (auto simp: dedupGC_tick_def reapStaleFragments_def Let_def intro!: map_of_filter_keep)
qed (use assms in \<open>auto simp: receive_raw_def receive_dtls_def handlePacket_def sessionGC_tick_def Let_def
      intro: packet_keeps\<close>)

lemma run_keeps:
  "rcv_run evs r = Some r' \<Longrightarrow> map_of (dedup r) c = Some t \<Longrightarrow>
   \<forall>now. DedupTick now \<in> set evs \<longrightarrow> now \<le> t + 60 * second \<Longrightarrow> map_of (dedup r') c = Some t"
proof (induction evs arbitrary: r)
  case (Cons ev evs)
  then obtain r1 where r1: "rcv_step ev r = Some r1" "rcv_run evs r1 = Some r'" by (auto split: bind_splits)
  have "map_of (dedup r1) c = Some t" by (rule step_keeps [OF r1(1) Cons.prems(2)]) (use Cons.prems(3) in auto)
  with Cons.IH [OF r1(2)] Cons.prems(3) show ?case by simp
qed simp

subsection \<open>Tenants along a run\<close>

definition tenancy :: "Receiver \<Rightarrow> bool" where
  "tenancy r \<longleftrightarrow> rTenantID r \<noteq> [] \<and> tenants_named r"

text \<open>The setters called before the receiver starts: pipeline, store, plan generation, enricher, and
  whether the raw socket is open.\<close>

definition setup_rcv :: "bool \<times> bool \<times> bool \<times> bool \<times> bool \<Rightarrow> Receiver \<Rightarrow> Receiver" where
  "setup_rcv parts r =
     (let (conn, pipeline, store, autoplan, enricher) = parts;
          r = r\<lparr>rConn := conn\<rparr>;
          r = (if pipeline then SetPipeline r else r);
          r = (if store then SetStore True r else r);
          r = SetZCO autoplan r
      in if enricher then SetEnricher r else r)"

lemma tenancy_simple [simp]:
  "tenancy (upd_stats f r) = tenancy r" "tenancy (apply_reply rf to d r) = tenancy r"
  "tenancy (sendACK st sq ci to r) = tenancy r" "tenancy (touchSession t a r) = tenancy r"
  "tenancy (handleFIN a r) = tenancy r" "tenancy (dedupGC_tick t r) = tenancy r"
  "tenancy (sessionGC_tick t r) = tenancy r" "tenancy (fst (PendingConfig h r)) = tenancy r"
  by (simp_all add: tenancy_def tenants_named_def upd_stats_def apply_reply_def rawUDPReply_def sendACK_def
      touchSession_def handleFIN_def dedupGC_tick_def reapStaleFragments_def sessionGC_tick_def
      PendingConfig_def Let_def split: reply_func.splits)

lemma tenancy_push [simp]: "tenancy (pushPendingConfig to r) = tenancy r"
proof -
  have "tenancy s = tenancy r" if "PendingConfig h r = (s, cfg)" for h s cfg
    using tenancy_simple(8) [of h r] that by simp
  then show ?thesis by (simp add: pushPendingConfig_def split: option.split prod.split)
qed

lemma tenancy_handshake [simp]: "tenancy (handleHandshake e p a rf r) = tenancy r"
  by (simp add: handleHandshake_def recordTraversalStat_def Let_def)
    (simp add: tenancy_def tenants_named_def)

lemma tenancy_keepalive [simp]: "tenancy (handleKeepalive e a r) = tenancy r"
  by (simp add: handleKeepalive_def Let_def)

lemma tenancy_route: "routeToQueue e hdr p from r = Some r' \<Longrightarrow> tenancy r \<Longrightarrow> tenancy r'"
  using tenants_route routeToQueue_frame by (auto simp: tenancy_def route_frame_def)

lemma tenancy_accept: "accept_data e hdr p from r = Some r' \<Longrightarrow> tenancy r \<Longrightarrow> tenancy r'"
proof (cases "map_of (dedup r) (hContentID hdr)")
  case None
  have d: "tenancy (r\<lparr>dedup := m\<rparr>) = tenancy r" for m by (simp add: tenancy_def tenants_named_def)
  show "accept_data e hdr p from r = Some r' \<Longrightarrow> tenancy r \<Longrightarrow> tenancy r'"
    by (auto simp: accept_data_new [OF None] Let_def d intro: tenancy_route split: if_splits)
qed (auto simp: accept_data_dup)

lemma tenancy_metrics: "tenancy r \<Longrightarrow> tenancy (handleMetrics e p a r)"
proof -
  have e: "tenancy (enqueueMetrics e t ms (act (PublishMetrics t ms) s))" if "tenancy s" "t \<noteq> []" for t ms s
  proof -
    have "route_frame s (enqueueMetrics e t ms (act (PublishMetrics t ms) s))" by (simp add: route_frames)
    with that show ?thesis by (simp add: tenancy_def route_frame_def tenants_enqueue tenants_act)
  qed
  assume "tenancy r"
  moreover have "rTenantID (touchSession t a s) = rTenantID s" for t s by (simp add: touchSession_def)
  ultimately show ?thesis
    by (auto simp: handleMetrics_def Let_def tenancy_def [of r] intro!: e split: option.splits)
qed

lemma tenancy_packet:
  assumes "handlePacketWithReply e allowed d a rf r = Some r'" "tenancy r"
  shows "tenancy r'"
proof -
  have add: "tenancy s'" if "addFragment t hdr p s = Some (s', out)" "tenancy s" for t hdr p s s' out
    using that by (auto simp: addFragment_def Let_def upd_stats_def tenancy_def tenants_named_def split: if_splits bind_splits)
  have "tenancy r'" if "handleData e hdr p a r = Some r'" for hdr p
    using that assms(2)
    by (auto simp: handleData_def Let_def dest!: add intro: tenancy_accept split: if_splits bind_splits option.splits)
  with assms show ?thesis
    by (auto simp: handlePacketWithReply_def Let_def intro: tenancy_metrics split: if_splits bind_splits)
qed

lemma run_tenancy:
  assumes "tenancy r" "rcv_run evs r = Some r'"
  shows "tenancy r'"
  using assms
proof (induction evs arbitrary: r)
  case (Cons ev evs)
  then obtain r1 where r1: "rcv_step ev r = Some r1" "rcv_run evs r1 = Some r'" by (auto split: bind_splits)
  then have "tenancy r1" using Cons.prems(1)
    by (cases ev) (auto simp: receive_raw_def receive_dtls_def handlePacket_def intro: tenancy_packet)
  with Cons.IH r1(2) show ?case by blast
qed simp

text \<open>The socket stays open.\<close>

lemma rConn_data:
  assumes "handleData e hdr p from r = Some r'"
  shows "rConn r' = rConn r"
proof -
  have add: "rConn s' = rConn s" if "addFragment t hdr p s = Some (s', out)" for t hdr p s s' out
    using that by (auto simp: addFragment_def Let_def split: if_splits bind_splits)
  show ?thesis
    using assms
    by (auto simp: handleData_def Let_def dest!: add accept_data_frame(3) split: if_splits bind_splits option.splits)
qed

lemma rConn_raw:
  "receive_raw e True (buildPacket pktData tr fl sq st ci p) a r = Some r' \<Longrightarrow> length p \<le> 65521 \<Longrightarrow> rConn r' = rConn r"
  by (auto simp: receive_built dest: rConn_data)

text \<open>Every reliable datagram is acknowledged.\<close>

lemma core_acks:
  assumes "tr \<noteq> TierBesteff" "length p \<le> 65521" "rConn r" "rcv_ok r" "ids_ok e"
    "sq \<noteq> - 1 \<or> and fl flagLastFragment = 0"
  shows "\<exists>r'. receive_raw e True (buildPacket pktData tr fl sq st ci p) a r = Some r'
    \<and> replies r' = replies r @ [(addrKey a, buildPacketV2 pktACK 0 0 sq st ci [])]
    \<and> addrKey a \<in> fst ` set (sessions r')"
proof -
  let ?hdr = "built_header pktData tr fl sq st ci p"
  let ?r0 = "upd_stats (\<lambda>s. s\<lparr>PacketsReceived := PacketsReceived s + 1\<rparr>) r"
  let ?r1 = "sendACK st sq ci a (touchSession (rNow e) a ?r0)"
  have r1: "rcv_ok ?r1" "replies ?r1 = replies r @ [(addrKey a, buildPacket pktACK 0 0 sq st ci [])]"
    using assms by simp_all
  have in1: "addrKey a \<in> fst ` set (sessions ?r1)" by (simp add: touchSession_def dom_update)
  have acc: "\<exists>r'. accept_data e ?hdr q a s = Some r' \<and> replies r' = replies s
      \<and> fst ` set (sessions r') = fst ` set (sessions s)" for q s
    using accept_data_returns [OF assms(5), of ?hdr q a s] accept_data_frame(2,4)
    by (metis list.set_map)
  have "not_last_65535 ?hdr" using assms(6) by (simp add: not_last_65535_def)
  from addFragment_ok [OF r1(1) this, of "rNow e" p] obtain s out where s:
    "addFragment (rNow e) ?hdr p ?r1 = Some (s, out)" "sessions s = sessions ?r1" "replies s = replies ?r1"
    by blast
  have "\<exists>r'. handleData e ?hdr p a ?r0 = Some r' \<and> replies r' = replies ?r1
      \<and> fst ` set (sessions r') = fst ` set (sessions ?r1)"
    using assms(1) acc [of p ?r1] acc [of _ s] s unfolding handleData_def Let_def by (cases out) auto
  then show ?thesis using r1 in1 by (auto simp: receive_built [OF assms(2)] buildPacketV2_eq)
qed

lemma core_dedups:
  assumes len: "length p \<le> 65521" "length p' \<le> 65521" and unfrag: "and fl flagFragment = 0"
    and first: "map_of (dedup r) ci = None"
      "receive_raw e True (buildPacket pktData tr fl sq st ci p) a r = Some r1"
    and between: "rcv_run evs r1 = Some r2" "\<forall>now. DedupTick now \<in> set evs \<longrightarrow> now \<le> rNow e + 60 * second"
  shows "\<exists>r3. receive_raw e' True (buildPacket pktData tr fl sq st ci p') a r2 = Some r3
    \<and> actions r3 = actions r2 \<and> dedup r3 = dedup r2 \<and> fragments r3 = fragments r2
    \<and> DatagramsAccepted (rstats r3) = DatagramsAccepted (rstats r2)
    \<and> DatagramsDuped (rstats r3) = DatagramsDuped (rstats r2) + 1
    \<and> (tr \<noteq> TierBesteff \<and> rConn r2 \<longrightarrow>
         replies r3 = replies r2 @ [(addrKey a, buildPacketV2 pktACK 0 0 sq st ci [])])"
proof -
  let ?r = "\<lambda>e r. touchSession (rNow e) a (upd_stats (\<lambda>s. s\<lparr>PacketsReceived := PacketsReceived s + 1\<rparr>) r)"
  let ?s = "\<lambda>e r. if tr \<noteq> TierBesteff then sendACK st sq ci a (?r e r) else ?r e r"
  have recv: "receive_raw e True (buildPacket pktData tr fl sq st ci p) a r =
      accept_data e (built_header pktData tr fl sq st ci p) p a (?s e r)" if "length p \<le> 65521" for e p r
    using unfrag unfolding receive_built [OF that] handleData_def Let_def by simp
  have "accept_data e (built_header pktData tr fl sq st ci p) p a (?s e r) = Some r1"
    using first(2) recv [OF len(1)] by simp
  from accept_data_frame(5) [OF this] have "map_of (dedup r1) ci = Some (rNow e)"
    using first(1) by (simp add: update_conv')
  from run_keeps [OF between(1) this between(2)]
  have "map_of (dedup (?s e' r2)) (hContentID (built_header pktData tr fl sq st ci p')) = Some (rNow e)" by simp
  from accept_data_dup [OF this, of e' p' a] show ?thesis
    unfolding recv [OF len(2)] by (simp add: buildPacketV2_eq)
qed

subsection \<open>A concrete environment\<close>

text \<open>For the concrete instances: no variable set, a store that never fails, every decoder rejecting
  its input, fingerprint identifiers of twelve characters.\<close>

definition sample_rcv_env :: "gotime \<Rightarrow> rcv_env" where
  "sample_rcv_env t = \<lparr>osEnv = (\<lambda>_. []), storeErr = (\<lambda>_. False), decodeEnvelope = (\<lambda>_. None),
     decodeMetrics = (\<lambda>_. None), decodeTraces = (\<lambda>_. None), decodeLogs = (\<lambda>_. None),
     decodeObject = (\<lambda>_. None), encodeAck = (\<lambda>_ _. []), protoUnmarshal = (\<lambda>_. None),
     encodeHost = (\<lambda>_. []), decodeHost = (\<lambda>_. None), marshalHost = (\<lambda>_. None),
     otelFingerprintID = (\<lambda>_ _ _. ''0123456789ab''), modernFingerprintID = (\<lambda>_. ''0123456789ab''),
     latestFingerprint = (\<lambda>_ _ _. None),
     randRead16 = replicate 16 0, marshalPlan = (\<lambda>_. []),
     plannerGenerate = (\<lambda>_. \<lparr>planID = [], planFingerprintID = [], planTenantID = [], planStatus = [],
       planCreatedAt = 0, planConfidences = []\<rparr>),
     plannerExecute = (\<lambda>_. None), readFile = (\<lambda>_. None), analyze = (\<lambda>_ _ _. (0, 0, [])),
     supportedLayers = [], entityOrder = (\<lambda>m. m), rNow = t\<rparr>"

definition sample_rcv :: Receiver where
  "sample_rcv = SetPipeline (NewAgenticUDPReceiver (\<lambda>_. []) ''t1'')\<lparr>rConn := True\<rparr>"

definition sample_addr :: udpAddr where
  "sample_addr = \<lparr>addrKey = ''10.0.0.1:4001'', addrIP = ''10.0.0.1''\<rparr>"

lemma new_receiver_ok: "rcv_ok (NewAgenticUDPReceiver env tenant)"
  by (simp add: rcv_ok_def NewAgenticUDPReceiver_def)

lemma sample_ok: "ids_ok (sample_rcv_env t)" "rcv_ok sample_rcv" "rConn sample_rcv"
  by (simp_all add: ids_ok_def sample_rcv_env_def sample_rcv_def SetPipeline_def rcv_ok_def NewAgenticUDPReceiver_def)

lemma built_datagram_ok:
  "sq \<noteq> - 1 \<or> and fl flagLastFragment = 0 \<Longrightarrow> datagram_ok (buildPacket pt tr fl sq st ci p)"
  by (simp add: datagram_ok_def parse_buildPacket not_last_65535_def)

subsection \<open>Properties\<close>

text \<open>Property C10. The receiver handles every sequence of datagrams, keep-alives and collector ticks
  without a panic and without getting stuck, and keeps its maps well formed, provided that no
  datagram is the fragment number 65535 flagged as the last one (see the next property) and that
  fingerprint identifiers have at least twelve bytes.\<close>

theorem receiver_run_total:
  assumes "\<forall>ev \<in> set evs. rcv_event_ok ev"
    and "r0 = NewAgenticUDPReceiver env tenant \<or> rcv_ok r0"
  shows "\<exists>r. rcv_run evs r0 = Some r \<and> rcv_ok r"
  using rcv_run_ok [OF assms(1), of r0] assms(2) new_receiver_ok by blast

theorem receiver_run_total_witness:
  "\<exists>r. rcv_run [Datagram (sample_rcv_env 5) True (buildPacket pktData 0 0 1 0 7 [1, 2]) sample_addr, DedupTick 9]
     (NewAgenticUDPReceiver (\<lambda>_. []) ''t1'') = Some r \<and> rcv_ok r"
  by (rule receiver_run_total) (simp_all add: sample_ok built_datagram_ok new_receiver_ok)

text \<open>Property C40. When the fragment 65535 is flagged as the last one and every part is present, the
  reassembly loop never ends (its \<open>uint16\<close> counter wraps), with the fragment lock held.\<close>

theorem last_fragment_65535_hangs:
  assumes "fbComplete (frag_entry now hdr payload r)" "fbLastSeq (frag_entry now hdr payload r) = - 1"
    "\<forall>i. map_of (fbParts (frag_entry now hdr payload r)) i \<noteq> None"
  shows "addFragment now hdr payload r = None"
  using assms parts_contiguous_diverges [OF assms(3), of 0] by (simp add: addFragment_def Let_def)

definition all_fragments :: fragmentBuffer where
  "all_fragments = \<lparr>fbParts = map (\<lambda>i. (of_nat i, [])) [0..<65536], fbLastSeq = 0, fbComplete = False,
     fbCreated = 0, fbStreamID = 0, fbFlags = 16\<rparr>"

lemma all_fragments_present: "map_of (fbParts all_fragments) i \<noteq> None"
proof -
  have "unat i \<in> set [0..<65536]" using unsigned_less [of i, where ?'a = nat] by simp
  then have "(i, []) \<in> set (fbParts all_fragments)"
    unfolding all_fragments_def by (auto intro!: image_eqI [of _ _ "unat i"] simp del: set_upt)
  then show ?thesis by (auto dest: weak_map_of_SomeI)
qed

theorem last_fragment_65535_hangs_witness:
  "addFragment 0 (built_header pktData 0 48 (- 1) 0 7 []) [1] (sample_rcv\<lparr>fragments := [(7, all_fragments)]\<rparr>) = None"
  by (rule last_fragment_65535_hangs)
    (simp_all add: frag_entry_def Let_def update_conv' all_fragments_present [simplified])

text \<open>Property C11. Every reliable datagram of the client is acknowledged, whatever it carries and whether
  it is new, a duplicate or a fragment: the receiver answers with exactly one ACK that repeats the
  sequence, stream and content numbers, and the sender has a session afterwards.\<close>

theorem reliable_datagram_acked:
  assumes "tr \<noteq> TierBesteff" "length p \<le> 65521" "rConn r" "rcv_ok r" "ids_ok e"
    "sq \<noteq> - 1 \<or> and fl flagLastFragment = 0"
  shows "\<exists>r'. receive_raw e True (buildPacket pktData tr fl sq st ci p) a r = Some r'
    \<and> replies r' = replies r @ [(addrKey a, buildPacketV2 pktACK 0 0 sq st ci [])]
    \<and> addrKey a \<in> fst ` set (sessions r')"
  by (rule core_acks [OF assms])

theorem reliable_datagram_acked_witness:
  "\<exists>r'. receive_raw (sample_rcv_env 5) True (buildPacket pktData 0 0 3 1 7 [1, 2]) sample_addr sample_rcv = Some r'
    \<and> replies r' = replies sample_rcv @ [(addrKey sample_addr, buildPacketV2 pktACK 0 0 3 1 7 [])]
    \<and> addrKey sample_addr \<in> fst ` set (sessions r')"
  by (rule reliable_datagram_acked) (simp_all add: sample_ok)



text \<open>Property C17. A client datagram damaged in one byte has no effect on the receiver beyond its
  counters: no reply, no session, no record, no entry in the duplicate table.\<close>

theorem corrupted_datagram_no_effect:
  assumes "length p \<le> 65521" "i < headerSize + length p" "b \<noteq> buildPacket pt tr fl sq st ci p ! i"
  shows "\<exists>r'. receive_raw e allowed ((buildPacket pt tr fl sq st ci p)[i := b]) a r = Some r'
    \<and> r'\<lparr>rstats := rstats r\<rparr> = r"
proof -
  let ?d = "(buildPacket pt tr fl sq st ci p)[i := b]"
  have verify: "verifyChecksum ?d = Some False"
    using assms by (intro corrupted_byte_rejected) (simp_all add: verify_buildPacket)
  obtain hdr where "parseHeaderV2 ?d = Some hdr" using parse_returns [of ?d] by auto
  with verify assms(1) show ?thesis
    by (auto simp: receive_raw_def handlePacket_def handlePacketWithReply_def upd_stats_def)
qed

theorem corrupted_datagram_no_effect_witness:
  "\<exists>r'. receive_raw (sample_rcv_env 5) True ((buildPacket pktData 0 0 3 1 7 [1, 2])[0 := 9]) sample_addr sample_rcv = Some r'
    \<and> r'\<lparr>rstats := rstats sample_rcv\<rparr> = sample_rcv"
  by (rule corrupted_datagram_no_effect) simp_all

text \<open>Version 3 datagrams are not understood by the core receiver: each of them is counted
  as invalid and dropped without an acknowledgement.\<close>

theorem v3_datagram_dropped:
  "receive_raw e allowed (buildPacketV3 pt tr fl sq st mi fo ft ci p) a r =
     Some (upd_stats (\<lambda>s. s\<lparr>PacketsReceived := PacketsReceived s + 1, PacketsInvalid := PacketsInvalid s + 1\<rparr>) r)"
proof -
  have "buildPacketV3 pt tr fl sq st mi fo ft ci p ! 0 = 3" by (simp add: buildPacketV3_layout Let_def)
  then show ?thesis
    by (simp add: receive_raw_def handlePacket_def handlePacketWithReply_def upd_stats_def)
qed

text \<open>Property C15. The core receiver reassembles a fragmented payload whatever the order in which the
  fragments arrive: nothing comes out before the last arrival, then the payload in sequence order,
  and the buffer is released. It holds for every number of fragments up to 65535.\<close>

theorem core_reassembly_any_order:
  assumes "mset xs = mset (numbered ps)" "ps \<noteq> []" "length ps \<le> 65535" "concat ps \<noteq> []"
    "map_of (fragments r) c = None"
  shows "\<exists>r'. add_all (core_add now h) c (of_nat (length ps - 1)) xs r
      = Some (r', replicate (length ps - 1) None @ [Some (concat ps)]) \<and> core_parts r' c = Map.empty"
  using core_frag.any_order_concat [OF assms(1-4), of r c now h]
  by (simp add: core_parts_def core_last_def assms(5))

theorem core_reassembly_any_order_witness:
  "\<exists>r'. add_all (core_add (\<lambda>_. 0) (\<lambda>_. built_header 1 0 0 0 0 0 [])) 7 (of_nat 2) [(2, [30]), (0, [10, 11]), (1, [20])] sample_rcv
     = Some (r', [None, None, Some [10, 11, 20, 30]]) \<and> core_parts r' 7 = Map.empty"
  using core_reassembly_any_order [of "[(2, [30]), (0, [10, 11]), (1, [20])]" "[[10, 11], [20], [30]]"
      sample_rcv 7 "\<lambda>_. 0" "\<lambda>_. built_header 1 0 0 0 0 0 []"]
  by (simp add: numbered_def upt_conv_Cons numeral_2_eq_2 add_mset_commute sample_rcv_def SetPipeline_def NewAgenticUDPReceiver_def)

text \<open>Property C21. A configuration waiting for a host is pushed exactly once: the next keep-alive of
  its session is answered with the keep-alive and the configuration packet, the one after that with
  the keep-alive alone.\<close>

theorem pending_config_pushed_once:
  assumes "map_of (sessions r) (addrKey a) = Some sess" "sHostID sess \<noteq> []" "rConn r"
    "map_of (configResponses r) (sHostID sess) = Some cfg"
  shows "replies (handleKeepalive e a r) = replies r @
      [(addrKey a, buildPacketV2 pktKeepalive 0 0 0 0 0 []), (addrKey a, buildPacketV2 pktConfig TierGuaranteed 0 0 0 0 cfg)]
    \<and> replies (handleKeepalive e' a (handleKeepalive e a r)) =
        replies (handleKeepalive e a r) @ [(addrKey a, buildPacketV2 pktKeepalive 0 0 0 0 0 [])]"
proof -
  have conn: "rConn (touchSession t a s) = rConn s" for t s by simp
  have cfgs: "configResponses (apply_reply rf to d s) = configResponses s" for rf to d s
    by (simp add: apply_reply_def rawUDPReply_def split: reply_func.splits)
  show ?thesis
    using assms by (simp add: handleKeepalive_def pushPendingConfig_def PendingConfig_def Let_def cfgs
        touchSession_def update_conv' delete_conv' upd_stats_def)
qed

theorem pending_config_pushed_once_witness:
  "replies (handleKeepalive (sample_rcv_env 1) sample_addr
      (sample_rcv\<lparr>sessions := [(''10.0.0.1:4001'', \<lparr>sLastSeen = 0, sState = ''established'', sHostID = ''h1'',
         sNatType = [], sTraversal = [], sReply = None\<rparr>)], configResponses := [(''h1'', [1])]\<rparr>)) =
     replies sample_rcv @ [(''10.0.0.1:4001'', buildPacketV2 pktKeepalive 0 0 0 0 0 []),
       (''10.0.0.1:4001'', buildPacketV2 pktConfig 0 0 0 0 0 [1])]"
  using pending_config_pushed_once [of "sample_rcv\<lparr>sessions := [(''10.0.0.1:4001'', \<lparr>sLastSeen = 0,
      sState = ''established'', sHostID = ''h1'', sNatType = [], sTraversal = [], sReply = None\<rparr>)],
      configResponses := [(''h1'', [1])]\<rparr>" sample_addr "\<lparr>sLastSeen = 0, sState = ''established'',
      sHostID = ''h1'', sNatType = [], sTraversal = [], sReply = None\<rparr>" "[1]" "sample_rcv_env 1"]
  by (simp add: sample_addr_def sample_rcv_def SetPipeline_def)



end
