(* ===== verification/Coalescer.thy ===== *)
theory Coalescer
  imports Receiver_Route
begin

section \<open>The storage coalescers\<close>

text \<open>
  \<open>receiver/agenticudp_coalescer.go\<close>: three batchers (traces, metrics, logs) between the receiver's
  goroutines and the store. Each has a channel, a map of pending items per tenant, a flush function
  wrapped by a latency tracker, and one goroutine that receives from the channel, flushes a tenant
  whose buffer is full, flushes everything on a ticker, and stops when the context is cancelled or
  the channel is closed and drained.

  The state records the calls of the flush function in order. \<open>dur\<close> is how long a call takes (the
  tracker's only input from the clock), \<open>rng\<close> the order of a \<open>range\<close> over the pending map. \<open>waiting\<close>
  tells whether the goroutine is blocked in its \<open>select\<close> when something is sent: Go then hands the
  value over even if the channel has no buffer. Sending on a closed channel panics (\<open>None\<close>).

  The metric and the log coalescer have the same code at two types; the trace coalescer also counts
  what is pending.
\<close>

subsection \<open>Flush latency\<close>

record flushLatencyTracker =
  ltSignal :: string
  slowAfter :: duration
  totalFlushes :: int
  totalItems :: int
  slowFlushes :: int
  maxObserved :: int
  totalLatency :: int

definition newFlushLatencyTracker :: "(string \<Rightarrow> string) \<Rightarrow> string \<Rightarrow> flushLatencyTracker" where
  "newFlushLatencyTracker env sig =
     (let raw = trim_space (env ''ENTROPYOPS_AGENTIC_UDP_SLOW_FLUSH_MS'');
          thresh = (if raw \<noteq> [] then
               (case parse_int64 raw of
                  Some v \<Rightarrow> (if v > 0 then i64 (v * millisecond) else 200 * millisecond)
                | None \<Rightarrow> 200 * millisecond)
             else 200 * millisecond)
      in \<lparr>ltSignal = sig, slowAfter = thresh, totalFlushes = 0, totalItems = 0, slowFlushes = 0,
          maxObserved = 0, totalLatency = 0\<rparr>)"

definition observe :: "nat \<Rightarrow> duration \<Rightarrow> flushLatencyTracker \<Rightarrow> flushLatencyTracker" where
  "observe items dur t =
     (let t = t\<lparr>totalFlushes := i64 (totalFlushes t + 1),
                totalItems := i64 (totalItems t + int items),
                totalLatency := i64 (totalLatency t + dur)\<rparr>;
          t = (if dur \<le> maxObserved t then t else t\<lparr>maxObserved := dur\<rparr>)
      in if dur \<ge> slowAfter t then t\<lparr>slowFlushes := i64 (slowFlushes t + 1)\<rparr> else t)"

record FlushStats =
  fsSignal :: string
  fsFlushes :: int
  fsItems :: int
  fsSlowFlushes :: int
  fsMaxLatencyMs :: int
  fsAvgLatencyMs :: int

definition snapshot :: "flushLatencyTracker \<Rightarrow> FlushStats" where
  "snapshot t =
     \<lparr>fsSignal = ltSignal t, fsFlushes = totalFlushes t, fsItems = totalItems t,
      fsSlowFlushes = slowFlushes t, fsMaxLatencyMs = go_div (maxObserved t) millisecond,
      fsAvgLatencyMs = (if totalFlushes t > 0
        then go_div (go_div (totalLatency t) (totalFlushes t)) millisecond else 0)\<rparr>"

subsection \<open>State and operations\<close>

record coalescerConfig =
  maxItems :: int
  maxWait :: duration
  chanCap :: int
  cfgName :: string

definition loadCoalescerConfig :: "(string \<Rightarrow> string) \<Rightarrow> string \<Rightarrow> coalescerConfig" where
  "loadCoalescerConfig env nm =
     \<lparr>maxItems = envIntDefault env ''ENTROPYOPS_AGENTIC_UDP_BATCH_MAX_ITEMS'' 2000,
      maxWait = i64 (envIntDefault env ''ENTROPYOPS_AGENTIC_UDP_BATCH_MAX_WAIT_MS'' 50 * millisecond),
      chanCap = envIntDefault env ''ENTROPYOPS_AGENTIC_UDP_BATCH_CHAN_CAP'' 4096,
      cfgName = nm\<rparr>"

type_synonym 'i batch_entry = "string \<times> 'i list"

record 'i coalescer =
  cIn :: "'i batch_entry list"
  cClosed :: bool
  cCfg :: coalescerConfig
  cPending :: "(string, 'i list) gomap"
  cLatency :: flushLatencyTracker
  cRunning :: bool
  cFlushed :: "(string \<times> 'i list) list"

record traceCoalescer = "Trace coalescer" +
  pendingN :: int
  stoppedClosed :: bool

type_synonym metricCoalescer = "Metric coalescer"
type_synonym logCoalescer = "LogRecord coalescer"
type_synonym 'i batch_order = "(string, 'i list) gomap \<Rightarrow> (string, 'i list) gomap"

text \<open>\<open>make(chan T, n)\<close> panics for a negative size.\<close>

definition new_coalescer :: "(string \<Rightarrow> string) \<Rightarrow> coalescerConfig \<Rightarrow> string \<Rightarrow> 'i coalescer option" where
  "new_coalescer env cfg sig =
     (if chanCap cfg < 0 then None
      else Some \<lparr>cIn = [], cClosed = False, cCfg = cfg, cPending = [],
             cLatency = newFlushLatencyTracker env sig, cRunning = False, cFlushed = []\<rparr>)"

definition newMetricCoalescer :: "(string \<Rightarrow> string) \<Rightarrow> coalescerConfig \<Rightarrow> metricCoalescer option" where
  "newMetricCoalescer env cfg = new_coalescer env cfg ''metrics''"

definition newLogCoalescer :: "(string \<Rightarrow> string) \<Rightarrow> coalescerConfig \<Rightarrow> logCoalescer option" where
  "newLogCoalescer env cfg = new_coalescer env cfg ''logs''"

definition newTraceCoalescer :: "(string \<Rightarrow> string) \<Rightarrow> coalescerConfig \<Rightarrow> traceCoalescer option" where
  "newTraceCoalescer env cfg =
     map_option (\<lambda>c. coalescer.extend c \<lparr>pendingN = 0, stoppedClosed = False\<rparr>) (new_coalescer env cfg ''traces'')"

text \<open>The flush function the constructors wrap around the store.\<close>

definition do_flush ::
  "duration \<Rightarrow> string \<Rightarrow> 'i list \<Rightarrow> ('i, 'm) coalescer_scheme \<Rightarrow> ('i, 'm) coalescer_scheme" where
  "do_flush dur tenantID items c =
     c\<lparr>cFlushed := cFlushed c @ [(tenantID, items)], cLatency := observe (length items) dur (cLatency c)\<rparr>"

definition chan_accepts :: "bool \<Rightarrow> ('i, 'm) coalescer_scheme \<Rightarrow> bool" where
  "chan_accepts waiting c \<longleftrightarrow>
     int (length (cIn c)) < chanCap (cCfg c) \<or> (waiting \<and> cRunning c \<and> cIn c = [])"

definition coal_enqueue ::
  "bool \<Rightarrow> duration \<Rightarrow> string \<Rightarrow> 'i list \<Rightarrow> ('i, 'm) coalescer_scheme \<Rightarrow> ('i, 'm) coalescer_scheme option" where
  "coal_enqueue waiting dur tenantID items c =
     (if items = [] then Some c
      else if cClosed c then None
      else if chan_accepts waiting c then Some (c\<lparr>cIn := cIn c @ [(tenantID, items)]\<rparr>)
      else Some (do_flush dur tenantID items c))"

text \<open>\<open>start\<close> runs the goroutine; \<open>time.NewTicker\<close> panics for an interval that is not positive.\<close>

definition coal_start :: "('i, 'm) coalescer_scheme \<Rightarrow> ('i, 'm) coalescer_scheme option" where
  "coal_start c = (if maxWait (cCfg c) \<le> 0 then None else Some (c\<lparr>cRunning := True\<rparr>))"

definition flush_batch ::
  "(string \<Rightarrow> duration) \<Rightarrow> string \<times> 'i list \<Rightarrow> ('i, 'm) coalescer_scheme \<Rightarrow> ('i, 'm) coalescer_scheme" where
  "flush_batch dur e c = (if snd e \<noteq> [] then do_flush (dur (fst e)) (fst e) (snd e) c else c)"

definition flushAll ::
  "(string \<Rightarrow> duration) \<Rightarrow> 'i batch_order \<Rightarrow> ('i, 'm) coalescer_scheme \<Rightarrow> ('i, 'm) coalescer_scheme" where
  "flushAll dur rng c =
     fold (flush_batch dur) (rng (cPending c)) (c\<lparr>cPending := []\<rparr>)"

text \<open>The buffer of a tenant.\<close>

definition tenant_items :: "string \<Rightarrow> ('i, 'm) coalescer_scheme \<Rightarrow> 'i list" where
  "tenant_items t c = (case map_of (cPending c) t of None \<Rightarrow> [] | Some xs \<Rightarrow> xs)"

text \<open>The body of the case \<open>e, ok := <-c.in\<close> for a received entry.\<close>

definition take_entry ::
  "(string \<Rightarrow> duration) \<Rightarrow> string \<times> 'i list \<Rightarrow> ('i, 'm) coalescer_scheme \<Rightarrow> ('i, 'm) coalescer_scheme" where
  "take_entry dur e c =
     (let tid = fst e;
          c = c\<lparr>cPending := AList.update tid (tenant_items tid c @ snd e) (cPending c)\<rparr>;
          n = length (tenant_items tid c)
      in if int n \<ge> maxItems (cCfg c) then
           let items = tenant_items tid c
           in do_flush (dur tid) tid items (c\<lparr>cPending := AList.delete tid (cPending c)\<rparr>)
         else c)"

text \<open>The three cases of the \<open>select\<close>. With an open and empty channel, or after the goroutine has
  returned, nothing happens.\<close>

definition coal_receive ::
  "(string \<Rightarrow> duration) \<Rightarrow> 'i batch_order \<Rightarrow> 'i coalescer \<Rightarrow> 'i coalescer" where
  "coal_receive dur rng c =
     (if \<not> cRunning c then c
      else case cIn c of
        [] \<Rightarrow> if cClosed c then (flushAll dur rng c)\<lparr>cRunning := False\<rparr> else c
      | e # es \<Rightarrow> take_entry dur e (c\<lparr>cIn := es\<rparr>))"

definition coal_tick ::
  "(string \<Rightarrow> duration) \<Rightarrow> 'i batch_order \<Rightarrow> 'i coalescer \<Rightarrow> 'i coalescer" where
  "coal_tick dur rng c = (if \<not> cRunning c then c else flushAll dur rng c)"

definition coal_done ::
  "(string \<Rightarrow> duration) \<Rightarrow> 'i batch_order \<Rightarrow> 'i coalescer \<Rightarrow> 'i coalescer" where
  "coal_done dur rng c = (if \<not> cRunning c then c else (flushAll dur rng c)\<lparr>cRunning := False\<rparr>)"

text \<open>\<open>stop\<close> closes the channel (once) and waits for the goroutine.\<close>

definition coal_stop :: "('i, 'm) coalescer_scheme \<Rightarrow> ('i, 'm) coalescer_scheme" where
  "coal_stop c = c\<lparr>cClosed := True\<rparr>"

text \<open>The trace coalescer: the same cases, with the counter of pending items.\<close>

definition trace_flushAll ::
  "(string \<Rightarrow> duration) \<Rightarrow> Trace batch_order \<Rightarrow> traceCoalescer \<Rightarrow> traceCoalescer" where
  "trace_flushAll dur rng c = flushAll dur rng (c\<lparr>pendingN := 0\<rparr>)"

definition trace_take_entry ::
  "(string \<Rightarrow> duration) \<Rightarrow> string \<times> Trace list \<Rightarrow> traceCoalescer \<Rightarrow> traceCoalescer" where
  "trace_take_entry dur e c =
     (let tid = fst e;
          c = c\<lparr>cPending := AList.update tid (tenant_items tid c @ snd e) (cPending c),
                pendingN := i64 (pendingN c + int (length (snd e)))\<rparr>;
          n = length (tenant_items tid c)
      in if int n \<ge> maxItems (cCfg c) then
           let items = tenant_items tid c
           in do_flush (dur tid) tid items
                (c\<lparr>cPending := AList.delete tid (cPending c),
                   pendingN := i64 (pendingN c - int (length items))\<rparr>)
         else c)"

definition trace_receive ::
  "(string \<Rightarrow> duration) \<Rightarrow> Trace batch_order \<Rightarrow> traceCoalescer \<Rightarrow> traceCoalescer" where
  "trace_receive dur rng c =
     (if \<not> cRunning c then c
      else case cIn c of
        [] \<Rightarrow> if cClosed c then (trace_flushAll dur rng c)\<lparr>cRunning := False, stoppedClosed := True\<rparr> else c
      | e # es \<Rightarrow> trace_take_entry dur e (c\<lparr>cIn := es\<rparr>))"

definition trace_tick ::
  "(string \<Rightarrow> duration) \<Rightarrow> Trace batch_order \<Rightarrow> traceCoalescer \<Rightarrow> traceCoalescer" where
  "trace_tick dur rng c = (if \<not> cRunning c then c else trace_flushAll dur rng c)"

definition trace_done ::
  "(string \<Rightarrow> duration) \<Rightarrow> Trace batch_order \<Rightarrow> traceCoalescer \<Rightarrow> traceCoalescer" where
  "trace_done dur rng c =
     (if \<not> cRunning c then c
      else (trace_flushAll dur rng c)\<lparr>cRunning := False, stoppedClosed := True\<rparr>)"

definition trace_enqueue ::
  "bool \<Rightarrow> duration \<Rightarrow> string \<Rightarrow> Trace list \<Rightarrow> traceCoalescer \<Rightarrow> traceCoalescer option" where
  "trace_enqueue = coal_enqueue"

definition trace_stop :: "traceCoalescer \<Rightarrow> traceCoalescer" where
  "trace_stop = coal_stop"

definition trace_start :: "traceCoalescer \<Rightarrow> traceCoalescer option" where
  "trace_start = coal_start"

text \<open>\<open>logCoalescer\<close> repeats the code of \<open>metricCoalescer\<close> for log rows.\<close>

definition log_enqueue ::
  "bool \<Rightarrow> duration \<Rightarrow> string \<Rightarrow> LogRecord list \<Rightarrow> logCoalescer \<Rightarrow> logCoalescer option" where
  "log_enqueue = coal_enqueue"

definition log_start :: "logCoalescer \<Rightarrow> logCoalescer option" where
  "log_start = coal_start"

definition log_flushAll :: "(string \<Rightarrow> duration) \<Rightarrow> LogRecord batch_order \<Rightarrow> logCoalescer \<Rightarrow> logCoalescer" where
  "log_flushAll = flushAll"

definition log_receive :: "(string \<Rightarrow> duration) \<Rightarrow> LogRecord batch_order \<Rightarrow> logCoalescer \<Rightarrow> logCoalescer" where
  "log_receive = coal_receive"

definition log_tick :: "(string \<Rightarrow> duration) \<Rightarrow> LogRecord batch_order \<Rightarrow> logCoalescer \<Rightarrow> logCoalescer" where
  "log_tick = coal_tick"

definition log_done :: "(string \<Rightarrow> duration) \<Rightarrow> LogRecord batch_order \<Rightarrow> logCoalescer \<Rightarrow> logCoalescer" where
  "log_done = coal_done"

definition log_stop :: "logCoalescer \<Rightarrow> logCoalescer" where
  "log_stop = coal_stop"

text \<open>\<open>startCoalescers\<close>: the three batchers exist exactly when a store is attached. \<open>None\<close> is the panic
  of a channel size or a ticker interval that the environment made invalid.\<close>

definition startCoalescers ::
  "(string \<Rightarrow> string) \<Rightarrow> Receiver \<Rightarrow> (Receiver \<times> (traceCoalescer \<times> metricCoalescer \<times> logCoalescer) option) option" where
  "startCoalescers env r =
     (if \<not> rStore r then Some (r, None)
      else do {
        t \<leftarrow> newTraceCoalescer env (loadCoalescerConfig env ''traces'');
        m \<leftarrow> newMetricCoalescer env (loadCoalescerConfig env ''metrics'');
        l \<leftarrow> newLogCoalescer env (loadCoalescerConfig env ''logs'');
        t \<leftarrow> trace_start t;
        m \<leftarrow> coal_start m;
        l \<leftarrow> log_start l;
        Some (r\<lparr>traceBatcher := True, metricBatcher := True, logBatcher := True\<rparr>, Some (t, m, l)) })"

subsection \<open>The batching contract\<close>

text \<open>The items of one tenant in a list of batches, as a multiset.\<close>

definition of_tenant :: "string \<Rightarrow> (string \<times> 'i list) list \<Rightarrow> 'i multiset" where
  "of_tenant t bs = mset (concat (map snd (filter (\<lambda>e. fst e = t) bs)))"

datatype 'i batch_event =
    Enqueue bool duration string "'i list"
  | Receive "string \<Rightarrow> duration" "'i batch_order"
  | TickerFires "string \<Rightarrow> duration" "'i batch_order"
  | ContextDone "string \<Rightarrow> duration" "'i batch_order"
  | StopCalled

text \<open>A run of a batcher given by its operations.\<close>

fun batch_run ::
  "(bool \<Rightarrow> duration \<Rightarrow> string \<Rightarrow> 'i list \<Rightarrow> 's \<Rightarrow> 's option)
    \<Rightarrow> ((string \<Rightarrow> duration) \<Rightarrow> 'i batch_order \<Rightarrow> 's \<Rightarrow> 's)
    \<Rightarrow> ((string \<Rightarrow> duration) \<Rightarrow> 'i batch_order \<Rightarrow> 's \<Rightarrow> 's)
    \<Rightarrow> ((string \<Rightarrow> duration) \<Rightarrow> 'i batch_order \<Rightarrow> 's \<Rightarrow> 's)
    \<Rightarrow> ('s \<Rightarrow> 's) \<Rightarrow> 'i batch_event list \<Rightarrow> 's \<Rightarrow> 's option" where
  "batch_run enq rcv tck don stp [] s = Some s"
| "batch_run enq rcv tck don stp (ev # evs) s =
     Option.bind
       (case ev of
          Enqueue w d t xs \<Rightarrow> enq w d t xs s
        | Receive d rng \<Rightarrow> Some (rcv d rng s)
        | TickerFires d rng \<Rightarrow> Some (tck d rng s)
        | ContextDone d rng \<Rightarrow> Some (don d rng s)
        | StopCalled \<Rightarrow> Some (stp s))
       (batch_run enq rcv tck don stp evs)"

fun order_ok :: "'i batch_event \<Rightarrow> bool" where
  "order_ok (Receive _ rng) = is_range rng"
| "order_ok (TickerFires _ rng) = is_range rng"
| "order_ok (ContextDone _ rng) = is_range rng"
| "order_ok _ = True"

fun enqueued :: "string \<Rightarrow> 'i batch_event \<Rightarrow> 'i multiset" where
  "enqueued u (Enqueue _ _ t xs) = (if u = t then mset xs else {#})"
| "enqueued u _ = {#}"

text \<open>What a batcher promises: every operation keeps the items it holds or has flushed, per tenant; after
  \<open>stop\<close> the goroutine takes one queued entry at a time and, when the queue is empty, flushes what is
  pending and ends.\<close>

locale batcher =
  fixes enq :: "bool \<Rightarrow> duration \<Rightarrow> string \<Rightarrow> 'i list \<Rightarrow> 's \<Rightarrow> 's option"
    and rcv tck don :: "(string \<Rightarrow> duration) \<Rightarrow> 'i batch_order \<Rightarrow> 's \<Rightarrow> 's"
    and stp :: "'s \<Rightarrow> 's"
    and queued flushed :: "'s \<Rightarrow> (string \<times> 'i list) list"
    and pend :: "'s \<Rightarrow> (string, 'i list) gomap"
    and run_active chan_closed :: "'s \<Rightarrow> bool"
    and held :: "string \<Rightarrow> 's \<Rightarrow> 'i multiset"
  assumes held_eq: "held u s = of_tenant u (queued s) + of_tenant u (pend s) + of_tenant u (flushed s)"
    and enq_held: "gomap_ok (pend s) \<Longrightarrow> enq w du t xs s = Some s' \<Longrightarrow>
      gomap_ok (pend s') \<and> held u s' = held u s + (if u = t then mset xs else {#})"
    and rcv_held: "gomap_ok (pend s) \<Longrightarrow> is_range rng \<Longrightarrow> gomap_ok (pend (rcv d rng s)) \<and> held u (rcv d rng s) = held u s"
    and tck_held: "gomap_ok (pend s) \<Longrightarrow> is_range rng \<Longrightarrow> gomap_ok (pend (tck d rng s)) \<and> held u (tck d rng s) = held u s"
    and don_held: "gomap_ok (pend s) \<Longrightarrow> is_range rng \<Longrightarrow> gomap_ok (pend (don d rng s)) \<and> held u (don d rng s) = held u s"
    and stp_held: "pend (stp s) = pend s" "queued (stp s) = queued s" "flushed (stp s) = flushed s"
      "run_active (stp s) = run_active s" "chan_closed (stp s)"
    and rcv_drains: "run_active s \<Longrightarrow> queued s = e # es \<Longrightarrow>
      queued (rcv d rng s) = es \<and> run_active (rcv d rng s) \<and> chan_closed (rcv d rng s) = chan_closed s"
    and rcv_ends: "run_active s \<Longrightarrow> queued s = [] \<Longrightarrow> chan_closed s \<Longrightarrow>
      queued (rcv d rng s) = [] \<and> pend (rcv d rng s) = [] \<and> \<not> run_active (rcv d rng s)"
begin

lemma run_conserves:
  assumes "batch_run enq rcv tck don stp evs s = Some s'" "gomap_ok (pend s)" "\<forall>ev \<in> set evs. order_ok ev"
  shows "gomap_ok (pend s') \<and> held u s' = held u s + sum_list (map (enqueued u) evs)"
  using assms
proof (induction evs arbitrary: s)
  case (Cons ev evs)
  have stp: "held u (stp t) = held u t" for t by (simp add: held_eq stp_held)
  from Cons.prems(1) obtain s1 where run: "batch_run enq rcv tck don stp evs s1 = Some s'"
    and ev: "(case ev of Enqueue w d t xs \<Rightarrow> enq w d t xs s | Receive d rng \<Rightarrow> Some (rcv d rng s)
        | TickerFires d rng \<Rightarrow> Some (tck d rng s) | ContextDone d rng \<Rightarrow> Some (don d rng s)
        | StopCalled \<Rightarrow> Some (stp s)) = Some s1"
    by (auto simp: Option.bind_eq_Some_conv)
  have "gomap_ok (pend s1) \<and> held u s1 = held u s + enqueued u ev"
    using ev Cons.prems(2,3) enq_held [OF Cons.prems(2)]
    by (cases ev) (auto simp: rcv_held tck_held don_held stp stp_held(1))
  with Cons.IH [OF run] Cons.prems(3) show ?case by (simp add: ac_simps)
qed simp

text \<open>After \<open>stop\<close>, draining the queue and one more receive flush everything that was accepted.\<close>

lemma drained:
  assumes "run_active s" "chan_closed s" "gomap_ok (pend s)" "is_range rng"
  shows "queued ((rcv d rng ^^ Suc (length (queued s))) s) = [] \<and> pend ((rcv d rng ^^ Suc (length (queued s))) s) = []
    \<and> \<not> run_active ((rcv d rng ^^ Suc (length (queued s))) s)
    \<and> of_tenant u (flushed ((rcv d rng ^^ Suc (length (queued s))) s)) = held u s"
  using assms
proof (induction "length (queued s)" arbitrary: s)
  case 0
  then have "queued (rcv d rng s) = []" "pend (rcv d rng s) = []" "\<not> run_active (rcv d rng s)"
    using rcv_ends [of s d rng] by auto
  moreover have "held u (rcv d rng s) = held u s" using rcv_held 0 by blast
  ultimately show ?case using 0 by (simp add: held_eq of_tenant_def)
next
  case (Suc n)
  then obtain e es where q: "queued s = e # es" by (cases "queued s") auto
  let ?s = "rcv d rng s"
  have "queued ?s = es" "run_active ?s" "chan_closed ?s" using rcv_drains [OF Suc.prems(1) q] Suc.prems(2) by auto
  moreover have "gomap_ok (pend ?s)" "held u ?s = held u s" using rcv_held Suc.prems by blast+
  ultimately show ?case using Suc.hyps(1) [of ?s] Suc.hyps(2) Suc.prems(4) q by (simp add: funpow_swap1)
qed

end

text \<open>A batcher that keeps up while its channel is open: a tick writes what is pending and leaves the queue
  alone, and a receive on an empty channel blocks. Enough receives and a tick then write everything
  that is held.\<close>

locale open_batcher = batcher +
  assumes rcv_blocks: "queued s = [] \<Longrightarrow> \<not> chan_closed s \<Longrightarrow> rcv d rng s = s"
    and tck_flushes: "run_active s \<Longrightarrow> queued (tck d rng s) = queued s \<and> pend (tck d rng s) = []"
begin

lemma receives_drain:
  assumes "run_active s" "\<not> chan_closed s"
  shows "queued ((rcv d rng ^^ n) s) = drop n (queued s) \<and> run_active ((rcv d rng ^^ n) s)
    \<and> \<not> chan_closed ((rcv d rng ^^ n) s)"
proof (induction n)
  case (Suc n)
  let ?s = "(rcv d rng ^^ n) s"
  show ?case
  proof (cases "queued ?s")
    case Nil
    with Suc show ?thesis using rcv_blocks [of ?s d rng] by simp
  next
    case (Cons e es)
    then have "es = drop (Suc n) (queued s)" using Suc by (metis drop_Suc list.sel(3) tl_drop)
    with Cons Suc show ?thesis using rcv_drains [of ?s e es d rng] by simp
  qed
qed (use assms in simp)

lemma receives_held:
  assumes "gomap_ok (pend s)" "is_range rng"
  shows "gomap_ok (pend ((rcv d rng ^^ n) s)) \<and> held u ((rcv d rng ^^ n) s) = held u s"
  by (induction n) (use assms rcv_held in auto)

lemma tick_after_drain:
  assumes "run_active s" "\<not> chan_closed s" "gomap_ok (pend s)" "is_range rng" "length (queued s) \<le> n"
  shows "of_tenant u (flushed (tck d rng ((rcv d rng ^^ n) s))) = held u s"
proof -
  let ?s = "(rcv d rng ^^ n) s"
  have "queued ?s = []" "run_active ?s" using receives_drain [OF assms(1,2), of n d rng] assms(5) by simp_all
  moreover have "gomap_ok (pend ?s)" "held u ?s = held u s" using receives_held [OF assms(3,4)] by simp_all
  ultimately show ?thesis
    using tck_flushes [of ?s d rng] tck_held [of ?s rng d u] assms(4) held_eq [of u "tck d rng ?s"]
    by (simp add: of_tenant_def)
qed

end

subsection \<open>The coalescers implement the contract\<close>

definition coal_held :: "string \<Rightarrow> ('i, 'm) coalescer_scheme \<Rightarrow> 'i multiset" where
  "coal_held u c = of_tenant u (cIn c) + of_tenant u (cPending c) + of_tenant u (cFlushed c)"

lemma of_tenant_simps [simp]:
  "of_tenant u [] = {#}"
  "of_tenant u ((t, xs) # bs) = (if t = u then mset xs else {#}) + of_tenant u bs"
  "of_tenant u (as @ bs) = of_tenant u as + of_tenant u bs"
  by (simp_all add: of_tenant_def)

lemma of_tenant_sum: "of_tenant u bs = (\<Sum>e \<in># mset bs. if fst e = u then mset (snd e) else {#})"
  by (induction bs) (auto simp: of_tenant_def)

lemma of_tenant_mset: "mset as = mset bs \<Longrightarrow> of_tenant u as = of_tenant u bs"
  by (simp add: of_tenant_sum)

lemma of_tenant_lookup:
  assumes "gomap_ok m"
  shows "of_tenant u m = (case map_of m u of None \<Rightarrow> {#} | Some xs \<Rightarrow> mset xs)"
  using assms
proof (induction m)
  case (Cons e m)
  obtain t xs where e: "e = (t, xs)" by force
  have "map_of m t = None" using Cons.prems by (auto simp: e gomap_ok_def map_of_eq_None_iff)
  with Cons e show ?case by (auto simp: gomap_ok_def)
qed (simp add: of_tenant_def)

lemma do_flush_frame [simp]:
  "cIn (do_flush d t xs c) = cIn c" "cPending (do_flush d t xs c) = cPending c" "cCfg (do_flush d t xs c) = cCfg c"
  "cClosed (do_flush d t xs c) = cClosed c" "cRunning (do_flush d t xs c) = cRunning c"
  "cFlushed (do_flush d t xs c) = cFlushed c @ [(t, xs)]"
  by (simp_all add: do_flush_def)

text \<open>\<open>flushAll\<close> moves the pending batches to the store, in the order of \<open>range\<close>.\<close>

lemma flush_fold:
  "cFlushed (fold (flush_batch dur) bs c) = cFlushed c @ filter (\<lambda>e. snd e \<noteq> []) bs"
  "cIn (fold (flush_batch dur) bs c) = cIn c" "cPending (fold (flush_batch dur) bs c) = cPending c"
  "cCfg (fold (flush_batch dur) bs c) = cCfg c" "cClosed (fold (flush_batch dur) bs c) = cClosed c"
  "cRunning (fold (flush_batch dur) bs c) = cRunning c"
  by (induction bs arbitrary: c) (auto simp: flush_batch_def)

lemma flushAll_frame [simp]:
  "cFlushed (flushAll dur rng c) = cFlushed c @ filter (\<lambda>e. snd e \<noteq> []) (rng (cPending c))"
  "cIn (flushAll dur rng c) = cIn c" "cPending (flushAll dur rng c) = []" "cCfg (flushAll dur rng c) = cCfg c"
  "cClosed (flushAll dur rng c) = cClosed c" "cRunning (flushAll dur rng c) = cRunning c"
  unfolding flushAll_def flush_fold by simp_all

lemma of_tenant_nonempty: "of_tenant u (filter (\<lambda>e. snd e \<noteq> []) bs) = of_tenant u bs"
  by (induction bs) (auto simp: of_tenant_def)

lemma flushAll_held: "is_range rng \<Longrightarrow> coal_held u (flushAll dur rng c) = coal_held u c"
  by (simp add: coal_held_def of_tenant_nonempty of_tenant_mset [of "rng (cPending c)"] is_range_def)

lemma take_entry_held:
  assumes "gomap_ok (cPending c)"
  shows "gomap_ok (cPending (take_entry dur e c))
    \<and> coal_held u (take_entry dur e c) = coal_held u c + (if u = fst e then mset (snd e) else {#})"
  using assms
  by (auto simp: take_entry_def Let_def coal_held_def of_tenant_lookup tenant_items_def update_conv' delete_conv'
      split: option.splits)

lemma enqueue_held:
  assumes "gomap_ok (cPending c)" "coal_enqueue w d t xs c = Some c'"
  shows "gomap_ok (cPending c') \<and> coal_held u c' = coal_held u c + (if u = t then mset xs else {#})"
  using assms by (auto simp: coal_enqueue_def coal_held_def split: if_splits)

text \<open>The counter does not take part: the trace coalescer's cases are those of the others.\<close>

lemma do_flush_pendingN [simp]: "pendingN (do_flush d t xs c) = pendingN c"
  by (simp add: do_flush_def)

lemma trace_take_entry_eq:
  "coalescer.truncate (trace_take_entry dur e c) = take_entry dur e (coalescer.truncate c)"
  by (simp add: trace_take_entry_def take_entry_def tenant_items_def do_flush_def coalescer.truncate_def Let_def)

interpretation plain: batcher coal_enqueue coal_receive coal_tick coal_done coal_stop cIn cFlushed cPending
  cRunning cClosed coal_held
proof
  fix s :: "'a coalescer" and u d and rng :: "'a batch_order"
  show "coal_held u s = of_tenant u (cIn s) + of_tenant u (cPending s) + of_tenant u (cFlushed s)"
    by (simp add: coal_held_def)
  assume ok: "gomap_ok (cPending s)"
  show "gomap_ok (cPending s') \<and> coal_held u s' = coal_held u s + (if u = t then mset xs else {#})"
    if "coal_enqueue w du t xs s = Some s'" for w du t xs s' using enqueue_held [OF ok that] .
  assume rng: "is_range rng"
  have run: "coal_held u (c\<lparr>cRunning := b\<rparr>) = coal_held u c" for b and c :: "'a coalescer" by (simp add: coal_held_def)
  have pop: "coal_held u s = coal_held u (s\<lparr>cIn := es\<rparr>) + (if u = fst e then mset (snd e) else {#})" if "cIn s = e # es" for e es
    using that by (cases e) (simp add: coal_held_def ac_simps)
  show "gomap_ok (cPending (coal_receive d rng s)) \<and> coal_held u (coal_receive d rng s) = coal_held u s"
    using take_entry_held [of "s\<lparr>cIn := es\<rparr>" d e u for e es] pop ok rng
    by (simp add: coal_receive_def run flushAll_held split: list.splits)
  show "gomap_ok (cPending (coal_tick d rng s)) \<and> coal_held u (coal_tick d rng s) = coal_held u s"
    using ok rng by (simp add: coal_tick_def flushAll_held)
  show "gomap_ok (cPending (coal_done d rng s)) \<and> coal_held u (coal_done d rng s) = coal_held u s"
    using ok rng by (simp add: coal_done_def flushAll_held run)
next
  fix s :: "'a coalescer" and e es d and rng :: "'a batch_order"
  have "cIn (take_entry d e c) = cIn c \<and> cRunning (take_entry d e c) = cRunning c \<and> cClosed (take_entry d e c) = cClosed c"
    for c :: "'a coalescer" by (simp add: take_entry_def Let_def)
  then show "cIn (coal_receive d rng s) = es \<and> cRunning (coal_receive d rng s) \<and> cClosed (coal_receive d rng s) = cClosed s"
    if "cRunning s" "cIn s = e # es" using that by (simp add: coal_receive_def)
  show "cIn (coal_receive d rng s) = [] \<and> cPending (coal_receive d rng s) = [] \<and> \<not> cRunning (coal_receive d rng s)"
    if "cRunning s" "cIn s = []" "cClosed s" using that by (simp add: coal_receive_def)
qed (simp_all add: coal_stop_def)

interpretation plain: open_batcher coal_enqueue coal_receive coal_tick coal_done coal_stop cIn cFlushed cPending
  cRunning cClosed coal_held
  by unfold_locales (simp_all add: coal_receive_def coal_tick_def)

text \<open>The trace coalescer refines the plain one: forgetting the counter and the \<open>stopped\<close> channel, its
  operations are those of the plain coalescer. The laws carry over.\<close>

abbreviation (input) forget :: "traceCoalescer \<Rightarrow> Trace coalescer" where "forget \<equiv> coalescer.truncate"

lemma forget_simps [simp]:
  "cIn (forget c) = cIn c" "cPending (forget c) = cPending c" "cFlushed (forget c) = cFlushed c"
  "cRunning (forget c) = cRunning c" "cClosed (forget c) = cClosed c" "cCfg (forget c) = cCfg c"
  "coal_held u (forget c) = coal_held u c"
  by (simp_all add: coalescer.truncate_def coal_held_def)

lemma forget_flushAll: "forget (flushAll dur rng c) = flushAll dur rng (forget c)"
proof -
  have "forget (fold (flush_batch dur) bs c) = fold (flush_batch dur) bs (forget c)" for bs c
    by (induction bs arbitrary: c) (simp_all add: flush_batch_def do_flush_def coalescer.truncate_def)
  moreover have "forget (c\<lparr>cPending := []\<rparr>) = (forget c)\<lparr>cPending := []\<rparr>" by (simp add: coalescer.truncate_def)
  ultimately show ?thesis by (simp add: flushAll_def)
qed

lemma trace_steps_refine:
  "forget (trace_receive dur rng c) = coal_receive dur rng (forget c)"
  "forget (trace_tick dur rng c) = coal_tick dur rng (forget c)"
  "forget (trace_done dur rng c) = coal_done dur rng (forget c)"
  "forget (trace_stop c) = coal_stop (forget c)"
  "map_option forget (trace_enqueue w d t xs c) = coal_enqueue w d t xs (forget c)"
proof -
  have fl: "forget (trace_flushAll dur rng c) = flushAll dur rng (forget c)" for c
  proof -
    have "forget (c\<lparr>pendingN := 0\<rparr>) = forget c" by (simp add: coalescer.truncate_def)
    then show ?thesis by (simp add: trace_flushAll_def forget_flushAll)
  qed
  have stopd: "forget (c\<lparr>cRunning := False, stoppedClosed := True\<rparr>) = (forget c)\<lparr>cRunning := False\<rparr>" for c
    by (simp add: coalescer.truncate_def)
  have pop: "forget (c\<lparr>cIn := es\<rparr>) = (forget c)\<lparr>cIn := es\<rparr>" for es by (simp add: coalescer.truncate_def)
  show "forget (trace_receive dur rng c) = coal_receive dur rng (forget c)"
    by (simp add: trace_receive_def coal_receive_def fl stopd pop trace_take_entry_eq split: list.split)
  show "forget (trace_tick dur rng c) = coal_tick dur rng (forget c)"
    by (simp add: trace_tick_def coal_tick_def fl)
  show "forget (trace_done dur rng c) = coal_done dur rng (forget c)"
    by (simp add: trace_done_def coal_done_def fl stopd)
  show "forget (trace_stop c) = coal_stop (forget c)" by (simp add: trace_stop_def coal_stop_def coalescer.truncate_def)
  show "map_option forget (trace_enqueue w d t xs c) = coal_enqueue w d t xs (forget c)"
    by (simp add: trace_enqueue_def coal_enqueue_def chan_accepts_def do_flush_def coalescer.truncate_def)
qed

lemma trace_views:
  "cIn (trace_receive dur rng c) = cIn (coal_receive dur rng (forget c))"
  "cPending (trace_receive dur rng c) = cPending (coal_receive dur rng (forget c))"
  "cRunning (trace_receive dur rng c) = cRunning (coal_receive dur rng (forget c))"
  "cClosed (trace_receive dur rng c) = cClosed (coal_receive dur rng (forget c))"
  "coal_held u (trace_receive dur rng c) = coal_held u (coal_receive dur rng (forget c))"
  "cPending (trace_tick dur rng c) = cPending (coal_tick dur rng (forget c))"
  "coal_held u (trace_tick dur rng c) = coal_held u (coal_tick dur rng (forget c))"
  "cPending (trace_done dur rng c) = cPending (coal_done dur rng (forget c))"
  "coal_held u (trace_done dur rng c) = coal_held u (coal_done dur rng (forget c))"
  by (simp_all add: trace_steps_refine [symmetric])

interpretation trace: batcher trace_enqueue trace_receive trace_tick trace_done trace_stop cIn cFlushed cPending
  cRunning cClosed coal_held
proof
  fix s s' :: traceCoalescer and u w du t xs
  show "coal_held u s = of_tenant u (cIn s) + of_tenant u (cPending s) + of_tenant u (cFlushed s)"
    by (simp add: coal_held_def)
  show "gomap_ok (cPending s') \<and> coal_held u s' = coal_held u s + (if u = t then mset xs else {#})"
    if "gomap_ok (cPending s)" "trace_enqueue w du t xs s = Some s'"
    using enqueue_held [OF that(1), of w du t xs s' u] that(2) by (simp add: trace_enqueue_def)
qed (use plain.rcv_held [of "forget s" for s] plain.tck_held [of "forget s" for s] plain.don_held [of "forget s" for s]
      plain.rcv_drains [of "forget s" for s] plain.rcv_ends [of "forget s" for s]
    in \<open>simp_all add: trace_views trace_stop_def coal_stop_def\<close>)

lemma trace_flushAll_frame [simp]:
  "cIn (trace_flushAll dur rng c) = cIn c" "cPending (trace_flushAll dur rng c) = []"
  "cRunning (trace_flushAll dur rng c) = cRunning c" "cClosed (trace_flushAll dur rng c) = cClosed c"
  by (simp_all add: trace_flushAll_def)

interpretation trace: open_batcher trace_enqueue trace_receive trace_tick trace_done trace_stop cIn cFlushed cPending
  cRunning cClosed coal_held
  by unfold_locales (simp_all add: trace_receive_def trace_tick_def)

text \<open>Nothing but \<open>stop\<close> closes the channel, and an open channel never panics.\<close>

fun goroutine_event :: "'i batch_event \<Rightarrow> bool" where
  "goroutine_event (Receive _ _) = True"
| "goroutine_event (TickerFires _ _) = True"
| "goroutine_event (ContextDone _ _) = True"
| "goroutine_event _ = False"

lemma take_entry_frame [simp]:
  "cIn (take_entry d e c) = cIn c" "cClosed (take_entry d e c) = cClosed c" "cRunning (take_entry d e c) = cRunning c"
  "cCfg (take_entry d e c) = cCfg c"
  by (simp_all add: take_entry_def Let_def)

lemma step_keeps_open:
  "cClosed (coal_receive d rng c) = cClosed c" "cClosed (coal_tick d rng c) = cClosed c"
  "cClosed (coal_done d rng c) = cClosed c" "coal_enqueue w du t xs b = Some b' \<Longrightarrow> cClosed b' = cClosed b"
  "\<not> cClosed b \<Longrightarrow> \<exists>b'. coal_enqueue w du t xs b = Some b'"
  by (auto simp: coal_receive_def coal_tick_def coal_done_def coal_enqueue_def split: list.splits if_splits)

lemma trace_keeps_open:
  "cClosed (trace_receive d rng c) = cClosed c" "cClosed (trace_tick d rng c) = cClosed c"
  "cClosed (trace_done d rng c) = cClosed c"
  using step_keeps_open(1-3) [of d rng "forget c"] by (simp_all add: trace_steps_refine [symmetric])

subsection \<open>Lemmas: pending buffers\<close>

text \<open>Between steps every pending buffer is non-empty and below the flush threshold, and the trace
  coalescer's counter is the number of pending items (modulo 2^64).\<close>

definition pending_ok :: "('i, 'm) coalescer_scheme \<Rightarrow> bool" where
  "pending_ok c \<longleftrightarrow> gomap_ok (cPending c)
     \<and> all_vals (\<lambda>xs. xs \<noteq> [] \<and> int (length xs) < maxItems (cCfg c)) (cPending c)
     \<and> (\<forall>e \<in> set (cIn c). snd e \<noteq> [])"

definition pending_count :: "('i, 'm) coalescer_scheme \<Rightarrow> int" where
  "pending_count c = int (sum_list (map (length \<circ> snd) (cPending c)))"

lemma pending_ok_enqueue:
  "pending_ok c \<Longrightarrow> coal_enqueue w d t xs c = Some c' \<Longrightarrow> pending_ok c' \<and> cPending c' = cPending c"
  by (auto simp: pending_ok_def coal_enqueue_def split: if_splits)

lemma pending_ok_take_entry:
  assumes "pending_ok c" "snd e \<noteq> []"
  shows "pending_ok (take_entry dur e c)"
proof -
  have "all_vals (\<lambda>xs. xs \<noteq> [] \<and> int (length xs) < maxItems (cCfg c)) (AList.delete t (AList.update t ys (cPending c)))" for t ys
    using assms(1) by (simp add: pending_ok_def delete_update_same)
  with assms show ?thesis
    by (auto simp: pending_ok_def take_entry_def Let_def tenant_items_def update_conv' split: option.splits)
qed

lemma length_pending_update:
  fixes m :: "(string, 'i list) gomap"
  assumes "gomap_ok m"
  shows "int (sum_list (map (length \<circ> snd) (AList.update t xs m)))
    = int (sum_list (map (length \<circ> snd) m)) + int (length xs) - int (length (case map_of m t of None \<Rightarrow> [] | Some ys \<Rightarrow> ys))"
  using assms by (induction m) (auto simp: gomap_ok_def split: option.splits)

lemma length_pending_delete:
  fixes m :: "(string, 'i list) gomap"
  assumes "gomap_ok m"
  shows "int (sum_list (map (length \<circ> snd) (AList.delete t m)))
    = int (sum_list (map (length \<circ> snd) m)) - int (length (case map_of m t of None \<Rightarrow> [] | Some ys \<Rightarrow> ys))"
  using assms
proof (induction m)
  case (Cons e m)
  have "AList.delete (fst e) m = m" using Cons.prems by (simp add: gomap_ok_def)
  with Cons show ?case by (cases e) (auto simp: gomap_ok_def)
qed simp

text \<open>The invariant of the trace coalescer.\<close>

definition trace_ok :: "traceCoalescer \<Rightarrow> bool" where
  "trace_ok c \<longleftrightarrow> pending_ok c \<and> pendingN c = i64 (pending_count c)"

lemma i64_add: "i64 (i64 x + y) = i64 (x + y)"
  by (simp add: i64_def mod_simps algebra_simps)

lemma trace_take_entry_pendingN:
  assumes "pending_ok c" "pendingN c = i64 (pending_count c)"
  shows "pendingN (trace_take_entry dur e c) = i64 (pending_count (trace_take_entry dur e c))"
proof -
  let ?t = "fst e" and ?m = "cPending c"
  let ?xs = "tenant_items ?t c @ snd e"
  have ok: "gomap_ok ?m" using assms(1) by (simp add: pending_ok_def)
  have up: "pending_count (c\<lparr>cPending := AList.update ?t ?xs ?m\<rparr>) = pending_count c + int (length (snd e))"
    using length_pending_update [OF ok, of ?t ?xs] by (simp add: pending_count_def tenant_items_def)
  have del: "pending_count (c\<lparr>cPending := AList.delete ?t (AList.update ?t ?xs ?m)\<rparr>)
      = pending_count c + int (length (snd e)) - int (length ?xs)"
    using length_pending_delete [of "AList.update ?t ?xs ?m" ?t] ok up by (simp add: pending_count_def update_conv')
  have diff: "i64 (i64 x - y) = i64 (x - y)" for x y using i64_add [of x "- y"] by simp
  have count: "pending_count (do_flush d t xs c') = pending_count c'" for d t xs and c' :: traceCoalescer
    by (simp add: pending_count_def)
  have drop_ext: "pending_count (c'\<lparr>pendingN := k\<rparr>) = pending_count c'" for c' :: traceCoalescer and k
    by (simp add: pending_count_def)
  have items: "tenant_items ?t (c\<lparr>cPending := AList.update ?t ?xs ?m, pendingN := k\<rparr>) = ?xs" for k
    by (simp add: tenant_items_def update_conv')
  show ?thesis
    using up del assms(2) unfolding trace_take_entry_def Let_def items
    by (simp add: count drop_ext i64_add diff)
qed

lemma pending_ok_forget [simp]: "pending_ok (forget c) = pending_ok c" "pending_count (forget c) = pending_count c"
  by (simp_all add: pending_ok_def pending_count_def)

lemma trace_ok_step:
  assumes "trace_ok c"
  shows "trace_ok (trace_receive dur rng c)" "trace_ok (trace_tick dur rng c)" "trace_ok (trace_done dur rng c)"
    "trace_ok (trace_stop c)" "trace_enqueue w d t xs c = Some c' \<Longrightarrow> trace_ok c'"
proof -
  have p: "pending_ok c" "pendingN c = i64 (pending_count c)" using assms by (simp_all add: trace_ok_def)
  have "pendingN (fold (flush_batch dur) bs c) = pendingN c" for bs and c :: traceCoalescer
    by (induction bs arbitrary: c) (simp_all add: flush_batch_def)
  then have "trace_ok (trace_flushAll dur rng c)"
    using p by (simp add: trace_flushAll_def flushAll_def trace_ok_def pending_ok_def pending_count_def flush_fold i64_def)
  moreover have "trace_ok (c'\<lparr>cRunning := False, stoppedClosed := True\<rparr>) = trace_ok c'" for c'
    by (simp add: trace_ok_def pending_ok_def pending_count_def)
  moreover have "trace_ok (trace_take_entry dur e (c\<lparr>cIn := es\<rparr>))" if "cIn c = e # es" for e es
  proof -
    have q: "pending_ok (c\<lparr>cIn := es\<rparr>)" "snd e \<noteq> []" using p(1) that by (auto simp: pending_ok_def)
    then have "pending_ok (trace_take_entry dur e (c\<lparr>cIn := es\<rparr>))"
      using pending_ok_take_entry [of "forget (c\<lparr>cIn := es\<rparr>)" e dur] by (simp add: trace_take_entry_eq [symmetric])
    moreover have "pendingN (c\<lparr>cIn := es\<rparr>) = i64 (pending_count (c\<lparr>cIn := es\<rparr>))" using p(2) by (simp add: pending_count_def)
    ultimately show ?thesis using trace_take_entry_pendingN [OF q(1)] by (simp add: trace_ok_def)
  qed
  ultimately show "trace_ok (trace_receive dur rng c)" "trace_ok (trace_tick dur rng c)" "trace_ok (trace_done dur rng c)"
    using assms by (simp_all add: trace_receive_def trace_tick_def trace_done_def split: list.split)
  show "trace_ok (trace_stop c)" using p by (simp add: trace_stop_def coal_stop_def trace_ok_def pending_ok_def pending_count_def)
  show "trace_ok c'" if "trace_enqueue w d t xs c = Some c'"
  proof -
    have "pendingN c' = pendingN c" using that by (auto simp: trace_enqueue_def coal_enqueue_def split: if_splits)
    with that p pending_ok_enqueue [OF p(1), of w d t xs c'] show ?thesis
      by (simp add: trace_ok_def trace_enqueue_def pending_count_def)
  qed
qed

subsection \<open>Lemmas: sizes\<close>

text \<open>With entries of at most \<open>n\<close> items the channel, the buffers and the batches are bounded by the
  configuration. A channel without a buffer still hands one entry over.\<close>

definition flush_limit :: "nat \<Rightarrow> coalescerConfig \<Rightarrow> int" where
  "flush_limit n cfg = max 0 (maxItems cfg - 1) + int n"

definition sizes_ok :: "nat \<Rightarrow> coalescerConfig \<Rightarrow> ('i, 'm) coalescer_scheme \<Rightarrow> bool" where
  "sizes_ok n cfg c \<longleftrightarrow> cCfg c = cfg \<and> pending_ok c \<and> int (length (cIn c)) \<le> max 1 (chanCap cfg)
     \<and> (\<forall>e \<in> set (cIn c). length (snd e) \<le> n)
     \<and> (\<forall>e \<in> set (cFlushed c). snd e \<noteq> [] \<and> int (length (snd e)) \<le> flush_limit n cfg)"

fun entry_size_ok :: "nat \<Rightarrow> 'i batch_event \<Rightarrow> bool" where
  "entry_size_ok n (Enqueue _ _ _ xs) = (length xs \<le> n)"
| "entry_size_ok n _ = True"

lemma sizes_enqueue:
  assumes "sizes_ok n cfg c" "length xs \<le> n" "coal_enqueue w d t xs c = Some c'"
  shows "sizes_ok n cfg c'"
  using assms
  by (auto simp: sizes_ok_def coal_enqueue_def chan_accepts_def pending_ok_def flush_limit_def split: if_splits)

lemma tenant_items_limit:
  assumes "sizes_ok n cfg c"
  shows "int (length (tenant_items t c)) \<le> max 0 (maxItems cfg - 1)"
  using assms by (auto simp: sizes_ok_def pending_ok_def tenant_items_def split: option.split dest: all_vals_lookup)

lemma sizes_take_entry:
  assumes "sizes_ok n cfg c" "cIn c = e # es"
  shows "sizes_ok n cfg (take_entry dur e (c\<lparr>cIn := es\<rparr>))"
proof -
  let ?c = "c\<lparr>cIn := es\<rparr>"
  have c: "sizes_ok n cfg ?c" "snd e \<noteq> []" "length (snd e) \<le> n"
    using assms by (auto simp: sizes_ok_def pending_ok_def)
  have "pending_ok (take_entry dur e ?c)"
    using c(1,2) by (intro pending_ok_take_entry) (simp_all add: sizes_ok_def)
  moreover have "cFlushed (take_entry dur e ?c) = cFlushed c
      \<or> cFlushed (take_entry dur e ?c) = cFlushed c @ [(fst e, tenant_items (fst e) ?c @ snd e)]"
    by (simp add: take_entry_def Let_def tenant_items_def update_conv')
  ultimately show ?thesis
    using c tenant_items_limit [OF c(1), of "fst e"] by (auto simp: sizes_ok_def flush_limit_def)
qed

lemma sizes_flushAll:
  assumes "sizes_ok n cfg c" "is_range rng"
  shows "sizes_ok n cfg (flushAll dur rng c)"
proof -
  have "set (rng (cPending c)) = set (cPending c)" using assms(2) by (metis is_range_def set_mset_mset)
  moreover have "int (length (snd e)) \<le> flush_limit n cfg" if "e \<in> set (cPending c)" for e
    using assms(1) that by (auto simp: sizes_ok_def pending_ok_def all_vals_def flush_limit_def)
  ultimately show ?thesis using assms(1) by (auto simp: sizes_ok_def pending_ok_def)
qed

lemma sizes_run:
  assumes "sizes_ok n cfg c" "batch_run coal_enqueue coal_receive coal_tick coal_done coal_stop evs c = Some c'"
    "\<forall>ev \<in> set evs. order_ok ev \<and> entry_size_ok n ev"
  shows "sizes_ok n cfg c'"
  using assms
proof (induction evs arbitrary: c)
  case (Cons ev evs)
  have stopped: "sizes_ok n cfg (b\<lparr>cRunning := x\<rparr>) = sizes_ok n cfg b" "sizes_ok n cfg (b\<lparr>cClosed := x\<rparr>) = sizes_ok n cfg b" for b x
    by (simp_all add: sizes_ok_def pending_ok_def)
  have step: "sizes_ok n cfg (coal_receive d rng c)" "sizes_ok n cfg (coal_tick d rng c)" "sizes_ok n cfg (coal_done d rng c)"
    "sizes_ok n cfg (coal_stop c)" if "is_range rng" for d rng
    using Cons.prems(1) sizes_flushAll [OF Cons.prems(1) that] sizes_take_entry [OF Cons.prems(1)]
    by (simp_all add: coal_receive_def coal_tick_def coal_done_def coal_stop_def stopped split: list.split)
  have "sizes_ok n cfg c1" if "batch_run coal_enqueue coal_receive coal_tick coal_done coal_stop [ev] c = Some c1" for c1
    using that Cons.prems(1,3) step step(4) [OF is_range_rev] sizes_enqueue [OF Cons.prems(1)]
    by (cases ev) (auto simp: Option.bind_eq_Some_conv)
  moreover from Cons.prems(2) obtain c1 where
    "batch_run coal_enqueue coal_receive coal_tick coal_done coal_stop [ev] c = Some c1"
    "batch_run coal_enqueue coal_receive coal_tick coal_done coal_stop evs c1 = Some c'"
    by (auto simp: Option.bind_eq_Some_conv)
  ultimately show ?case using Cons.IH Cons.prems(3) by auto
qed simp

subsection \<open>Properties\<close>

abbreviation trace_run where
  "trace_run \<equiv> batch_run trace_enqueue trace_receive trace_tick trace_done trace_stop"

abbreviation coal_run where
  "coal_run \<equiv> batch_run coal_enqueue coal_receive coal_tick coal_done coal_stop"

lemma trace_run_forget:
  "map_option coalescer.truncate (trace_run evs c) = coal_run evs (coalescer.truncate c)"
proof (induction evs arbitrary: c)
  case (Cons ev evs)
  have "map_option coalescer.truncate (Option.bind x (trace_run evs)) = Option.bind (map_option coalescer.truncate x) (coal_run evs)" for x
    using Cons by (cases x) simp_all
  then show ?case
    by (cases ev) (simp_all add: trace_steps_refine Cons)
qed simp

lemma new_trace_ok:
  assumes "newTraceCoalescer env cfg = Some c0" "coal_start c0 = Some c1"
  shows "trace_ok c1 \<and> coal_held u c1 = {#} \<and> cRunning c1"
  using assms
  by (auto simp: newTraceCoalescer_def new_coalescer_def coal_start_def coal_held_def trace_ok_def pending_ok_def
      pending_count_def i64_def coalescer.extend_def split: if_splits)

lemma new_plain_ok:
  assumes "new_coalescer env cfg sig = Some c0" "coal_start c0 = Some c1"
  shows "gomap_ok (cPending c1) \<and> coal_held u c1 = {#} \<and> cRunning c1"
  using assms by (auto simp: new_coalescer_def coal_start_def coal_held_def split: if_splits)

text \<open>The trace coalescer loses and duplicates nothing while it runs: in every run, whatever
  the order of receives, ticks, direct flushes under back-pressure and shutdown, the items handed to
  \<open>enqueue\<close> for a tenant are exactly those flushed to the store for this tenant, those pending and
  those still in the channel.\<close>

theorem trace_items_conserved:
  assumes "newTraceCoalescer env cfg = Some c0" "coal_start c0 = Some c1"
    "trace_run evs c1 = Some c" "\<forall>ev \<in> set evs. order_ok ev"
  shows "of_tenant u (cFlushed c) + of_tenant u (cPending c) + of_tenant u (cIn c) = sum_list (map (enqueued u) evs)"
proof -
  have "gomap_ok (cPending c1)" "coal_held u c1 = {#}"
    using new_trace_ok [OF assms(1,2)] by (simp_all add: trace_ok_def pending_ok_def)
  with trace.run_conserves [OF assms(3) _ assms(4), of u] show ?thesis
    by (simp add: coal_held_def ac_simps)
qed

definition sample_cfg :: coalescerConfig where
  "sample_cfg = \<lparr>maxItems = 2, maxWait = 50, chanCap = 1, cfgName = ''traces''\<rparr>"

definition sample_trace_coalescer :: traceCoalescer where
  "sample_trace_coalescer = the (Option.bind (newTraceCoalescer (\<lambda>_. []) sample_cfg) coal_start)"

lemma sample_trace_start:
  "\<exists>c0. newTraceCoalescer (\<lambda>_. []) sample_cfg = Some c0 \<and> coal_start c0 = Some sample_trace_coalescer"
  by (simp add: sample_trace_coalescer_def newTraceCoalescer_def new_coalescer_def coal_start_def sample_cfg_def
      coalescer.extend_def)

text \<open>Three batches on a channel of one: the second is flushed directly.\<close>

theorem trace_items_conserved_witness:
  "\<forall>x y :: Trace. \<exists>c. trace_run [Enqueue False 0 ''t'' [x], Enqueue False 0 ''t'' [y], Receive (\<lambda>_. 0) rev] sample_trace_coalescer = Some c
    \<and> of_tenant ''t'' (cFlushed c) + of_tenant ''t'' (cPending c) + of_tenant ''t'' (cIn c) = {#x, y#}"
proof (intro allI)
  fix x y :: Trace
  obtain c0 where c0: "newTraceCoalescer (\<lambda>_. []) sample_cfg = Some c0" "coal_start c0 = Some sample_trace_coalescer"
    using sample_trace_start by blast
  have "\<not> cClosed sample_trace_coalescer" "cIn sample_trace_coalescer = []" "chanCap (cCfg sample_trace_coalescer) = 1"
    by (simp_all add: sample_trace_coalescer_def newTraceCoalescer_def new_coalescer_def coal_start_def sample_cfg_def
        coalescer.extend_def)
  then obtain c where c: "trace_run [Enqueue False 0 ''t'' [x], Enqueue False 0 ''t'' [y], Receive (\<lambda>_. 0) rev] sample_trace_coalescer = Some c"
    by (simp add: trace_enqueue_def coal_enqueue_def chan_accepts_def do_flush_def)
  with trace_items_conserved [OF c0 c, of "''t''"]
  show "\<exists>c. trace_run [Enqueue False 0 ''t'' [x], Enqueue False 0 ''t'' [y], Receive (\<lambda>_. 0) rev] sample_trace_coalescer = Some c
    \<and> of_tenant ''t'' (cFlushed c) + of_tenant ''t'' (cPending c) + of_tenant ''t'' (cIn c) = {#x, y#}"
    by (auto simp: add_mset_commute)
qed

lemma trace_run_ok:
  assumes "trace_ok s" "trace_run evs s = Some c"
  shows "trace_ok c"
  using assms
proof (induction evs arbitrary: s)
  case (Cons ev evs)
  then show ?case by (cases ev) (auto simp: Option.bind_eq_Some_conv intro: trace_ok_step)
qed simp

lemma new_trace_sizes:
  assumes "newTraceCoalescer env cfg = Some c0" "coal_start c0 = Some c1"
  shows "sizes_ok n cfg (forget c1)"
  using assms
  by (auto simp: newTraceCoalescer_def new_coalescer_def coal_start_def sizes_ok_def pending_ok_def
      coalescer.extend_def split: if_splits)

text \<open>Property C24. The memory of the trace coalescer is bounded by its configuration: when no entry has more
  than \<open>n\<close> items, then in every run the channel holds at most its capacity (one entry if it has no
  buffer), there is one buffer per tenant and it stays below the flush threshold, the counter
  \<open>pendingN\<close> is the number of buffered items (modulo 2^64), and no batch handed to the store is empty or
  exceeds the threshold by \<open>n\<close> or more.\<close>

theorem trace_memory_bounded:
  assumes "newTraceCoalescer env cfg = Some c0" "coal_start c0 = Some c1" "trace_run evs c1 = Some c"
    "\<forall>ev \<in> set evs. order_ok ev \<and> entry_size_ok n ev"
  shows "int (length (cIn c)) \<le> max 1 (chanCap cfg)
    \<and> distinct (map fst (cPending c)) \<and> (\<forall>e \<in> set (cPending c). 0 < length (snd e) \<and> int (length (snd e)) < maxItems cfg)
    \<and> pendingN c = i64 (int (sum_list (map (length \<circ> snd) (cPending c))))
    \<and> (\<forall>e \<in> set (cFlushed c). 0 < length (snd e) \<and> int (length (snd e)) \<le> max 0 (maxItems cfg - 1) + int n)"
proof -
  have "coal_run evs (forget c1) = Some (forget c)" using trace_run_forget [of evs c1] assms(3) by simp
  from sizes_run [OF new_trace_sizes [OF assms(1,2)] this assms(4)] have "sizes_ok n cfg (forget c)" .
  moreover have "trace_ok c" using trace_run_ok [OF _ assms(3)] new_trace_ok [OF assms(1,2)] by blast
  ultimately show ?thesis
    by (auto simp: sizes_ok_def trace_ok_def pending_ok_def pending_count_def gomap_ok_def all_vals_def flush_limit_def)
qed

theorem trace_memory_bounded_witness:
  "\<forall>x y :: Trace. \<exists>c. trace_run [Enqueue False 0 ''t'' [x], Receive (\<lambda>_. 0) rev, Enqueue False 0 ''t'' [y]] sample_trace_coalescer = Some c
    \<and> length (cIn c) \<le> 1 \<and> pendingN c = i64 (int (sum_list (map (length \<circ> snd) (cPending c))))
    \<and> (\<forall>e \<in> set (cFlushed c). length (snd e) \<le> 2)"
proof (intro allI)
  fix x y :: Trace
  let ?evs = "[Enqueue False 0 ''t'' [x], Receive (\<lambda>_. 0) rev, Enqueue False 0 ''t'' [y]]"
  obtain c0 where c0: "newTraceCoalescer (\<lambda>_. []) sample_cfg = Some c0" "coal_start c0 = Some sample_trace_coalescer"
    using sample_trace_start by blast
  have "\<not> cClosed sample_trace_coalescer"
    by (simp add: sample_trace_coalescer_def newTraceCoalescer_def new_coalescer_def coal_start_def sample_cfg_def
        coalescer.extend_def)
  then obtain b1 where b1: "trace_enqueue False 0 ''t'' [x] sample_trace_coalescer = Some b1" "\<not> cClosed b1"
    using step_keeps_open(4,5) unfolding trace_enqueue_def by blast
  then have "\<not> cClosed (trace_receive (\<lambda>_. 0) rev b1)" by (simp add: trace_keeps_open)
  then obtain c where "trace_enqueue False 0 ''t'' [y] (trace_receive (\<lambda>_. 0) rev b1) = Some c"
    using step_keeps_open(5) unfolding trace_enqueue_def by blast
  with b1(1) have c: "trace_run ?evs sample_trace_coalescer = Some c" by simp
  from trace_memory_bounded [OF c0 c, of 1]
  show "\<exists>c. trace_run ?evs sample_trace_coalescer = Some c \<and> length (cIn c) \<le> 1
    \<and> pendingN c = i64 (int (sum_list (map (length \<circ> snd) (cPending c)))) \<and> (\<forall>e \<in> set (cFlushed c). length (snd e) \<le> 2)"
    using c by (intro exI [of _ c]) (auto simp: sample_cfg_def)
qed


text \<open>An orderly stop flushes everything: after \<open>stop\<close> the goroutine of a metric or log
  coalescer ends once it has received the queued entries, and then every item ever enqueued for a
  tenant has been flushed to the store for this tenant, exactly once.\<close>

theorem stop_flushes_everything:
  assumes "new_coalescer env cfg sig = Some c0" "coal_start c0 = Some c1" "coal_run evs c1 = Some c"
    "\<forall>ev \<in> set evs. order_ok ev" "cRunning c" "is_range rng"
  shows "let c' = (coal_receive dur rng ^^ Suc (length (cIn c))) (coal_stop c)
    in \<not> cRunning c' \<and> cIn c' = [] \<and> cPending c' = [] \<and> of_tenant u (cFlushed c') = sum_list (map (enqueued u) evs)"
proof -
  have c: "gomap_ok (cPending c)" "coal_held u c = sum_list (map (enqueued u) evs)"
    using plain.run_conserves [OF assms(3) _ assms(4), of u] new_plain_ok [OF assms(1,2)] by simp_all
  have s: "cIn (coal_stop c) = cIn c" "coal_held u (coal_stop c) = coal_held u c" "cRunning (coal_stop c)"
    "cClosed (coal_stop c)" "gomap_ok (cPending (coal_stop c))"
    using assms(5) c by (simp_all add: coal_stop_def coal_held_def)
  from plain.drained [OF s(3-5) assms(6), of dur u, unfolded s(1,2) c(2)] show ?thesis by (auto simp: Let_def)
qed

theorem stop_flushes_everything_witness:
  "\<forall>x :: Metric. \<exists>c1 c. coal_run [Enqueue False 0 ''t'' [x]] c1 = Some c
    \<and> of_tenant ''t'' (cFlushed ((coal_receive (\<lambda>_. 0) rev ^^ Suc (length (cIn c))) (coal_stop c))) = {#x#}"
proof
  fix x :: Metric
  obtain c0 :: "Metric coalescer" where c0: "new_coalescer (\<lambda>_. []) sample_cfg ''metrics'' = Some c0"
    by (simp add: new_coalescer_def sample_cfg_def)
  then obtain c1 where c1: "coal_start c0 = Some c1"
    by (auto simp: coal_start_def new_coalescer_def sample_cfg_def)
  have "\<not> cClosed c1" "cRunning c1" "chan_accepts False c1"
    using c0 c1 by (auto simp: new_coalescer_def coal_start_def chan_accepts_def sample_cfg_def split: if_splits)
  then have c: "coal_run [Enqueue False 0 ''t'' [x]] c1 = Some (c1\<lparr>cIn := cIn c1 @ [(''t'', [x])]\<rparr>)"
    "cRunning (c1\<lparr>cIn := cIn c1 @ [(''t'', [x])]\<rparr>)" by (simp_all add: coal_enqueue_def)
  from stop_flushes_everything [OF c0 c1 c(1) _ c(2) is_range_rev, of "\<lambda>_. 0" "''t''"] c(1)
  show "\<exists>c1 c. coal_run [Enqueue False 0 ''t'' [x]] c1 = Some c
    \<and> of_tenant ''t'' (cFlushed ((coal_receive (\<lambda>_. 0) rev ^^ Suc (length (cIn c))) (coal_stop c))) = {#x#}"
    by (intro exI [of _ c1] exI [of _ "c1\<lparr>cIn := cIn c1 @ [(''t'', [x])]\<rparr>"]) (auto simp: Let_def)
qed

text \<open>Cancelling the context abandons what is queued: the goroutine flushes the pending
  buffers and ends without receiving the entries in the channel, and nothing flushes them later.\<close>

theorem cancel_abandons_queue:
  assumes "cRunning c"
  shows "let c' = coal_done dur rng c
    in cIn c' = cIn c \<and> \<not> cRunning c' \<and> coal_receive dur' rng' c' = c' \<and> coal_tick dur' rng' c' = c'"
  using assms by (simp add: coal_done_def coal_receive_def coal_tick_def)

theorem cancel_abandons_queue_witness:
  "\<exists>c :: metricCoalescer. cIn c \<noteq> [] \<and> cIn (coal_done (\<lambda>_. 0) rev c) = cIn c \<and> \<not> cRunning (coal_done (\<lambda>_. 0) rev c)"
proof -
  obtain c0 :: metricCoalescer where "new_coalescer (\<lambda>_. []) sample_cfg ''metrics'' = Some c0"
    by (simp add: new_coalescer_def sample_cfg_def)
  then show ?thesis
    using cancel_abandons_queue [of "c0\<lparr>cRunning := True, cIn := [(''t'', [m])]\<rparr>" "\<lambda>_. 0" rev for m]
    by (intro exI [of _ "c0\<lparr>cRunning := True, cIn := [(''t'', [undefined])]\<rparr>"]) (simp add: Let_def)
qed

end
