(* ===== verification/Ingest_Pipeline.thy ===== *)
theory Ingest_Pipeline
  imports Receiver Coalescer
begin

section \<open>From the socket to the store\<close>

text \<open>
  The core receiver of theory \<open>Receiver\<close> together with the three coalescers of theory \<open>Coalescer\<close>. A
  handler hands rows over by \<open>enqueueTraces\<close>, \<open>enqueueMetrics\<close> and \<open>enqueueLogs\<close>, which the receiver's
  model records as actions; here each such action becomes the call of \<open>enqueue\<close> on its batcher. The
  goroutines of the batchers take their steps in between, in any order. The two parts share no other
  state, so that a handler's calls may be placed after its other effects. The flush function of a
  batcher is \<open>storeTraces\<close>, \<open>storeMetrics\<close> or \<open>storeLogs\<close> of the receiver; its calls are recorded by the
  batcher (\<open>cFlushed\<close>).

  \<open>AgenticUDPReceiver.Stop\<close> cancels the context and never closes the channels of the batchers, so that the
  goroutines end by \<open>ContextDone\<close>.
\<close>

subsection \<open>The composed system\<close>

record ingest =
  igRcv :: Receiver
  igTrace :: traceCoalescer
  igMetric :: metricCoalescer
  igLog :: logCoalescer

text \<open>\<open>Start\<close>: the receiver with its batchers, when a store is attached. \<open>None\<close> when there is none, or when
  the configuration makes a constructor panic.\<close>

definition ingest_start :: "(string \<Rightarrow> string) \<Rightarrow> Receiver \<Rightarrow> ingest option" where
  "ingest_start env r = do {
     (r, bs) \<leftarrow> startCoalescers env r;
     (t, m, l) \<leftarrow> bs;
     Some \<lparr>igRcv = r, igTrace = t, igMetric = m, igLog = l\<rparr> }"

text \<open>What a send on a channel finds: whether the goroutine waits in its \<open>select\<close>, and how long a direct
  flush takes.\<close>

type_synonym chan_state = "bool \<times> duration"

definition hand_action :: "chan_state \<Rightarrow> action \<Rightarrow> ingest \<Rightarrow> ingest option" where
  "hand_action ch a g =
     (case a of
        EnqueueTraces t xs \<Rightarrow>
          map_option (\<lambda>c. g\<lparr>igTrace := c\<rparr>) (trace_enqueue (fst ch) (snd ch) t xs (igTrace g))
      | EnqueueMetrics t xs \<Rightarrow>
          map_option (\<lambda>c. g\<lparr>igMetric := c\<rparr>) (coal_enqueue (fst ch) (snd ch) t xs (igMetric g))
      | EnqueueLogs t xs \<Rightarrow>
          map_option (\<lambda>c. g\<lparr>igLog := c\<rparr>) (log_enqueue (fst ch) (snd ch) t xs (igLog g))
      | _ \<Rightarrow> Some g)"

fun hand_over :: "(nat \<Rightarrow> chan_state) \<Rightarrow> action list \<Rightarrow> ingest \<Rightarrow> ingest option" where
  "hand_over ch [] g = Some g"
| "hand_over ch (a # as) g = do { g \<leftarrow> hand_action (ch 0) a g; hand_over (\<lambda>n. ch (Suc n)) as g }"

datatype ingest_event =
    Handle rcv_event "nat \<Rightarrow> chan_state"
  | TraceGoroutine "Trace batch_event" | MetricGoroutine "Metric batch_event" | LogGoroutine "LogRecord batch_event"

fun ingest_step :: "ingest_event \<Rightarrow> ingest \<Rightarrow> ingest option" where
  "ingest_step (Handle ev ch) g = do {
     r \<leftarrow> rcv_step ev (igRcv g);
     hand_over ch (drop (length (actions (igRcv g))) (actions r)) (g\<lparr>igRcv := r\<rparr>) }"
| "ingest_step (TraceGoroutine ev) g = map_option (\<lambda>c. g\<lparr>igTrace := c\<rparr>) (trace_run [ev] (igTrace g))"
| "ingest_step (MetricGoroutine ev) g = map_option (\<lambda>c. g\<lparr>igMetric := c\<rparr>) (coal_run [ev] (igMetric g))"
| "ingest_step (LogGoroutine ev) g = map_option (\<lambda>c. g\<lparr>igLog := c\<rparr>) (coal_run [ev] (igLog g))"

fun ingest_run :: "ingest_event list \<Rightarrow> ingest \<Rightarrow> ingest option" where
  "ingest_run [] g = Some g"
| "ingest_run (ev # evs) g = do { g \<leftarrow> ingest_step ev g; ingest_run evs g }"

fun ingest_event_ok :: "ingest_event \<Rightarrow> bool" where
  "ingest_event_ok (Handle ev _) = rcv_event_ok ev"
| "ingest_event_ok (TraceGoroutine ev) = (goroutine_event ev \<and> order_ok ev)"
| "ingest_event_ok (MetricGoroutine ev) = (goroutine_event ev \<and> order_ok ev)"
| "ingest_event_ok (LogGoroutine ev) = (goroutine_event ev \<and> order_ok ev)"

subsection \<open>What the receiver has handed over\<close>

definition routed_traces :: "action list \<Rightarrow> (string \<times> Trace list) list" where
  "routed_traces as = concat (map (\<lambda>a. case a of EnqueueTraces t xs \<Rightarrow> [(t, xs)] | _ \<Rightarrow> []) as)"

definition routed_metrics :: "action list \<Rightarrow> (string \<times> Metric list) list" where
  "routed_metrics as = concat (map (\<lambda>a. case a of EnqueueMetrics t xs \<Rightarrow> [(t, xs)] | _ \<Rightarrow> []) as)"

definition routed_logs :: "action list \<Rightarrow> (string \<times> LogRecord list) list" where
  "routed_logs as = concat (map (\<lambda>a. case a of EnqueueLogs t xs \<Rightarrow> [(t, xs)] | _ \<Rightarrow> []) as)"

lemmas routed_defs = routed_traces_def routed_metrics_def routed_logs_def

lemma routed_append:
  "routed_traces (as @ bs) = routed_traces as @ routed_traces bs"
  "routed_metrics (as @ bs) = routed_metrics as @ routed_metrics bs"
  "routed_logs (as @ bs) = routed_logs as @ routed_logs bs"
  by (simp_all add: routed_defs)

subsection \<open>Lemmas: a lane\<close>

text \<open>A batcher that has accepted exactly the entries \<open>es\<close>, and whose channel is open.\<close>

definition lane_ok :: "(string \<times> 'i list) list \<Rightarrow> ('i, 'm) coalescer_scheme \<Rightarrow> bool" where
  "lane_ok es c \<longleftrightarrow> \<not> cClosed c \<and> gomap_ok (cPending c) \<and> (\<forall>u. coal_held u c = of_tenant u es)"

lemma lane_enqueue:
  assumes "lane_ok es c"
  shows "\<exists>c'. coal_enqueue w d t xs c = Some c' \<and> lane_ok (es @ [(t, xs)]) c'"
proof -
  obtain c' where c': "coal_enqueue w d t xs c = Some c'"
    using assms step_keeps_open(5) unfolding lane_ok_def by blast
  have "gomap_ok (cPending c') \<and> coal_held u c' = coal_held u c + (if u = t then mset xs else {#})" for u
    using enqueue_held [OF _ c', of u] assms by (simp add: lane_ok_def)
  moreover have "\<not> cClosed c'" using step_keeps_open(4) [OF c'] assms by (simp add: lane_ok_def)
  ultimately show ?thesis using assms c' by (auto simp: lane_ok_def)
qed

lemma lane_goroutine:
  assumes "lane_ok es c" "goroutine_event ev" "order_ok ev"
  shows "\<exists>c'. coal_run [ev] c = Some c' \<and> lane_ok es c'"
  using assms plain.rcv_held [of c] plain.tck_held [of c] plain.don_held [of c]
  by (cases ev) (simp_all add: lane_ok_def step_keeps_open)

lemma trace_lane_goroutine:
  assumes "lane_ok es c" "goroutine_event ev" "order_ok ev"
  shows "\<exists>c'. trace_run [ev] c = Some c' \<and> lane_ok es c'"
  using assms trace.rcv_held [of c] trace.tck_held [of c] trace.don_held [of c]
  by (cases ev) (simp_all add: lane_ok_def trace_keeps_open)

definition lanes_ok :: "action list \<Rightarrow> ingest \<Rightarrow> bool" where
  "lanes_ok as g \<longleftrightarrow> lane_ok (routed_traces as) (igTrace g) \<and> lane_ok (routed_metrics as) (igMetric g)
     \<and> lane_ok (routed_logs as) (igLog g)"

lemma hand_action_ok:
  assumes "lanes_ok as g"
  shows "\<exists>g'. hand_action ch a g = Some g' \<and> lanes_ok (as @ [a]) g' \<and> igRcv g' = igRcv g"
  using assms lane_enqueue [of "routed_traces as" "igTrace g"] lane_enqueue [of "routed_metrics as" "igMetric g"]
    lane_enqueue [of "routed_logs as" "igLog g"]
  by (cases a) (fastforce simp: lanes_ok_def routed_append hand_action_def trace_enqueue_def log_enqueue_def routed_defs)+

lemma hand_over_ok:
  assumes "lanes_ok as g"
  shows "\<exists>g'. hand_over ch bs g = Some g' \<and> lanes_ok (as @ bs) g' \<and> igRcv g' = igRcv g"
  using assms
proof (induction bs arbitrary: as g ch)
  case (Cons b bs)
  obtain g1 where "hand_action (ch 0) b g = Some g1" "lanes_ok (as @ [b]) g1" "igRcv g1 = igRcv g"
    using hand_action_ok [OF Cons.prems] by blast
  with Cons.IH [of "as @ [b]" g1 "\<lambda>n. ch (Suc n)"] show ?case by simp
qed simp

subsection \<open>Lemmas: the composed system\<close>

text \<open>A handler only appends to the actions.\<close>

lemma packet_appends:
  assumes "handlePacketWithReply e allowed d a rf r = Some r'"
  shows "\<exists>as. actions r' = actions r @ as"
proof -
  have data: "\<exists>as. actions r' = actions r @ as" if "handleData e hdr p a r = Some r'" for hdr p
    using that
    by (auto simp: handleData_def Let_def dest!: addFragment_frame(3) accept_data_frame(6)
        split: if_splits bind_splits option.splits)
  have "\<exists>as. actions (handleMetrics e p a r) = actions r @ as" for p
  proof -
    have "route_frame (touchSession (rNow e) a (upd_stats (\<lambda>s. s\<lparr>MetricsRecv := MetricsRecv s + 1\<rparr>) r))
        (handleMetrics e p a r)"
      by (simp add: handleMetrics_def Let_def route_frames split: option.splits)
    then show ?thesis by (simp add: route_frame_def)
  qed
  with assms data show ?thesis
    by (auto simp: handlePacketWithReply_def Let_def handleFIN_def handleHandshake_def recordTraversalStat_def
        handleKeepalive_def split: if_splits bind_splits)
qed

lemma step_appends:
  assumes "rcv_step ev r = Some r'"
  shows "\<exists>as. actions r' = actions r @ as"
  using assms
  by (cases ev) (auto simp: receive_raw_def receive_dtls_def handlePacket_def dedupGC_tick_def reapStaleFragments_def
      sessionGC_tick_def PendingConfig_def Let_def dest!: packet_appends)

definition ingest_ok :: "ingest \<Rightarrow> bool" where
  "ingest_ok g \<longleftrightarrow> rcv_ok (igRcv g) \<and> lanes_ok (actions (igRcv g)) g"

lemma handle_ok:
  assumes "ingest_ok g" "rcv_event_ok ev"
  shows "\<exists>g'. ingest_step (Handle ev ch) g = Some g' \<and> ingest_ok g' \<and> rcv_step ev (igRcv g) = Some (igRcv g')"
proof -
  obtain r where r: "rcv_step ev (igRcv g) = Some r" "rcv_ok r"
    using rcv_step_ok [OF assms(2)] assms(1) by (auto simp: ingest_ok_def)
  obtain as where as: "actions r = actions (igRcv g) @ as" using step_appends [OF r(1)] by blast
  have "lanes_ok (actions (igRcv g)) (g\<lparr>igRcv := r\<rparr>)" using assms(1) by (simp add: ingest_ok_def lanes_ok_def)
  from hand_over_ok [OF this, of ch as] show ?thesis using r as by (auto simp: ingest_ok_def)
qed

lemma ingest_step_ok:
  assumes "ingest_ok g" "ingest_event_ok ev"
  shows "\<exists>g'. ingest_step ev g = Some g' \<and> ingest_ok g'"
proof (cases ev)
  case (Handle rev ch)
  then show ?thesis using handle_ok [OF assms(1)] assms(2) by auto
next
  case (TraceGoroutine bev)
  then show ?thesis using assms trace_lane_goroutine [of "routed_traces (actions (igRcv g))" "igTrace g" bev]
    by (auto simp: ingest_ok_def lanes_ok_def simp del: batch_run.simps)
next
  case (MetricGoroutine bev)
  then show ?thesis using assms lane_goroutine [of "routed_metrics (actions (igRcv g))" "igMetric g" bev]
    by (auto simp: ingest_ok_def lanes_ok_def simp del: batch_run.simps)
next
  case (LogGoroutine bev)
  then show ?thesis using assms lane_goroutine [of "routed_logs (actions (igRcv g))" "igLog g" bev]
    by (auto simp: ingest_ok_def lanes_ok_def simp del: batch_run.simps)
qed

lemma ingest_run_ok:
  assumes "ingest_ok g" "\<forall>ev \<in> set evs. ingest_event_ok ev"
  shows "\<exists>g'. ingest_run evs g = Some g' \<and> ingest_ok g'"
  using assms
proof (induction evs arbitrary: g)
  case (Cons ev evs)
  then obtain g1 where "ingest_step ev g = Some g1" "ingest_ok g1" using ingest_step_ok [of g ev] by auto
  with Cons show ?case by simp
qed simp

lemma ingest_start_ok:
  assumes "ingest_start env r = Some g" "rcv_ok r" "actions r = []"
  shows "ingest_ok g \<and> cRunning (igTrace g) \<and> traceBatcher (igRcv g) \<and> rConn (igRcv g) = rConn r
    \<and> cIn (igTrace g) = [] \<and> dedup (igRcv g) = dedup r \<and> chanCap (cCfg (igTrace g)) = chanCap (loadCoalescerConfig env ''traces'')"
  using assms
  by (auto simp: ingest_start_def startCoalescers_def newTraceCoalescer_def newMetricCoalescer_def newLogCoalescer_def
      new_coalescer_def trace_start_def log_start_def coal_start_def coalescer.extend_def ingest_ok_def lanes_ok_def
      lane_ok_def coal_held_def routed_defs rcv_ok_def split: if_splits Option.bind_splits)

subsection \<open>Lemmas: one trace datagram\<close>

text \<open>A fresh datagram with a decodable envelope of trace rows: the rows are handed over once, under the
  envelope's tenant, and the datagram is acknowledged.\<close>

definition trace_datagram :: "rcv_env \<Rightarrow> u8 \<Rightarrow> bytes \<Rightarrow> string \<Rightarrow> Trace list \<Rightarrow> bool" where
  "trace_datagram e fl p tenant rows \<longleftrightarrow> length p \<le> 65521 \<and> p \<noteq> [] \<and> tenant \<noteq> [] \<and> rows \<noteq> []
     \<and> and fl flagFragment = 0 \<and> and fl flagProtobuf = 0
     \<and> (\<exists>data. decodeEnvelope e p = Some (''traces'', tenant, data) \<and> decodeTraces e data = Some rows)"

lemma batcher_frame [simp]:
  "traceBatcher (upd_stats f r) = traceBatcher r" "traceBatcher (touchSession t a r) = traceBatcher r"
  "traceBatcher (sendACK st sq ci a r) = traceBatcher r"
  by (simp_all add: upd_stats_def touchSession_def sendACK_def apply_reply_def rawUDPReply_def Let_def
      split: reply_func.split)

lemma trace_datagram_routed:
  assumes "trace_datagram e fl p tenant rows" "map_of (dedup r) ci = None" "tr \<noteq> TierBesteff" "rConn r" "traceBatcher r"
  shows "\<exists>r' as. receive_raw e True (buildPacket pktData tr fl sq st ci p) a r = Some r'
    \<and> actions r' = actions r @ as \<and> routed_traces as = [(tenant, rows)] \<and> (\<exists>bs. as = bs @ [EnqueueTraces tenant rows])
    \<and> replies r' = replies r @ [(addrKey a, buildPacketV2 pktACK 0 0 sq st ci [])]"
proof -
  let ?r = "sendACK st sq ci a (touchSession (rNow e) a (upd_stats (\<lambda>s. s\<lparr>PacketsReceived := PacketsReceived s + 1\<rparr>) r))"
  let ?hdr = "built_header pktData tr fl sq st ci p"
  have "receive_raw e True (buildPacket pktData tr fl sq st ci p) a r = accept_data e ?hdr p a ?r"
    using assms(1,3) by (simp add: trace_datagram_def receive_built handleData_def Let_def)
  moreover have "map_of (dedup ?r) (hContentID ?hdr) = None" using assms(2) by simp
  ultimately show ?thesis
    using assms
    by (auto simp: accept_data_new Let_def trace_datagram_def routeToQueue_def enqueueTraces_def publish_def act_def
        routed_traces_def buildPacketV2_eq)
qed

text \<open>What handing over one entry does to the trace channel.\<close>

lemma hand_over_skip: "routed_traces as = [] \<Longrightarrow> hand_over ch as g = Some g' \<Longrightarrow> igTrace g' = igTrace g"
proof (induction as arbitrary: ch g)
  case (Cons a as)
  then obtain g1 where g1: "hand_action (ch 0) a g = Some g1" "hand_over (\<lambda>n. ch (Suc n)) as g1 = Some g'"
    by (auto split: Option.bind_splits)
  moreover have "routed_traces as = []" "igTrace g1 = igTrace g"
    using Cons.prems(1) g1(1) by (auto simp: routed_traces_def hand_action_def split: action.splits)
  ultimately show ?case using Cons.IH by metis
qed simp

lemma hand_over_append:
  "hand_over ch (as @ bs) g = Option.bind (hand_over ch as g) (hand_over (\<lambda>n. ch (n + length as)) bs)"
proof (induction as arbitrary: ch g)
  case (Cons a as)
  then show ?case by (cases "hand_action (ch 0) a g") simp_all
qed simp

lemma hand_over_last:
  assumes "hand_over ch (bs @ [EnqueueTraces t xs]) g = Some g'" "routed_traces bs = []"
  shows "\<exists>w d. coal_enqueue w d t xs (igTrace g) = Some (igTrace g')"
proof -
  obtain g1 where "hand_over ch bs g = Some g1" "hand_action (ch (length bs)) (EnqueueTraces t xs) g1 = Some g'"
    using assms(1) by (auto simp: hand_over_append split: Option.bind_splits)
  then have "coal_enqueue (fst (ch (length bs))) (snd (ch (length bs))) t xs (igTrace g) = Some (igTrace g')"
    using hand_over_skip [OF assms(2)] by (auto simp: hand_action_def trace_enqueue_def)
  then show ?thesis by blast
qed

lemma handle_trace_datagram:
  fixes ev :: rcv_event
  assumes "ingest_ok g" "ids_ok e" "trace_datagram e fl p tenant rows" "map_of (dedup (igRcv g)) ci = None"
    "tr \<noteq> TierBesteff" "rConn (igRcv g)" "traceBatcher (igRcv g)"
    and ev: "ev = Datagram e True (buildPacket pktData tr fl sq st ci p) a"
    and sq: "sq \<noteq> - 1 \<or> and fl flagLastFragment = 0"
  shows "\<exists>g1 w d. ingest_step (Handle ev ch) g = Some g1 \<and> ingest_ok g1
    \<and> coal_enqueue w d tenant rows (igTrace g) = Some (igTrace g1)
    \<and> routed_traces (actions (igRcv g1)) = routed_traces (actions (igRcv g)) @ [(tenant, rows)]
    \<and> replies (igRcv g1) = replies (igRcv g) @ [(addrKey a, buildPacketV2 pktACK 0 0 sq st ci [])]"
proof -
  obtain r' as bs where r': "rcv_step ev (igRcv g) = Some r'" "actions r' = actions (igRcv g) @ as"
    "routed_traces as = [(tenant, rows)]" "as = bs @ [EnqueueTraces tenant rows]"
    "replies r' = replies (igRcv g) @ [(addrKey a, buildPacketV2 pktACK 0 0 sq st ci [])]"
    using trace_datagram_routed [OF assms(3-7), of sq st a] by (auto simp: ev)
  have "take 65535 (buildPacket pktData tr fl sq st ci p) = buildPacket pktData tr fl sq st ci p"
    using assms(3) by (simp add: trace_datagram_def)
  then have "rcv_event_ok ev" using assms(2) built_datagram_ok [OF sq] by (simp add: ev)
  with handle_ok [OF assms(1)] r'(1) obtain g1 where
    g1: "ingest_step (Handle ev ch) g = Some g1" "ingest_ok g1" "igRcv g1 = r'" by force
  then have "hand_over ch (bs @ [EnqueueTraces tenant rows]) (g\<lparr>igRcv := r'\<rparr>) = Some g1" "routed_traces bs = []"
    using r' by (auto simp: routed_append routed_traces_def)
  from hand_over_last [OF this] show ?thesis using g1 r' by (auto simp: routed_append)
qed

lemma run_receives:
  "ingest_run (replicate n (TraceGoroutine (Receive dur rng)) @ evs) g
     = ingest_run evs (g\<lparr>igTrace := (trace_receive dur rng ^^ n) (igTrace g)\<rparr>)"
  by (induction n arbitrary: g) (simp_all add: funpow_swap1)

lemma enqueue_frame:
  "coal_enqueue w d t xs c = Some c' \<Longrightarrow> cRunning c' = cRunning c \<and> cCfg c' = cCfg c \<and> length (cIn c') \<le> Suc (length (cIn c))"
  by (auto simp: coal_enqueue_def split: if_splits)

text \<open>Once its goroutine has ended, nothing takes an entry out of a channel.\<close>

lemma ended_keeps_queue:
  assumes "\<not> cRunning c" "trace_run [ev] c = Some c'"
  shows "\<not> cRunning c' \<and> (\<exists>xs. cIn c' = cIn c @ xs)"
  using assms
  by (cases ev) (auto simp: trace_receive_def trace_tick_def trace_done_def trace_stop_def coal_stop_def
      trace_enqueue_def coal_enqueue_def split: if_splits)

lemma hand_action_ended:
  assumes "\<not> cRunning (igTrace g)" "hand_action ch a g = Some g'"
  shows "\<not> cRunning (igTrace g') \<and> (\<exists>xs. cIn (igTrace g') = cIn (igTrace g) @ xs)"
  using assms
  by (cases a) (auto simp: hand_action_def trace_enqueue_def coal_enqueue_def split: if_splits)

lemma hand_over_ended:
  assumes "\<not> cRunning (igTrace g)" "hand_over ch as g = Some g'"
  shows "\<not> cRunning (igTrace g') \<and> (\<exists>xs. cIn (igTrace g') = cIn (igTrace g) @ xs)"
  using assms
proof (induction as arbitrary: ch g)
  case (Cons a as)
  then obtain g1 where g1: "hand_action (ch 0) a g = Some g1" "hand_over (\<lambda>n. ch (Suc n)) as g1 = Some g'"
    by (auto split: Option.bind_splits)
  then show ?case using Cons.IH hand_action_ended [OF Cons.prems(1) g1(1)] by fastforce
qed simp

lemma run_ended:
  assumes "\<not> cRunning (igTrace g)" "ingest_run evs g = Some g'"
  shows "\<exists>xs. cIn (igTrace g') = cIn (igTrace g) @ xs"
  using assms
proof (induction evs arbitrary: g)
  case (Cons ev evs)
  then obtain g1 where g1: "ingest_step ev g = Some g1" "ingest_run evs g1 = Some g'"
    by (auto split: Option.bind_splits)
  have "\<not> cRunning (igTrace g1) \<and> (\<exists>xs. cIn (igTrace g1) = cIn (igTrace g) @ xs)"
  proof (cases ev)
    case (Handle rev ch)
    with g1(1) obtain r where "hand_over ch (drop (length (actions (igRcv g))) (actions r)) (g\<lparr>igRcv := r\<rparr>) = Some g1"
      by (auto split: Option.bind_splits)
    from hand_over_ended [OF _ this] Cons.prems(1) show ?thesis by simp
  next
    case (TraceGoroutine bev)
    with g1(1) ended_keeps_queue [OF Cons.prems(1), of bev] show ?thesis by (auto simp del: batch_run.simps)
  qed (use g1(1) Cons.prems(1) in \<open>auto simp del: batch_run.simps\<close>)
  with Cons.IH [OF _ g1(2)] show ?case by fastforce
qed simp

subsection \<open>Properties\<close>

text \<open>Property C13. Between the socket and the store nothing is lost and nothing duplicated while the receiver
  runs: a receiver started with a store handles every sequence of datagrams, collector ticks and steps of the
  three batching goroutines, in any order, without a panic, and at every moment the rows handed over by the
  handlers for a tenant are exactly those given to the store for it, those buffered and those in the
  channel, for traces, metrics and logs alike.\<close>

theorem ingest_rows_conserved:
  assumes "ingest_start env r = Some g0" "rcv_ok r" "actions r = []" "\<forall>ev \<in> set evs. ingest_event_ok ev"
  shows "\<exists>g. ingest_run evs g0 = Some g \<and> rcv_ok (igRcv g)
    \<and> (\<forall>u. of_tenant u (cFlushed (igTrace g)) + of_tenant u (cPending (igTrace g)) + of_tenant u (cIn (igTrace g))
           = of_tenant u (routed_traces (actions (igRcv g))))
    \<and> (\<forall>u. of_tenant u (cFlushed (igMetric g)) + of_tenant u (cPending (igMetric g)) + of_tenant u (cIn (igMetric g))
           = of_tenant u (routed_metrics (actions (igRcv g))))
    \<and> (\<forall>u. of_tenant u (cFlushed (igLog g)) + of_tenant u (cPending (igLog g)) + of_tenant u (cIn (igLog g))
           = of_tenant u (routed_logs (actions (igRcv g))))"
proof -
  obtain g where "ingest_run evs g0 = Some g" "ingest_ok g"
    using ingest_run_ok [OF _ assms(4)] ingest_start_ok [OF assms(1-3)] by blast
  then show ?thesis by (auto simp: ingest_ok_def lanes_ok_def lane_ok_def coal_held_def ac_simps)
qed

definition sample_store_rcv :: Receiver where
  "sample_store_rcv = SetStore True sample_rcv"

definition sample_ingest :: ingest where
  "sample_ingest = the (ingest_start (\<lambda>_. []) sample_store_rcv)"

lemma sample_start: "ingest_start (\<lambda>_. []) sample_store_rcv = Some sample_ingest"
  "rcv_ok sample_store_rcv" "actions sample_store_rcv = []" "rConn sample_store_rcv" "dedup sample_store_rcv = []"
proof -
  have "rStore sample_store_rcv" by (simp add: sample_store_rcv_def SetStore_def)
  then have "\<exists>g. ingest_start (\<lambda>_. []) sample_store_rcv = Some g"
    by (simp add: ingest_start_def startCoalescers_def newTraceCoalescer_def newMetricCoalescer_def newLogCoalescer_def
        new_coalescer_def trace_start_def log_start_def coal_start_def loadCoalescerConfig_def envIntDefault_def
        coalescer.extend_def i64_def)
  then show "ingest_start (\<lambda>_. []) sample_store_rcv = Some sample_ingest" by (auto simp: sample_ingest_def)
  show "rcv_ok sample_store_rcv" "actions sample_store_rcv = []" "rConn sample_store_rcv" "dedup sample_store_rcv = []"
    by (simp_all add: sample_store_rcv_def SetStore_def sample_rcv_def SetPipeline_def NewAgenticUDPReceiver_def rcv_ok_def)
qed

theorem ingest_rows_conserved_witness:
  "\<exists>g. ingest_run [Handle (Datagram (sample_rcv_env 5) True (buildPacket pktData 0 0 1 0 7 [1, 2]) sample_addr) (\<lambda>_. (True, 0)),
        TraceGoroutine (TickerFires (\<lambda>_. 0) rev)] sample_ingest = Some g
     \<and> of_tenant ''t1'' (cFlushed (igTrace g)) + of_tenant ''t1'' (cPending (igTrace g)) + of_tenant ''t1'' (cIn (igTrace g))
         = of_tenant ''t1'' (routed_traces (actions (igRcv g)))"
  using ingest_rows_conserved [OF sample_start(1-3), of "[Handle (Datagram (sample_rcv_env 5) True
        (buildPacket pktData 0 0 1 0 7 [1, 2]) sample_addr) (\<lambda>_. (True, 0)), TraceGoroutine (TickerFires (\<lambda>_. 0) rev)]"]
  by (simp add: sample_ok built_datagram_ok del: ingest_run.simps) blast

text \<open>An acknowledged row reaches the store: when a reliable datagram with trace rows arrives that
  was not seen before, it is acknowledged, and once the batching goroutine has taken the entries from its
  channel and its ticker has fired, the rows have been given to the store under the tenant of the
  envelope, with everything that was accepted before them.\<close>

lemma acked_rows_reach_store:
  assumes g: "ingest_ok g" "cRunning (igTrace g)" "rConn (igRcv g)" "traceBatcher (igRcv g)"
    and d: "trace_datagram e fl p tenant rows" "ids_ok e" "tr \<noteq> TierBesteff" "map_of (dedup (igRcv g)) ci = None"
      "sq \<noteq> - 1 \<or> and fl flagLastFragment = 0"
    and rng: "is_range rng"
  shows "\<exists>g'. ingest_run (Handle (Datagram e True (buildPacket pktData tr fl sq st ci p) a) ch
        # replicate (Suc (length (cIn (igTrace g)))) (TraceGoroutine (Receive dur rng))
        @ [TraceGoroutine (TickerFires dur rng)]) g = Some g'
    \<and> replies (igRcv g') = replies (igRcv g) @ [(addrKey a, buildPacketV2 pktACK 0 0 sq st ci [])]
    \<and> (\<forall>u. of_tenant u (cFlushed (igTrace g'))
          = of_tenant u (routed_traces (actions (igRcv g))) + (if u = tenant then mset rows else {#}))"
proof -
  obtain g1 w du where g1: "ingest_step (Handle (Datagram e True (buildPacket pktData tr fl sq st ci p) a) ch) g = Some g1"
    "ingest_ok g1" "coal_enqueue w du tenant rows (igTrace g) = Some (igTrace g1)"
    "routed_traces (actions (igRcv g1)) = routed_traces (actions (igRcv g)) @ [(tenant, rows)]"
    "replies (igRcv g1) = replies (igRcv g) @ [(addrKey a, buildPacketV2 pktACK 0 0 sq st ci [])]"
    using handle_trace_datagram [OF g(1) d(2,1,4,3) g(3,4) refl d(5), of st a ch] by blast
  have lane: "lane_ok (routed_traces (actions (igRcv g1))) (igTrace g1)" using g1(2) by (simp add: ingest_ok_def lanes_ok_def)
  have "cRunning (igTrace g1)" "length (cIn (igTrace g1)) \<le> Suc (length (cIn (igTrace g)))"
    using enqueue_frame [OF g1(3)] g(2) by auto
  with lane rng trace.tick_after_drain [of "igTrace g1" rng "Suc (length (cIn (igTrace g)))" u dur for u]
  have "of_tenant u (cFlushed (trace_tick dur rng ((trace_receive dur rng ^^ Suc (length (cIn (igTrace g)))) (igTrace g1))))
      = of_tenant u (routed_traces (actions (igRcv g1)))" for u
    by (simp only: lane_ok_def simp_thms)
  then show ?thesis
    using g1(1,4,5) run_receives [of "Suc (length (cIn (igTrace g)))" dur rng "[TraceGoroutine (TickerFires dur rng)]" g1]
    by (simp del: replicate.simps funpow.simps)
qed

definition sample_trace :: Trace where
  "sample_trace = \<lparr>tTraceID = ''ab'', tSpanID = ''cd'', tParentSpanID = [], tServiceName = ''svc'', tOperationName = ''op'',
     tStartTime = 0, tEndTime = 9, tDurationUS = 9, tStatusCode = ''OK'', tSpanKind = ''SERVER'', tAttributes = [], tTenantID = []\<rparr>"

definition trace_env :: rcv_env where
  "trace_env = (sample_rcv_env 5)\<lparr>decodeEnvelope := (\<lambda>_. Some (''traces'', ''acme'', [])), decodeTraces := (\<lambda>_. Some [sample_trace])\<rparr>"

lemma sample_trace_datagram: "trace_datagram trace_env 0 [1, 2] ''acme'' [sample_trace]" "ids_ok trace_env"
  by (simp_all add: trace_datagram_def trace_env_def ids_ok_def sample_rcv_env_def)

lemma sample_ingest_ready:
  "ingest_ok sample_ingest" "cRunning (igTrace sample_ingest)" "rConn (igRcv sample_ingest)" "traceBatcher (igRcv sample_ingest)"
  "cIn (igTrace sample_ingest) = []" "map_of (dedup (igRcv sample_ingest)) ci = None"
  "chanCap (cCfg (igTrace sample_ingest)) = 4096"
  using ingest_start_ok [OF sample_start(1-3)] sample_start(4,5) by (simp_all add: loadCoalescerConfig_def envIntDefault_def)

text \<open>Property C14. Stopping the receiver loses acknowledged rows: \<open>Stop\<close> cancels the context, and the batching
  goroutine then flushes its buffers and returns without looking at its channel. Rows of a datagram that
  has been acknowledged, whatever its tier, and that wait in the channel at that moment stay there for ever,
  whatever happens afterwards.\<close>

theorem acked_rows_lost_at_stop:
  assumes g: "ingest_ok g" "cRunning (igTrace g)" "rConn (igRcv g)" "traceBatcher (igRcv g)"
      "int (length (cIn (igTrace g))) < chanCap (cCfg (igTrace g))"
    and d: "trace_datagram e fl p tenant rows" "ids_ok e" "tr \<noteq> TierBesteff" "map_of (dedup (igRcv g)) ci = None"
      "sq \<noteq> - 1 \<or> and fl flagLastFragment = 0"
  shows "\<exists>g'. ingest_run [Handle (Datagram e True (buildPacket pktData tr fl sq st ci p) a) ch,
        TraceGoroutine (ContextDone dur rng)] g = Some g'
    \<and> replies (igRcv g') = replies (igRcv g) @ [(addrKey a, buildPacketV2 pktACK 0 0 sq st ci [])]
    \<and> (\<forall>evs g''. ingest_run evs g' = Some g'' \<longrightarrow> (tenant, rows) \<in> set (cIn (igTrace g'')))"
proof -
  obtain g1 w du where g1: "ingest_step (Handle (Datagram e True (buildPacket pktData tr fl sq st ci p) a) ch) g = Some g1"
    "ingest_ok g1" "coal_enqueue w du tenant rows (igTrace g) = Some (igTrace g1)"
    "replies (igRcv g1) = replies (igRcv g) @ [(addrKey a, buildPacketV2 pktACK 0 0 sq st ci [])]"
    using handle_trace_datagram [OF g(1) d(2,1,4,3) g(3,4) refl d(5), of st a ch] by blast
  let ?g = "g1\<lparr>igTrace := trace_done dur rng (igTrace g1)\<rparr>"
  have "rows \<noteq> []" "\<not> cClosed (igTrace g)"
    using d(1) g(1) by (simp_all add: trace_datagram_def ingest_ok_def lanes_ok_def lane_ok_def)
  then have "igTrace g1 = (igTrace g)\<lparr>cIn := cIn (igTrace g) @ [(tenant, rows)]\<rparr>"
    using g1(3) g(5) by (simp add: coal_enqueue_def chan_accepts_def)
  then have "cIn (igTrace g1) = cIn (igTrace g) @ [(tenant, rows)]" "cRunning (igTrace g1)"
    using g(2) by simp_all
  then have "\<not> cRunning (igTrace ?g)" "(tenant, rows) \<in> set (cIn (igTrace ?g))"
    by (simp_all add: trace_done_def)
  then have "(tenant, rows) \<in> set (cIn (igTrace g''))" if "ingest_run evs ?g = Some g''" for evs g''
    using run_ended [OF _ that] by auto
  then show ?thesis using g1(1,4) by auto
qed

theorem acked_rows_lost_at_stop_witness:
  "\<exists>g'. ingest_run [Handle (Datagram trace_env True (buildPacket pktData TierGuaranteed 0 1 0 7 [1, 2]) sample_addr) (\<lambda>_. (False, 0)),
        TraceGoroutine (ContextDone (\<lambda>_. 0) rev)] sample_ingest = Some g'
    \<and> replies (igRcv g') = replies (igRcv sample_ingest) @ [(addrKey sample_addr, buildPacketV2 pktACK 0 0 1 0 7 [])]
    \<and> (\<forall>evs g''. ingest_run evs g' = Some g'' \<longrightarrow> (''acme'', [sample_trace]) \<in> set (cIn (igTrace g'')))"
proof (rule acked_rows_lost_at_stop [OF sample_ingest_ready(1-4) _ sample_trace_datagram])
qed (simp_all add: sample_ingest_ready)

end
