(* ===== verification/Otel_Receiver.thy ===== *)
theory Otel_Receiver
  imports Reassembly Receiver_Route Client_Send
begin

section \<open>The OpenTelemetry collector receiver\<close>

text \<open>
  \<open>otelcol/receiver/agenticudpreceiver\<close>: a second, independent receiver for V2 datagrams. It parses the
  header, reassembles fragments with its own buffer, decodes the JSON envelope and hands it to up to
  three consumers. It does not acknowledge. The consumers are interfaces bound outside the
  repository; the calls made to them are recorded, their answers are a parameter, and so is the JSON
  decoder. \<open>None\<close> means that the read goroutine does not come back.
\<close>

subsection \<open>Headers\<close>

text \<open>\<open>HeaderV2\<close> has the fields of the core receiver's header type, which is reused here. The second
  component is \<open>ok\<close>; a failed parse leaves a header whose fields nobody reads.\<close>

definition ParseHeader :: "bytes \<Rightarrow> PacketHeaderV2 option" where
  "ParseHeader data =
     (if length data < headerSize then None
      else do {
        h \<leftarrow> parseHeaderV2 data;
        if hVersion h \<noteq> protoV2 then None else Some h })"

subsection \<open>Envelopes\<close>

record JSONMetric =
  jmName :: string
  jmValue :: real
  jmUnit :: string
  jmServiceName :: string
  jmLabels :: labels
  jmTime :: gotime

record JSONSpan =
  jsTraceID :: string
  jsSpanID :: string
  jsParentSpanID :: string
  jsServiceName :: string
  jsName :: string
  jsKind :: string
  jsStartTime :: gotime
  jsEndTime :: gotime
  jsStatusCode :: string
  jsAttributes :: labels

record JSONLog =
  jlTraceID :: string
  jlSpanID :: string
  jlServiceName :: string
  jlSeverityText :: string
  jlBody :: string
  jlTime :: gotime
  jlAttributes :: labels

record JSONEnvelope =
  jeTenantID :: string
  jeSource :: string
  jeSchema :: string
  jeTime :: gotime
  jeMetrics :: "JSONMetric list"
  jeTraces :: "JSONSpan list"
  jeLogs :: "JSONLog list"
  jeResource :: labels
  jeExtra :: "(string, json) gomap"

text \<open>\<open>unmarshal\<close> is \<open>json.Unmarshal\<close> into the envelope type.\<close>

definition DecodeJSONEnvelope :: "(bytes \<Rightarrow> JSONEnvelope option) \<Rightarrow> bytes \<Rightarrow> JSONEnvelope option" where
  "DecodeJSONEnvelope unmarshal payload =
     (if payload = [] then None
      else if hd payload \<noteq> 0x7B \<and> hd payload \<noteq> 0x5B then None
      else unmarshal payload)"

subsection \<open>The fragment buffer\<close>

record fragmentEntry =
  feParts :: "(u16, bytes) gomap"
  feLastSeq :: u16
  feComplete :: bool
  feFlags :: u8
  feCreated :: gotime

record FragmentBuffer =
  bParts :: "(u32, fragmentEntry) gomap"
  bMaxAge :: duration

definition NewFragmentBuffer :: "duration \<Rightarrow> FragmentBuffer" where
  "NewFragmentBuffer maxAge = \<lparr>bParts = [], bMaxAge = (if maxAge \<le> 0 then 30 * second else maxAge)\<rparr>"

text \<open>The loop \<open>for i := uint16(0); i <= entry.lastSeq; i++\<close>. The inner \<open>None\<close> is the return of nil at a
  missing part; the outer one is a loop that does not end, when the counter wraps at 65535.\<close>

partial_function (option) collect_parts ::
  "(u16, bytes) gomap \<Rightarrow> u16 \<Rightarrow> u16 \<Rightarrow> bytes \<Rightarrow> bytes option option" where
  "collect_parts parts lastSeq i out =
     (if i \<le> lastSeq
      then (case map_of parts i of
              None \<Rightarrow> Some None
            | Some part \<Rightarrow> collect_parts parts lastSeq (i + 1) (out @ part))
      else Some (Some out))"

definition entry_with :: "gotime \<Rightarrow> PacketHeaderV2 \<Rightarrow> bytes \<Rightarrow> FragmentBuffer \<Rightarrow> fragmentEntry" where
  "entry_with now h payload b =
     (let entry = (case map_of (bParts b) (hContentID h) of
                     Some en \<Rightarrow> en
                   | None \<Rightarrow> \<lparr>feParts = [], feLastSeq = 0, feComplete = False, feFlags = hFlags h,
                              feCreated = now\<rparr>);
          entry = entry\<lparr>feParts := AList.update (hSeq h) payload (feParts entry)\<rparr>
      in if and (hFlags h) flagLastFragment \<noteq> 0
         then entry\<lparr>feLastSeq := hSeq h, feComplete := True\<rparr> else entry)"

definition AddAndMaybeAssemble ::
  "gotime \<Rightarrow> PacketHeaderV2 \<Rightarrow> bytes \<Rightarrow> FragmentBuffer \<Rightarrow> (FragmentBuffer \<times> bytes option) option" where
  "AddAndMaybeAssemble now h payload b =
     (if and (hFlags h) flagFragment = 0 then Some (b, Some payload)
      else
        let entry = entry_with now h payload b;
            b = b\<lparr>bParts := AList.update (hContentID h) entry (bParts b)\<rparr>
        in if \<not> feComplete entry then Some (b, None)
           else if (of_nat (length (feParts entry)) :: u16) \<le> feLastSeq entry then Some (b, None)
           else do {
             out \<leftarrow> collect_parts (feParts entry) (feLastSeq entry) 0 [];
             case out of
               None \<Rightarrow> Some (b, None)
             | Some full \<Rightarrow> Some (b\<lparr>bParts := AList.delete (hContentID h) (bParts b)\<rparr>, Some full) })"

definition Reap :: "gotime \<Rightarrow> FragmentBuffer \<Rightarrow> FragmentBuffer \<times> nat" where
  "Reap now b =
     (let cutoff = now - bMaxAge b; old = (\<lambda>e. feCreated (snd e) < cutoff)
      in (b\<lparr>bParts := filter (\<lambda>e. \<not> old e) (bParts b)\<rparr>, length (filter old (bParts b))))"

subsection \<open>The receiver\<close>

record otel_Config =
  ocEndpoint :: string
  ocDefaultTenant :: string
  ocFragmentTTLSeconds :: int
  ocMaxPacketBytes :: int

definition Validate :: "otel_Config \<Rightarrow> otel_Config" where
  "Validate c =
     (let c = (if ocEndpoint c = [] then c\<lparr>ocEndpoint := ''0.0.0.0:4320''\<rparr> else c);
          c = (if ocMaxPacketBytes c \<le> 0 then c\<lparr>ocMaxPacketBytes := 65535\<rparr> else c)
      in if ocFragmentTTLSeconds c \<le> 0 then c\<lparr>ocFragmentTTLSeconds := 30\<rparr> else c)"

datatype lane = MetricsLane | TracesLane | LogsLane

record otel_Receiver =
  orCfg :: otel_Config
  orMetricsTo :: bool
  orTracesTo :: bool
  orLogsTo :: bool
  orFrags :: FragmentBuffer
  orEnvelopes :: int
  orDropped :: int
  orConsumed :: "(lane \<times> JSONEnvelope) list"

definition NewReceiver :: "otel_Config \<Rightarrow> bool \<Rightarrow> bool \<Rightarrow> bool \<Rightarrow> otel_Receiver" where
  "NewReceiver cfg m t l =
     \<lparr>orCfg = Validate cfg, orMetricsTo = m, orTracesTo = t, orLogsTo = l,
      orFrags = NewFragmentBuffer 0, orEnvelopes = 0, orDropped = 0, orConsumed = []\<rparr>"

definition CreateDefaultConfig :: otel_Config where
  "CreateDefaultConfig =
     Validate \<lparr>ocEndpoint = [], ocDefaultTenant = [], ocFragmentTTLSeconds = 0, ocMaxPacketBytes = 0\<rparr>"

definition CreateReceiver :: "otel_Config \<Rightarrow> bool \<Rightarrow> bool \<Rightarrow> bool \<Rightarrow> otel_Receiver option" where
  "CreateReceiver cfg m t l = (if \<not> m \<and> \<not> t \<and> \<not> l then None else Some (NewReceiver cfg m t l))"

definition drop_one :: "otel_Receiver \<Rightarrow> otel_Receiver" where
  "drop_one r = r\<lparr>orDropped := i64 (orDropped r + 1)\<rparr>"

definition offer :: "bool \<Rightarrow> lane \<Rightarrow> JSONEnvelope \<Rightarrow> otel_Receiver \<Rightarrow> otel_Receiver" where
  "offer to la env r = (if to then r\<lparr>orConsumed := orConsumed r @ [(la, env)]\<rparr> else r)"

text \<open>\<open>cerr\<close> tells whether a consumer returns an error.\<close>

definition fanout :: "(lane \<Rightarrow> JSONEnvelope \<Rightarrow> bool) \<Rightarrow> JSONEnvelope \<Rightarrow> otel_Receiver \<Rightarrow> otel_Receiver" where
  "fanout cerr env r =
     (let m = orMetricsTo r \<and> jeMetrics env \<noteq> [];
          t = orTracesTo r \<and> jeTraces env \<noteq> [];
          l = orLogsTo r \<and> jeLogs env \<noteq> [];
          firstErr = (m \<and> cerr MetricsLane env \<or> t \<and> cerr TracesLane env \<or> l \<and> cerr LogsLane env);
          r = offer l LogsLane env (offer t TracesLane env (offer m MetricsLane env r))
      in if firstErr then drop_one r else r)"

definition otel_handle ::
  "(bytes \<Rightarrow> JSONEnvelope option) \<Rightarrow> (lane \<Rightarrow> JSONEnvelope \<Rightarrow> bool) \<Rightarrow> gotime \<Rightarrow> bytes
     \<Rightarrow> otel_Receiver \<Rightarrow> otel_Receiver option" where
  "otel_handle unmarshal cerr now data r =
     (case ParseHeader data of
        None \<Rightarrow> Some (drop_one r)
      | Some hdr \<Rightarrow>
          if hType hdr \<noteq> pktData \<and> hType hdr \<noteq> pktMetrics then Some r
          else do {
            (frags, full) \<leftarrow> AddAndMaybeAssemble now hdr (drop headerSize data) (orFrags r);
            let r = r\<lparr>orFrags := frags\<rparr>;
            case full of
              None \<Rightarrow> Some r
            | Some full \<Rightarrow>
                if and (hFlags hdr) flagProtobuf \<noteq> 0 then Some (drop_one r)
                else (case DecodeJSONEnvelope unmarshal full of
                        None \<Rightarrow> Some (drop_one r)
                      | Some env \<Rightarrow>
                          let env = (if jeTenantID env = [] then env\<lparr>jeTenantID := ocDefaultTenant (orCfg r)\<rparr> else env);
                              r = r\<lparr>orEnvelopes := i64 (orEnvelopes r + 1)\<rparr>
                          in Some (fanout cerr env r)) })"

text \<open>One turn of the read loop: \<open>None\<close> for a read error, otherwise the datagram, cut to the buffer.\<close>

definition otel_loop_step ::
  "(bytes \<Rightarrow> JSONEnvelope option) \<Rightarrow> (lane \<Rightarrow> JSONEnvelope \<Rightarrow> bool) \<Rightarrow> gotime \<Rightarrow> bytes option
     \<Rightarrow> otel_Receiver \<Rightarrow> otel_Receiver option" where
  "otel_loop_step unmarshal cerr now rd r =
     (case rd of
        None \<Rightarrow> Some (drop_one r)
      | Some d \<Rightarrow>
          let data = take (nat (ocMaxPacketBytes (orCfg r))) d
          in if length data < headerSize then Some (drop_one r)
             else otel_handle unmarshal cerr now data r)"

subsection \<open>Lemmas: the reassembly loop\<close>

lemma collect_parts_missing:
  assumes "s \<le> i" "i \<le> l" "map_of parts i = None"
  shows "collect_parts parts l s acc = Some None"
  using assms
proof (induction "unat i - unat s" arbitrary: s acc)
  case 0
  then have "s = i" by (simp add: word_le_nat_alt word_unat_eq_iff)
  with 0 show ?case by (subst collect_parts.simps) simp
next
  case (Suc n)
  then have lt: "unat s < unat i" by linarith
  then have "s \<noteq> - 1" using word_order.extremum [of i] by (metis leD word_less_nat_alt)
  then have u: "unat (s + 1) = Suc (unat s)" by (rule unat_plus_one)
  have "collect_parts parts l (s + 1) a = Some None" for a
    using Suc.hyps Suc.prems(2,3) u lt by (intro Suc.hyps(1)) (simp_all add: word_le_nat_alt)
  moreover have "s \<le> l" using Suc.prems by simp
  ultimately show ?case by (subst collect_parts.simps) (simp split: option.split)
qed

lemma collect_parts_all:
  assumes "l \<noteq> - 1" "\<forall>i. s \<le> i \<and> i \<le> l \<longrightarrow> map_of parts i \<noteq> None"
  shows "collect_parts parts l s acc =
    Some (Some (acc @ concat (map (\<lambda>i. the (map_of parts (of_nat i))) [unat s..<Suc (unat l)])))"
  using assms
proof (induction "Suc (unat l) - unat s" arbitrary: s acc)
  case 0
  then have "\<not> s \<le> l" by (simp add: word_le_nat_alt)
  with 0 show ?case by (subst collect_parts.simps) simp
next
  case (Suc k)
  then have le: "s \<le> l" by (simp add: word_le_nat_alt)
  then have s: "s \<noteq> - 1" using assms(1) by (auto simp: word_order.extremum_unique)
  note u = unat_plus_one [OF s]
  have cons: "[unat s..<Suc (unat l)] = unat s # [Suc (unat s)..<Suc (unat l)]"
    using le by (simp add: upt_conv_Cons word_le_nat_alt)
  from Suc.prems(2) le obtain p where p: "map_of parts s = Some p" by auto
  have "\<forall>i. s + 1 \<le> i \<and> i \<le> l \<longrightarrow> map_of parts i \<noteq> None"
    using Suc.prems(2) loop_split [OF le s, of "\<lambda>i. map_of parts i \<noteq> None"] by blast
  with Suc.hyps(1) [of "s + 1"] Suc.hyps(2) Suc.prems(1) u cons le p show ?case
    by (subst collect_parts.simps) simp
qed

subsection \<open>The collector receiver implements the reassembly contract\<close>

definition otel_add ::
  "(u16 \<Rightarrow> gotime) \<Rightarrow> (u16 \<Rightarrow> PacketHeaderV2) \<Rightarrow> u32 \<Rightarrow> u16 \<Rightarrow> bool \<Rightarrow> bytes \<Rightarrow> FragmentBuffer
     \<Rightarrow> (FragmentBuffer \<times> bytes option) option" where
  "otel_add now h c q fin p b = AddAndMaybeAssemble (now q) (frag_header h c q fin) p b"

definition otel_parts :: "FragmentBuffer \<Rightarrow> u32 \<Rightarrow> u16 \<rightharpoonup> bytes" where
  "otel_parts b c = (case map_of (bParts b) c of None \<Rightarrow> Map.empty | Some en \<Rightarrow> map_of (feParts en))"

definition otel_last :: "FragmentBuffer \<Rightarrow> u32 \<Rightarrow> u16 option" where
  "otel_last b c = (case map_of (bParts b) c of None \<Rightarrow> None
     | Some en \<Rightarrow> if feComplete en then Some (feLastSeq en) else None)"

definition frags_ok :: "FragmentBuffer \<Rightarrow> bool" where
  "frags_ok b \<longleftrightarrow> all_vals (\<lambda>en. gomap_ok (feParts en)) (bParts b)"

lemma entry_with_view:
  "map_of (feParts (entry_with t (frag_header h c q fin) p b)) = (otel_parts b c)(q \<mapsto> p)"
  "(if feComplete (entry_with t (frag_header h c q fin) p b)
    then Some (feLastSeq (entry_with t (frag_header h c q fin) p b)) else None)
   = (if fin then Some q else otel_last b c)"
  "frags_ok b \<Longrightarrow> gomap_ok (feParts (entry_with t (frag_header h c q fin) p b))"
proof -
  have f: "hSeq (frag_header h c q fin) = q" "hContentID (frag_header h c q fin) = c"
    by (simp_all add: frag_header_def)
  show "map_of (feParts (entry_with t (frag_header h c q fin) p b)) = (otel_parts b c)(q \<mapsto> p)"
    by (simp add: entry_with_def f otel_parts_def Let_def update_conv' split: option.splits)
  show "(if feComplete (entry_with t (frag_header h c q fin) p b)
      then Some (feLastSeq (entry_with t (frag_header h c q fin) p b)) else None)
    = (if fin then Some q else otel_last b c)"
    unfolding entry_with_def Let_def f last_fragment_flag
    by (simp add: otel_last_def split: option.splits)
  show "frags_ok b \<Longrightarrow> gomap_ok (feParts (entry_with t (frag_header h c q fin) p b))"
    by (cases "map_of (bParts b) c") (auto simp: entry_with_def f Let_def frags_ok_def dest: all_vals_lookup)
qed

text \<open>The number of parts, which the code compares with the last number.\<close>

lemma card_parts:
  fixes parts :: "(u16, bytes) gomap"
  assumes "gomap_ok parts" "all_parts (map_of parts) l" "dom (map_of parts) \<subseteq> {i. i \<le> l}" "l \<noteq> - 1"
  shows "\<not> (of_nat (length parts) :: u16) \<le> l"
proof -
  have dom: "dom (map_of parts) = {i. i \<le> l}" using assms(2,3) by (auto simp: all_parts_def)
  have small: "unat (of_nat n :: u16) = n" if "n \<le> unat l" for n
  proof (rule of_nat_unat_u16)
    show "n \<le> 65535" using that unsigned_less [of l, where ?'a = nat] by simp
  qed
  have "{i. i \<le> l} = of_nat ` {0..unat l}"
  proof (intro equalityI subsetI)
    fix i assume "i \<in> {i. i \<le> l}"
    then show "i \<in> of_nat ` {0..unat l}"
      by (intro image_eqI [of _ _ "unat i"]) (simp_all add: word_le_nat_alt)
  next
    fix i assume "i \<in> (of_nat ` {0..unat l} :: u16 set)"
    then obtain n where "n \<le> unat l" "i = of_nat n" by auto
    with small show "i \<in> {i. i \<le> l}" by (simp add: word_le_nat_alt)
  qed
  moreover have "inj_on (of_nat :: nat \<Rightarrow> u16) {0..unat l}"
  proof (rule inj_onI)
    fix m n assume mn: "m \<in> {0..unat l}" "n \<in> {0..unat l}" and eq: "(of_nat m :: u16) = of_nat n"
    have "m = unat (of_nat m :: u16)" using small [of m] mn(1) by simp
    also have "\<dots> = n" unfolding eq using small [of n] mn(2) by simp
    finally show "m = n" .
  qed
  ultimately have "card {i. i \<le> l} = Suc (unat l)" by (simp add: card_image)
  moreover have "length parts = card (dom (map_of parts))"
    using distinct_card [of "map fst parts"] assms(1) by (simp add: gomap_ok_def dom_map_of_conv_image_fst)
  ultimately have "length parts = Suc (unat l)" by (simp add: dom)
  then have "of_nat (length parts) = l + 1" by simp
  with word_less_plus_one [OF assms(4)] show ?thesis by simp
qed

interpretation otel_frag: reassembler "otel_add now h" frags_ok otel_parts otel_last for now h
proof
  fix P s c q p L fin
  let ?en = "entry_with (now q) (frag_header h c q fin) p s"
  let ?b = "s\<lparr>bParts := AList.update c ?en (bParts s)\<rparr>"
  assume inv: "frags_ok s" and P: "P = (otel_parts s c)(q \<mapsto> p)" and L: "L = (if fin then Some q else otel_last s c)"
  note PL = P [folded entry_with_view(1) [of "now q" h c q fin p s]]
    L [folded entry_with_view(2) [of "now q" h c q fin p s]]
  have ok: "gomap_ok (feParts ?en)" using inv by (rule entry_with_view(3))
  have c: "hContentID (frag_header h c q fin) = c" by (simp add: frag_header_def)
  have frag: "and (hFlags (frag_header h c q fin)) flagFragment \<noteq> 0" by (rule fragment_flag)
  have inv': "frags_ok ?b" "frags_ok (?b\<lparr>bParts := AList.delete c (bParts ?b)\<rparr>)"
    using inv ok by (simp_all add: frags_ok_def)
  show "\<exists>s'. otel_add now h c q fin p s = Some (s', None) \<and> frags_ok s' \<and> otel_parts s' c = P \<and> otel_last s' c = L"
    if "\<not> (\<exists>l. L = Some l \<and> all_parts P l)"
  proof -
    have "collect_parts (feParts ?en) (feLastSeq ?en) 0 [] = Some None" if "feComplete ?en"
      using that \<open>\<not> (\<exists>l. L = Some l \<and> all_parts P l)\<close> unfolding PL all_parts_def
      by (auto intro: collect_parts_missing)
    then have "otel_add now h c q fin p s = Some (?b, None)"
      using frag by (simp add: otel_add_def AddAndMaybeAssemble_def c Let_def)
    then show ?thesis using PL inv'(1) by (simp add: otel_parts_def otel_last_def update_conv')
  qed
  show "\<exists>s' out. otel_add now h c q fin p s = Some (s', out) \<and> frags_ok s' \<and> otel_parts s' c = Map.empty
        \<and> otel_last s' c = None \<and> (joined P l \<noteq> [] \<longrightarrow> out = Some (joined P l))"
    if "L = Some l" "l \<noteq> - 1" "all_parts P l" "dom P \<subseteq> {i. i \<le> l}" for l
  proof -
    have l: "feComplete ?en" "feLastSeq ?en = l" using that(1) unfolding PL by (auto split: if_splits)
    have "collect_parts (feParts ?en) l 0 [] = Some (Some (joined P l))"
      using that(2,3) unfolding PL joined_def all_parts_def by (subst collect_parts_all) auto
    moreover have "\<not> (of_nat (length (feParts ?en)) :: u16) \<le> l"
      using that(3,4) ok that(2) unfolding PL by (intro card_parts) simp_all
    ultimately have "otel_add now h c q fin p s = Some (?b\<lparr>bParts := AList.delete c (bParts ?b)\<rparr>, Some (joined P l))"
      using frag l by (simp add: otel_add_def AddAndMaybeAssemble_def c Let_def)
    then show ?thesis using inv'(2) by (simp add: otel_parts_def otel_last_def delete_conv')
  qed
qed

subsection \<open>Properties\<close>

text \<open>Property C39. The collector receiver reassembles a fragmented payload whatever the order in which the
  up to 65535 fragments arrive: nothing comes out before the last arrival, then the payload in
  sequence order, and the buffer is released.\<close>

theorem otel_reassembly_any_order:
  assumes "mset xs = mset (numbered ps)" "ps \<noteq> []" "length ps \<le> 65535" "concat ps \<noteq> []"
    "map_of (bParts b) c = None" "frags_ok b"
  shows "\<exists>b'. add_all (otel_add now h) c (of_nat (length ps - 1)) xs b
      = Some (b', replicate (length ps - 1) None @ [Some (concat ps)]) \<and> otel_parts b' c = Map.empty \<and> frags_ok b'"
  using assms(5,6) by (intro otel_frag.any_order_concat [OF assms(1-4)]) (simp_all add: otel_parts_def otel_last_def)

definition sample_header :: PacketHeaderV2 where
  "sample_header = \<lparr>hVersion = 2, hType = 1, hTier = 0, hFlags = 0, hSeq = 0, hStreamID = 0, hContentID = 0, hChecksum = 0\<rparr>"

theorem otel_reassembly_any_order_witness:
  "\<exists>b'. add_all (otel_add (\<lambda>_. 0) (\<lambda>_. sample_header)) 7 (of_nat 2) [(2, [30]), (0, [10, 11]), (1, [20])] (NewFragmentBuffer 0)
     = Some (b', [None, None, Some [10, 11, 20, 30]]) \<and> otel_parts b' 7 = Map.empty"
  using otel_reassembly_any_order [of "[(2, [30]), (0, [10, 11]), (1, [20])]" "[[10, 11], [20], [30]]"
      "NewFragmentBuffer 0" 7 "\<lambda>_. 0" "\<lambda>_. sample_header"]
  by (auto simp: numbered_def upt_conv_Cons numeral_2_eq_2 add_mset_commute NewFragmentBuffer_def frags_ok_def)

lemma assemble_ignores_checksum:
  "AddAndMaybeAssemble now (h\<lparr>hChecksum := z\<rparr>) p b = AddAndMaybeAssemble now h p b"
proof -
  have "entry_with now (h\<lparr>hChecksum := z\<rparr>) p b = entry_with now h p b"
    by (simp add: entry_with_def Let_def split: option.split)
  then show ?thesis by (simp add: AddAndMaybeAssemble_def Let_def)
qed

lemma parse_ignores_checksum:
  "parseHeaderV2 (d[12 := x, 13 := y]) = map_option (\<lambda>h. h\<lparr>hChecksum := be16 x y\<rparr>) (parseHeaderV2 d)"
  by (auto simp: parseHeaderV2_def get_u8_def get_u16_def get_u32_def)

text \<open>The collector receiver does not check the checksum: whatever is written into the two
  checksum bytes of a datagram, it is handled in the same way.\<close>

theorem checksum_not_checked:
  "otel_handle unmarshal cerr now (d[12 := x, 13 := y]) r = otel_handle unmarshal cerr now d r"
proof -
  have ph: "ParseHeader (d[12 := x, 13 := y]) = map_option (\<lambda>h. h\<lparr>hChecksum := be16 x y\<rparr>) (ParseHeader d)"
    by (auto simp: ParseHeader_def parse_ignores_checksum split: option.splits bind_splits)
  have dr: "drop headerSize (d[12 := x, 13 := y]) = drop headerSize d" by (simp add: drop_update_cancel)
  show ?thesis
  proof (cases "ParseHeader d")
    case (Some hdr)
    then show ?thesis
      by (cases "AddAndMaybeAssemble now hdr (drop headerSize d) (orFrags r)")
        (auto simp: otel_handle_def ph dr assemble_ignores_checksum Let_def split: option.split)
  qed (simp add: otel_handle_def ph)
qed

text \<open>\<open>encoding/json\<close>: a slice member of the target that no key of the object names, ASCII letter case
  aside, stays empty. \<open>parse\<close> gives the JSON value of a text.\<close>

definition absent_stay_empty :: "(bytes \<Rightarrow> json option) \<Rightarrow> (bytes \<Rightarrow> JSONEnvelope option) \<Rightarrow> bool" where
  "absent_stay_empty parse unmarshal \<longleftrightarrow>
     (\<forall>payload obj env. parse payload = Some (JObj obj) \<and> unmarshal payload = Some env
        \<and> (\<forall>k \<in> fst ` set obj. \<forall>ch \<in> set k. (of_char ch :: nat) < 128) \<longrightarrow>
        (''metrics'' \<notin> to_lower ` fst ` set obj \<longrightarrow> jeMetrics env = [])
        \<and> (''traces'' \<notin> to_lower ` fst ` set obj \<longrightarrow> jeTraces env = [])
        \<and> (''logs'' \<notin> to_lower ` fst ` set obj \<longrightarrow> jeLogs env = []))"

text \<open>The agent's envelopes reach no consumer. The client wraps its records as
  \<open>{signal_type, tenant_id, data}\<close>; the collector receiver reads the members \<open>metrics\<close>, \<open>traces\<close> and
  \<open>logs\<close>. A decoder that leaves absent members empty (as \<open>encoding/json\<close> does) finds no record in
  what the client sends, so no consumer is called, whatever signal it is.\<close>

theorem agent_envelope_not_consumed:
  assumes "absent_stay_empty parse unmarshal"
    "parse payload = Some (envelope_json signalType tenant data)"
    "length payload \<le> 65521" "and fl flagFragment = 0"
    "otel_handle unmarshal cerr now (buildPacket pktData tr fl sq st ci payload) r = Some r'"
  shows "orConsumed r' = orConsumed r"
proof -
  have none: "jeMetrics env = [] \<and> jeTraces env = [] \<and> jeLogs env = []" if "unmarshal payload = Some env" for env
  proof -
    let ?obj = "[(''signal_type'', JStr signalType), (''tenant_id'', JStr tenant), (''data'', data)]"
    have "to_lower ` fst ` set ?obj = {''signal_type'', ''tenant_id'', ''data''}"
      by (simp add: to_lower_def)
    moreover have "\<forall>k \<in> fst ` set ?obj. \<forall>ch \<in> set k. (of_char ch :: nat) < 128" by simp
    moreover have "parse payload = Some (JObj ?obj)" using assms(2) by (simp add: envelope_json_def)
    ultimately show ?thesis
      using assms(1) [unfolded absent_stay_empty_def, rule_format, of payload ?obj env] that by simp
  qed
  have "ParseHeader (buildPacket pktData tr fl sq st ci payload)
      = Some (the (parseHeaderV2 (buildPacket pktData tr fl sq st ci payload)))"
    by (simp add: ParseHeader_def parse_buildPacket)
  with assms(4,5) show ?thesis
    by (auto simp: otel_handle_def parse_buildPacket AddAndMaybeAssemble_def DecodeJSONEnvelope_def drop_one_def
        fanout_def offer_def Let_def dest!: none split: option.splits if_splits)
qed

text \<open>A decoder that finds only the tenant.\<close>

definition tenant_only :: JSONEnvelope where
  "tenant_only = \<lparr>jeTenantID = ''t1'', jeSource = [], jeSchema = [], jeTime = 0, jeMetrics = [], jeTraces = [],
     jeLogs = [], jeResource = [], jeExtra = []\<rparr>"

theorem agent_envelope_not_consumed_witness:
  "\<exists>r'. otel_handle (\<lambda>_. Some tenant_only) (\<lambda>_ _. False) 0 (buildPacket pktData 0 0 1 0 7 [0x7B])
      (NewReceiver CreateDefaultConfig True True True) = Some r'
    \<and> orEnvelopes r' = 1 \<and> orConsumed r' = []"
proof -
  let ?r = "NewReceiver CreateDefaultConfig True True True"
  have hdr: "ParseHeader (buildPacket pktData 0 0 1 0 7 [0x7B])
      = Some (the (parseHeaderV2 (buildPacket pktData 0 0 1 0 7 [0x7B])))"
    by (simp add: ParseHeader_def parse_buildPacket)
  obtain r' where r': "otel_handle (\<lambda>_. Some tenant_only) (\<lambda>_ _. False) 0 (buildPacket pktData 0 0 1 0 7 [0x7B]) ?r = Some r'"
    "orEnvelopes r' = 1"
    by (simp add: otel_handle_def hdr parse_buildPacket AddAndMaybeAssemble_def DecodeJSONEnvelope_def tenant_only_def
        fanout_def offer_def NewReceiver_def i64_def Let_def)
  moreover have "absent_stay_empty (\<lambda>_. Some (envelope_json ''metrics'' ''t1'' JNull)) (\<lambda>_. Some tenant_only)"
    by (simp add: absent_stay_empty_def tenant_only_def)
  ultimately show ?thesis
    using agent_envelope_not_consumed [of "\<lambda>_. Some (envelope_json ''metrics'' ''t1'' JNull)" "\<lambda>_. Some tenant_only"
        "[0x7B]" "''metrics''" "''t1''" JNull 0 "\<lambda>_ _. False" 0 0 1 0 7 ?r r']
    by (auto simp: NewReceiver_def)
qed

end
