(* ===== verification/Ingest_Api.thy ===== *)
theory Ingest_Api
  imports Receiver
begin

section \<open>Status reports and storage dispatch of the core\<close>

text \<open>
  The operator-facing parts around the receiver: \<open>Diagnostics\<close> (\<open>receiver/agenticudp.go\<close>), the two
  HTTP handlers (\<open>api/handlers_ingest_transports.go\<close>, \<open>api/handlers_agenticudp.go\<close>) and the storage
  dispatch of the OTLP receiver (\<open>receiver/otlp_baseline_dispatch.go\<close>).

  The handlers' result is the JSON value they write. What the OTLP receiver has measured, the
  toggles, the path of the toggle file and the storage mode come from code outside the
  repository and are arguments; time formats are functions.
\<close>

subsection \<open>Diagnostics\<close>

record AgenticUDPDiagnostics =
  dgStats :: AgenticUDPStats
  dgNAT :: "(string, int) gomap"
  dgTraversal :: "(string, int) gomap"
  dgRelay :: string
  dgSamples :: "labels list"

definition or_unknown :: "string \<Rightarrow> string" where
  "or_unknown s = (if s = [] then ''unknown'' else s)"

definition bump :: "string \<Rightarrow> (string, int) gomap \<Rightarrow> (string, int) gomap" where
  "bump k m = AList.update k (i64 ((case map_of m k of None \<Rightarrow> 0 | Some n \<Rightarrow> n) + 1)) m"

definition diagnose_session ::
  "(gotime \<Rightarrow> string) \<Rightarrow> string \<times> udpSession \<Rightarrow> AgenticUDPDiagnostics \<Rightarrow> AgenticUDPDiagnostics" where
  "diagnose_session fmtT e out = (case e of (key, s) \<Rightarrow>
     let nat = or_unknown (sNatType s);
         out = out\<lparr>dgNAT := bump nat (dgNAT out)\<rparr>;
         tr = or_unknown (sTraversal s);
         out = out\<lparr>dgTraversal := bump tr (dgTraversal out)\<rparr>
     in if length (dgSamples out) < 20
        then out\<lparr>dgSamples := dgSamples out @ [[(''remote'', key), (''nat_type'', nat), (''traversal'', tr),
               (''state'', sState s), (''last_seen'', fmtT (sLastSeen s))]]\<rparr>
        else out)"

definition Diagnostics ::
  "(string \<Rightarrow> string) \<Rightarrow> (gotime \<Rightarrow> string) \<Rightarrow> ((string, udpSession) gomap \<Rightarrow> (string, udpSession) gomap) \<Rightarrow> Receiver
   \<Rightarrow> Receiver \<times> AgenticUDPDiagnostics" where
  "Diagnostics env fmtT rng r = (
     let (r, stats) = receiver_Stats r
     in (r, fold (diagnose_session fmtT) (rng (sessions r))
          \<lparr>dgStats = stats, dgNAT = [], dgTraversal = [], dgRelay = env ''AGENTICUDP_RELAY_ENDPOINT'', dgSamples = []\<rparr>))"

definition handleAgenticUDPTraversal :: "AgenticUDPDiagnostics option \<Rightarrow> (AgenticUDPDiagnostics \<Rightarrow> json) \<Rightarrow> json" where
  "handleAgenticUDPTraversal dg enc = (case dg of
     None \<Rightarrow> JObj [(''enabled'', JBool False),
       (''notes'', JStr ''AgenticUDP receiver is disabled for this deployment.'')]
   | Some d \<Rightarrow> JObj [(''enabled'', JBool True), (''diagnostics'', enc d)])"

subsection \<open>The transports report\<close>

record api_cfg =
  acPublicURL :: string
  acHTTPPort :: int
  acGRPCPort :: int
  acEnableAgenticUDP :: bool
  acAgenticUDPPort :: int
  acTLSMode :: string
  acDeploymentMode :: string

text \<open>\<open>lastTiming\<close> is the time and duration of the last batch of a protocol, if there was one;
  \<open>signalTiming\<close> the same per signal, with the number of batches.\<close>

record api_env =
  aeBatches :: "string \<Rightarrow> nat"
  aeLastTiming :: "string \<Rightarrow> (gotime \<times> duration) option"
  aeSignalTiming :: "string \<Rightarrow> string \<Rightarrow> (gotime \<times> duration) option \<times> nat"
  aeEnabled :: "string \<Rightarrow> bool"
  aeFmtNano :: "gotime \<Rightarrow> string"
  aeStatsJson :: "AgenticUDPStats \<Rightarrow> json"
  aeUptime :: real
  aeTogglePath :: string
  aeStandardBaseline :: bool

definition num :: "int \<Rightarrow> json" where "num n = JNum (of_int n)"

definition timing_fields :: "api_env \<Rightarrow> (gotime \<times> duration) option \<Rightarrow> (string \<times> json) list" where
  "timing_fields e t = (case t of
     Some (tm, dur) \<Rightarrow> [(''last_batch_at'', JStr (aeFmtNano e tm)), (''last_batch_duration_ms'', JNum (of_int dur / 1000000))]
   | None \<Rightarrow> [(''last_batch_at'', JNull), (''last_batch_duration_ms'', JNull)])"

definition otlpSignalTimingMap :: "api_env \<Rightarrow> string \<Rightarrow> string list \<Rightarrow> json" where
  "otlpSignalTimingMap e protocol signals = JObj (fold (\<lambda>signal out.
     let (timing, batches) = aeSignalTiming e protocol signal
     in AList.update signal (JObj ([(''batches_received_total'', num (int batches)), (''traffic_seen'', JBool (batches > 0))]
          @ timing_fields e timing)) out) signals [])"

definition public_base :: "api_cfg \<Rightarrow> string" where
  "public_base cfg = (
     let url = trim_space (acPublicURL cfg);
         base = (if url \<noteq> [] \<and> last url = CHR ''/'' then butlast url else url)
     in if base = [] then ''http://127.0.0.1:'' @ format_int (acHTTPPort cfg) else base)"

definition http_row :: "api_env \<Rightarrow> api_cfg \<Rightarrow> (string \<times> json) list" where
  "http_row e cfg =
     [(''id'', JStr ''otlp-http''), (''label'', JStr ''OTLP over HTTP''), (''protocol'', JStr ''tcp''),
      (''port'', num (acHTTPPort cfg)), (''listener_configured'', JBool True), (''ingest_enabled'', JBool (aeEnabled e ''http'')),
      (''batches_received_total'', num (int (aeBatches e ''http''))), (''traffic_seen'', JBool (aeBatches e ''http'' > 0)),
      (''endpoint_hint'', JStr (public_base cfg @ ''/ingest/<tenant>/v1/traces'')),
      (''paths'', JArr (map JStr [''/v1/metrics'', ''/v1/traces'', ''/v1/logs'', ''/v1/profiles'', ''/ingest/{tenant}/v1/...''])),
      (''timing_by_signal'', otlpSignalTimingMap e ''http'' [''metrics'', ''traces'', ''logs'', ''profiles''])]
     @ timing_fields e (aeLastTiming e ''http'')"

definition grpc_row :: "api_env \<Rightarrow> api_cfg \<Rightarrow> (string \<times> json) list" where
  "grpc_row e cfg =
     [(''id'', JStr ''otlp-grpc''), (''label'', JStr ''OTLP gRPC''), (''protocol'', JStr ''tcp''),
      (''port'', num (acGRPCPort cfg)), (''listener_configured'', JBool True), (''ingest_enabled'', JBool (aeEnabled e ''grpc'')),
      (''batches_received_total'', num (int (aeBatches e ''grpc''))), (''traffic_seen'', JBool (aeBatches e ''grpc'' > 0)),
      (''endpoint_hint'', JStr ('':'' @ format_int (acGRPCPort cfg) @ '' (gRPC)'')),
      (''paths'', JArr (map JStr [''opentelemetry.proto.collector.metrics.v1.MetricsService/Export'',
         ''opentelemetry.proto.collector.trace.v1.TraceService/Export'',
         ''opentelemetry.proto.collector.logs.v1.LogsService/Export''])),
      (''timing_by_signal'', otlpSignalTimingMap e ''grpc'' [''metrics'', ''traces'', ''logs''])]
     @ timing_fields e (aeLastTiming e ''grpc'')"

definition udp_seen :: "AgenticUDPStats \<Rightarrow> bool" where
  "udp_seen st \<longleftrightarrow> PacketsReceived st > 0 \<or> DatagramsAccepted st > 0 \<or> MetricsRecv st > 0"

text \<open>The row of the UDP listener; the receiver, if there is one, gives its statistics.\<close>

definition udp_row :: "api_env \<Rightarrow> api_cfg \<Rightarrow> AgenticUDPStats option \<Rightarrow> (string \<times> json) list" where
  "udp_row e cfg receiver = (
     case (if acEnableAgenticUDP cfg then receiver else None) of
       Some st \<Rightarrow>
         [(''id'', JStr ''agentic-udp''), (''label'', JStr ''AgenticUDP (entropyops-agent)''), (''protocol'', JStr ''udp''),
          (''port'', num (acAgenticUDPPort cfg)), (''listener_configured'', JBool True),
          (''ingest_enabled'', JBool (aeEnabled e ''agenticudp'')), (''tls_mode'', JStr (acTLSMode cfg)),
          (''stats'', aeStatsJson e st), (''traffic_seen'', JBool (udp_seen st)),
          (''endpoint_hint'', JStr (''udp://0.0.0.0:'' @ format_int (acAgenticUDPPort cfg))),
          (''verification'', JStr ''traffic_seen when packets_received / datagrams_accepted / metrics_recv > 0 since startup''),
          (''legacy_port_note'', JStr ''Pre-v2.11 agents used udp/4318; pin ENTROPYOPS_AGENTIC_UDP_PORT if needed.'')]
         @ timing_fields e (aeLastTiming e ''agenticudp'')
     | None \<Rightarrow>
         let note = (if acDeploymentMode cfg = ''saas''
               then ''AgenticUDP is typically off in SaaS shapes without UDP ingress.''
               else ''Set ENTROPYOPS_ENABLE_AGENTIC_UDP=true to enable (disabled on some SaaS / UDP-less deployments).'')
         in [(''id'', JStr ''agentic-udp''), (''label'', JStr ''AgenticUDP (entropyops-agent)''), (''protocol'', JStr ''udp''),
             (''port'', num (acAgenticUDPPort cfg)), (''listener_configured'', JBool False), (''ingest_enabled'', JBool False),
             (''traffic_seen'', JBool False), (''endpoint_hint'', JStr []), (''note'', JStr note)])"

definition bench_mode :: "api_env \<Rightarrow> string" where
  "bench_mode e = (if aeStandardBaseline e then ''standard-baseline'' else ''tuned'')"

definition bench_mode_note :: string where
  "bench_mode_note = ''standard-baseline = OTLP HTTP/gRPC use per-row INSERT against a default-tuned SQLite (mirrors an off-the-shelf OTLP backend). tuned = all paths share the optimized backend (platform-self-test only). AgenticUDP always uses receiver-level batching.''"

definition handleIngestTransports :: "api_env \<Rightarrow> api_cfg \<Rightarrow> AgenticUDPStats option \<Rightarrow> (string \<times> json) list" where
  "handleIngestTransports e cfg receiver =
     [(''server_uptime_seconds'', JNum (aeUptime e)), (''deployment_mode'', JStr (acDeploymentMode cfg)),
      (''http_api_port'', num (acHTTPPort cfg)), (''grpc_otlp_port'', num (acGRPCPort cfg)),
      (''public_url'', JStr (acPublicURL cfg)), (''toggle_persist_path'', JStr (aeTogglePath e)),
      (''transports'', JArr [JObj (http_row e cfg), JObj (grpc_row e cfg), JObj (udp_row e cfg receiver)]),
      (''bench_mode'', JStr (bench_mode e)), (''bench_mode_note'', JStr bench_mode_note)]"

subsection \<open>Storage dispatch of the OTLP receiver\<close>

datatype 'r store_write = WriteBulk "'r list" | WritePerRow "'r list"

text \<open>The write a handler makes for rows of one signal: none without a store or without rows.\<close>

definition writeTracesOTLP :: "bool \<Rightarrow> bool \<Rightarrow> Trace list \<Rightarrow> Trace store_write option" where
  "writeTracesOTLP store baseline traces = (if \<not> store \<or> length traces = 0 then None
     else if baseline then Some (WritePerRow traces) else Some (WriteBulk traces))"

definition writeMetricsOTLP :: "bool \<Rightarrow> bool \<Rightarrow> Metric list \<Rightarrow> Metric store_write option" where
  "writeMetricsOTLP store baseline metrics = (if \<not> store \<or> length metrics = 0 then None
     else if baseline then Some (WritePerRow metrics) else Some (WriteBulk metrics))"

definition writeLogsOTLP :: "bool \<Rightarrow> bool \<Rightarrow> LogRecord list \<Rightarrow> LogRecord store_write option" where
  "writeLogsOTLP store baseline logs = (if \<not> store \<or> length logs = 0 then None
     else if baseline then Some (WritePerRow logs) else Some (WriteBulk logs))"

subsection \<open>The diagnostics count every session once\<close>

abbreviation counts :: "(string, int) gomap \<Rightarrow> int" where
  "counts m \<equiv> sum_list (map snd m)"

lemma counts_nonneg: "all_vals (\<lambda>n. 0 \<le> n) m \<Longrightarrow> 0 \<le> counts m"
  by (auto simp: all_vals_def intro!: sum_list_nonneg)

lemma counts_update:
  "counts (AList.update k v m) = counts m - (case map_of m k of None \<Rightarrow> 0 | Some n \<Rightarrow> n) + v"
  by (induction m) (auto split: option.split)

lemma lookup_le_counts: "all_vals (\<lambda>n. 0 \<le> n) m \<Longrightarrow> (case map_of m k of None \<Rightarrow> 0 | Some n \<Rightarrow> n) \<le> counts m"
proof (induction m)
  case (Cons e m)
  then have "all_vals (\<lambda>n. 0 \<le> n) m" "0 \<le> snd e" by (auto simp: all_vals_def)
  then show ?case using Cons.IH counts_nonneg [of m] by (cases e) (auto split: option.splits)
qed simp

lemma bump_counts:
  assumes "all_vals (\<lambda>n. 0 \<le> n) m" "counts m + 1 < 2 ^ 63"
  shows "all_vals (\<lambda>n. 0 \<le> n) (bump k m)" "counts (bump k m) = counts m + 1"
proof -
  let ?n = "case map_of m k of None \<Rightarrow> 0 | Some n \<Rightarrow> n"
  have "?n \<le> counts m" by (rule lookup_le_counts [OF assms(1)])
  moreover have n: "0 \<le> ?n" using all_vals_lookup [OF assms(1), of k] by (auto split: option.split)
  ultimately have i: "i64 (?n + 1) = ?n + 1" using assms(2) by (intro i64_id) (simp add: in_i64_def)
  show "all_vals (\<lambda>n. 0 \<le> n) (bump k m)" "counts (bump k m) = counts m + 1"
    unfolding bump_def i using assms(1) n by (simp_all add: counts_update)
qed

lemma diagnose_counts:
  assumes "all_vals (\<lambda>n. 0 \<le> n) (dgNAT out)" "all_vals (\<lambda>n. 0 \<le> n) (dgTraversal out)"
    and "counts (dgNAT out) = int k" "counts (dgTraversal out) = int k" "int (k + length ss) < 2 ^ 63"
    and "length (dgSamples out) = min k 20"
  shows "counts (dgNAT (fold (diagnose_session f) ss out)) = int (k + length ss)
    \<and> counts (dgTraversal (fold (diagnose_session f) ss out)) = int (k + length ss)
    \<and> length (dgSamples (fold (diagnose_session f) ss out)) = min (k + length ss) 20"
  using assms
proof (induction ss arbitrary: out k)
  case (Cons e ss)
  have *: "dgNAT (diagnose_session f e out) = bump (or_unknown (sNatType (snd e))) (dgNAT out)"
    "dgTraversal (diagnose_session f e out) = bump (or_unknown (sTraversal (snd e))) (dgTraversal out)"
    "length (dgSamples (diagnose_session f e out)) = min (Suc k) 20"
    using Cons.prems(6) by (simp_all add: diagnose_session_def Let_def case_prod_unfold)
  have "counts (dgNAT out) + 1 < 2 ^ 63" "counts (dgTraversal out) + 1 < 2 ^ 63" using Cons.prems by simp_all
  then show ?case
    using Cons.IH [of "diagnose_session f e out" "Suc k"] bump_counts [of "dgNAT out"] bump_counts [of "dgTraversal out"]
      Cons.prems by (simp add: *)
qed simp

text \<open>Whatever the order in which the session map is visited, both distributions add up to the
  number of sessions, which is the reported number of active sessions, and at most twenty
  sessions are sampled.\<close>

lemma diagnostics_consistent:
  assumes "is_range rng" "int (length (sessions r)) < 2 ^ 63"
  shows "let d = snd (Diagnostics env fmtT rng r) in counts (dgNAT d) = int (SessionsActive (dgStats d))
    \<and> counts (dgTraversal d) = int (SessionsActive (dgStats d)) \<and> SessionsActive (dgStats d) = length (sessions r)
    \<and> length (dgSamples d) = min (length (sessions r)) 20"
proof -
  have "dgStats (fold (diagnose_session fmtT) ss out) = dgStats out" for ss out
    by (induction ss arbitrary: out) (simp_all add: diagnose_session_def Let_def case_prod_unfold)
  then show ?thesis
    using diagnose_counts [where k = 0 and ss = "rng (sessions r)" and f = fmtT] assms is_rangeD(3) [OF assms(1)]
    by (simp add: Diagnostics_def receiver_Stats_def Let_def upd_stats_def)
qed

end
