(* ===== verification/Dtls.thy ===== *)
theory Dtls
  imports Prelude
begin

section \<open>DTLS configuration (agenticudp_dtls.go of client and receiver)\<close>

text \<open>
  The options both sides hand to the DTLS library. The library is not modelled; a configuration is
  a record of the fields the program sets, with the library's zero values elsewhere. Loading a
  key pair from two files is an argument, \<open>None\<close> being its error.
\<close>

subsection \<open>Configurations\<close>

datatype client_auth = NoClientCert | RequireAnyClientCert

record 'cert dtls_Config =
  dtPSK :: "(bytes \<Rightarrow> bytes option) option"
  dtPSKIdentityHint :: string
  dtCipherSuites :: "string list"
  dtCertificates :: "'cert list"
  dtClientAuth :: client_auth
  dtRootCAs :: "'cert list option"
  dtInsecureSkipVerify :: bool

definition zero_dtls :: "'cert dtls_Config" where
  "zero_dtls = \<lparr>dtPSK = None, dtPSKIdentityHint = [], dtCipherSuites = [], dtCertificates = [],
     dtClientAuth = NoClientCert, dtRootCAs = None, dtInsecureSkipVerify = False\<rparr>"

record DTLSConfig =
  dcMode :: string
  dcCertFile :: string
  dcKeyFile :: string
  dcPSKCallback :: "(bytes \<Rightarrow> bytes option) option"

record DTLSClientConfig =
  ccMode :: string
  ccPSK :: bytes
  ccCertFile :: string
  ccKeyFile :: string
  ccInsecure :: bool

datatype dtls_error = PSKCallbackMissing | PSKEmpty | LoadFailed | UnsupportedMode string
  | ResolveFailed string | ListenFailed string | DialFailed string

definition buildServerDTLSConfig ::
  "(string \<Rightarrow> string \<Rightarrow> 'cert option) \<Rightarrow> DTLSConfig \<Rightarrow> dtls_error + 'cert dtls_Config" where
  "buildServerDTLSConfig load cfg =
     (if dcMode cfg = ''psk'' then
        (case dcPSKCallback cfg of
           None \<Rightarrow> Inl PSKCallbackMissing
         | Some cb \<Rightarrow> Inr (zero_dtls\<lparr>dtPSK := Some cb, dtPSKIdentityHint := ''entropyops'',
               dtCipherSuites := [''TLS_PSK_WITH_AES_128_GCM_SHA256'']\<rparr>))
      else if dcMode cfg = ''cert'' then
        (case load (dcCertFile cfg) (dcKeyFile cfg) of
           None \<Rightarrow> Inl LoadFailed
         | Some cert \<Rightarrow> Inr (zero_dtls\<lparr>dtCertificates := [cert], dtClientAuth := RequireAnyClientCert,
               dtRootCAs := Some []\<rparr>))
      else Inl (UnsupportedMode (dcMode cfg)))"

definition buildClientDTLSConfig ::
  "(string \<Rightarrow> string \<Rightarrow> 'cert option) \<Rightarrow> DTLSClientConfig \<Rightarrow> dtls_error + 'cert dtls_Config" where
  "buildClientDTLSConfig load cfg =
     (if ccMode cfg = ''psk'' then
        (if length (ccPSK cfg) = 0 then Inl PSKEmpty
         else Inr (zero_dtls\<lparr>dtPSK := Some (\<lambda>hint. Some (ccPSK cfg)), dtPSKIdentityHint := ''entropyops'',
               dtCipherSuites := [''TLS_PSK_WITH_AES_128_GCM_SHA256'']\<rparr>))
      else if ccMode cfg = ''cert'' then
        (case load (ccCertFile cfg) (ccKeyFile cfg) of
           None \<Rightarrow> Inl LoadFailed
         | Some cert \<Rightarrow> Inr (zero_dtls\<lparr>dtCertificates := [cert], dtInsecureSkipVerify := ccInsecure cfg\<rparr>))
      else Inl (UnsupportedMode (ccMode cfg)))"

text \<open>Opening the listener and the connection: resolution, listening and dialling may fail.\<close>

definition newDTLSListener ::
  "(string \<Rightarrow> string option) \<Rightarrow> (string \<Rightarrow> 'cert dtls_Config \<Rightarrow> bool) \<Rightarrow> (string \<Rightarrow> string \<Rightarrow> 'cert option)
   \<Rightarrow> string \<Rightarrow> DTLSConfig \<Rightarrow> dtls_error + string \<times> 'cert dtls_Config" where
  "newDTLSListener resolve listen load addr cfg = (case resolve addr of
     None \<Rightarrow> Inl (ResolveFailed addr)
   | Some udpAddr \<Rightarrow> (case buildServerDTLSConfig load cfg of
       Inl e \<Rightarrow> Inl e
     | Inr c \<Rightarrow> if listen udpAddr c then Inr (udpAddr, c) else Inl (ListenFailed addr)))"

definition dialDTLS ::
  "(string \<Rightarrow> 'cert dtls_Config \<Rightarrow> bool) \<Rightarrow> (string \<Rightarrow> string \<Rightarrow> 'cert option) \<Rightarrow> string \<Rightarrow> DTLSClientConfig
   \<Rightarrow> dtls_error + 'cert dtls_Config" where
  "dialDTLS dial load addr cfg = (case buildClientDTLSConfig load cfg of
     Inl e \<Rightarrow> Inl e
   | Inr c \<Rightarrow> if dial addr c then Inr c else Inl (DialFailed addr))"

subsection \<open>The two sides fit\<close>

text \<open>In PSK mode both sides offer the same suite and identity hint, and a server whose callback
  knows the client's key for that hint holds the same key.\<close>

lemma psk_sides_fit:
  assumes "ccMode ccfg = ''psk''" "ccPSK ccfg \<noteq> []" "dcMode scfg = ''psk''" "dcPSKCallback scfg = Some cb"
    and "cb hint = Some (ccPSK ccfg)"
  shows "\<exists>c s. buildClientDTLSConfig load ccfg = Inr c \<and> buildServerDTLSConfig load' scfg = Inr s
    \<and> dtPSKIdentityHint c = dtPSKIdentityHint s \<and> dtCipherSuites c = dtCipherSuites s
    \<and> map_option (\<lambda>f. f hint) (dtPSK c) = map_option (\<lambda>f. f hint) (dtPSK s)"
  using assms by (simp add: buildClientDTLSConfig_def buildServerDTLSConfig_def zero_dtls_def)

text \<open>In certificate mode the server asks for a client certificate but names no authority: the
  pool it sets is empty, whatever the files.\<close>

lemma cert_mode_trusts_any_client:
  assumes "dcMode cfg = ''cert''" "buildServerDTLSConfig load cfg = Inr c"
  shows "dtClientAuth c = RequireAnyClientCert \<and> dtRootCAs c = Some []"
  using assms by (auto simp: buildServerDTLSConfig_def zero_dtls_def split: option.splits)

text \<open>Mode \<open>none\<close> is refused by both builders, so no encrypted session is ever set up without a key.\<close>

lemma plain_mode_refused:
  "dcMode scfg = ''none'' \<Longrightarrow> buildServerDTLSConfig load scfg = Inl (UnsupportedMode ''none'')"
  "ccMode ccfg = ''none'' \<Longrightarrow> buildClientDTLSConfig load ccfg = Inl (UnsupportedMode ''none'')"
  by (simp_all add: buildServerDTLSConfig_def buildClientDTLSConfig_def)

end
