(* ===== verification/Sender.thy ===== *)
theory Sender
  imports Records Client_Config
begin

section \<open>Agent telemetry to records (transport/sender.go, sender_proto.go)\<close>

text \<open>
  The agent's own telemetry (host snapshots, process metrics, spans, logs and fingerprints) is
  converted twice: into the rows of the JSON envelope (\<open>sender.go\<close>) and into protobuf batches
  (\<open>sender_proto.go\<close>). \<open>transport.MetricRecord\<close>, \<open>TraceRecord\<close> and \<open>LogRecord\<close> carry the fields and
  tags of the storage rows and are read as \<open>Metric\<close>, \<open>Trace\<close> and \<open>LogRecord\<close> of theory \<open>Records\<close>.
  The records of the \<open>agentlight\<close> package have the fields the conversions read;
  \<open>ResolveServiceName\<close> of that package is an argument. The two encodings are written out
  separately, as in the source, and proved to reach the core as the same rows.
\<close>

subsection \<open>The agent's records\<close>

record HostSnapshot =
  hsTimestamp :: gotime
  hsEntityID :: string
  hsCPU :: real
  hsMemory :: real
  hsMemoryBytes :: int
  hsMemoryTotal :: int
  hsDiskReadBytes :: int
  hsDiskWriteBytes :: int
  hsDiskUsedBytes :: int
  hsDiskTotalBytes :: int
  hsNetBytesSent :: int
  hsNetBytesRecv :: int
  hsNetPacketsSent :: int
  hsNetPacketsRecv :: int
  hsNetErrIn :: int
  hsNetErrOut :: int
  hsLoadAvg1 :: real
  hsLoadAvg5 :: real
  hsLoadAvg15 :: real
  hsUptime :: int
  hsProcessCount :: int

record AgentSpan =
  asTraceID :: bytes
  asSpanID :: bytes
  asParentID :: bytes
  asName :: string
  asKind :: string
  asStatus :: string
  asStartTime :: gotime
  asEndTime :: gotime
  asAttributes :: labels

record AgentLogRecord =
  alTimestamp :: gotime
  alSeverity :: string
  alBody :: string
  alEventName :: string
  alAttributes :: "labels option"

record ProcessMetric =
  prName :: string
  prCmdline :: string
  prPID :: int
  prCPUPercent :: real
  prMemBytes :: int

record ServiceStatus =
  svName :: string
  svStatus :: string
  svPort :: int
  svProtocol :: string
  svCPUPercent :: real
  svMemBytes :: int

subsection \<open>Helpers\<close>

definition spanKindToOTel :: "string \<Rightarrow> string" where
  "spanKindToOTel kind = (if kind = ''client'' then ''SPAN_KIND_CLIENT''
     else if kind = ''server'' then ''SPAN_KIND_SERVER'' else ''SPAN_KIND_INTERNAL'')"

definition truncate :: "string \<Rightarrow> nat \<Rightarrow> string" where
  "truncate s maxLen = (if length s \<le> maxLen then s else take maxLen s)"

definition mapSeverity :: "string \<Rightarrow> string \<times> int" where
  "mapSeverity s = (if s = ''trace'' then (''TRACE'', 1) else if s = ''debug'' then (''DEBUG'', 5)
     else if s = ''warn'' then (''WARN'', 13) else if s = ''error'' then (''ERROR'', 17)
     else (''INFO'', 9))"

text \<open>\<open>Duration.Microseconds\<close> divides towards zero.\<close>

definition microseconds :: "duration \<Rightarrow> int" where
  "microseconds d = go_div d 1000"

subsection \<open>JSON rows (sender.go)\<close>

definition SnapshotToMetrics :: "HostSnapshot \<Rightarrow> string \<Rightarrow> Metric list" where
  "SnapshotToMetrics snap tenantID = (
     let now = hsTimestamp snap; e = hsEntityID snap;
         labels = [(''host.name'', e), (''source'', ''agenticudp'')];
         row = (\<lambda>name mtype val l. \<lparr>mTimestamp = now, mServiceName = e, mMetricName = name,
                  mMetricType = mtype, mValue = val, mLabels = l, mTenantID = tenantID\<rparr>);
         g = (\<lambda>name val. row name ''gauge'' val labels);
         s = (\<lambda>name val. row name ''sum'' val labels);
         sd = (\<lambda>name val dir. row name ''sum'' val
                 [(''host.name'', e), (''source'', ''agenticudp''), (''direction'', dir)])
     in [g ''system.cpu.utilization'' (hsCPU snap),
         g ''system.memory.utilization'' (hsMemory snap),
         s ''system.memory.usage'' (of_int (hsMemoryBytes snap)),
         g ''system.memory.limit'' (of_int (hsMemoryTotal snap)),
         sd ''system.disk.io'' (of_int (hsDiskReadBytes snap)) ''read'',
         sd ''system.disk.io'' (of_int (hsDiskWriteBytes snap)) ''write'',
         s ''system.filesystem.usage'' (of_int (hsDiskUsedBytes snap)),
         g ''system.filesystem.limit'' (of_int (hsDiskTotalBytes snap)),
         sd ''system.network.io'' (of_int (hsNetBytesSent snap)) ''transmit'',
         sd ''system.network.io'' (of_int (hsNetBytesRecv snap)) ''receive'',
         sd ''system.network.packets'' (of_int (hsNetPacketsSent snap)) ''transmit'',
         sd ''system.network.packets'' (of_int (hsNetPacketsRecv snap)) ''receive'',
         sd ''system.network.errors'' (of_int (hsNetErrIn snap)) ''receive'',
         sd ''system.network.errors'' (of_int (hsNetErrOut snap)) ''transmit'',
         g ''system.cpu.load_average.1m'' (hsLoadAvg1 snap),
         g ''system.cpu.load_average.5m'' (hsLoadAvg5 snap),
         g ''system.cpu.load_average.15m'' (hsLoadAvg15 snap),
         s ''system.uptime'' (of_int (hsUptime snap)),
         g ''system.process.count'' (of_int (hsProcessCount snap))])"

definition span_service :: "AgentSpan \<Rightarrow> string \<Rightarrow> string" where
  "span_service s entityID =
     (case map_of (asAttributes s) ''client.service'' of
        Some cs \<Rightarrow> if asKind s = ''client'' then entityID @ ''/'' @ cs
          else (case map_of (asAttributes s) ''server.service'' of
              Some ss \<Rightarrow> if asKind s = ''server'' then entityID @ ''/'' @ ss else entityID
            | None \<Rightarrow> entityID)
      | None \<Rightarrow> (case map_of (asAttributes s) ''server.service'' of
              Some ss \<Rightarrow> if asKind s = ''server'' then entityID @ ''/'' @ ss else entityID
            | None \<Rightarrow> entityID))"

definition SpansToTraces :: "AgentSpan list \<Rightarrow> string \<Rightarrow> string \<Rightarrow> Trace list" where
  "SpansToTraces spans tenantID entityID = map (\<lambda>s.
     let rec = \<lparr>tTraceID = hex_encode (asTraceID s), tSpanID = hex_encode (asSpanID s), tParentSpanID = [],
                tServiceName = span_service s entityID, tOperationName = asName s,
                tStartTime = asStartTime s, tEndTime = asEndTime s,
                tDurationUS = microseconds (time_sub (asEndTime s) (asStartTime s)),
                tStatusCode = asStatus s, tSpanKind = spanKindToOTel (asKind s),
                tAttributes = asAttributes s, tTenantID = tenantID\<rparr>
     in if asParentID s \<noteq> replicate 8 0 then rec\<lparr>tParentSpanID := hex_encode (asParentID s)\<rparr> else rec) spans"

text \<open>The event name is written into the attribute map of the record itself; a nil map is
  replaced by a fresh one. The conversion therefore also returns the records afterwards.\<close>

definition log_attrs :: "AgentLogRecord \<Rightarrow> labels" where
  "log_attrs r = (let attrs = (case alAttributes r of None \<Rightarrow> [] | Some a \<Rightarrow> a)
     in if alEventName r \<noteq> [] then AList.update ''event.name'' (alEventName r) attrs else attrs)"

definition written_back :: "AgentLogRecord \<Rightarrow> AgentLogRecord" where
  "written_back r = (case alAttributes r of None \<Rightarrow> r | Some _ \<Rightarrow> r\<lparr>alAttributes := Some (log_attrs r)\<rparr>)"

definition log_service :: "labels \<Rightarrow> string \<Rightarrow> string" where
  "log_service attrs entityID =
     (case map_of attrs ''process.name'' of
        Some pn \<Rightarrow> if pn \<noteq> [] \<and> (map_of attrs ''log.source'' = Some ''process''
                                  \<or> map_of attrs ''log.source'' = Some ''application'')
          then entityID @ ''/'' @ pn else entityID
      | None \<Rightarrow> entityID)"

definition AgentLogsToLogRecords ::
  "AgentLogRecord list \<Rightarrow> string \<Rightarrow> string \<Rightarrow> LogRecord list \<times> AgentLogRecord list" where
  "AgentLogsToLogRecords records tenantID entityID =
     (map (\<lambda>r. let (sevText, sevNum) = mapSeverity (alSeverity r); attrs = log_attrs r in
        \<lparr>lTimestamp = alTimestamp r, lTenantID = tenantID, lTraceID = [], lSpanID = [],
         lServiceName = log_service attrs entityID, lSeverityText = sevText, lSeverityNumber = sevNum,
         lBody = alBody r, lAttributes = attrs, lResourceAttrs = [(''host.name'', entityID)]\<rparr>) records,
      map written_back records)"

definition proc_rows ::
  "(string \<Rightarrow> string \<Rightarrow> string) \<Rightarrow> gotime \<Rightarrow> string \<Rightarrow> string \<Rightarrow> ProcessMetric \<Rightarrow> Metric list" where
  "proc_rows resolve now entityID tenantID p = (
     let resolvedName = resolve (prName p) (prCmdline p);
         procEntity = entityID @ ''/'' @ resolvedName;
         labels = [(''host.name'', entityID), (''process.name'', resolvedName), (''process.exe'', prName p),
                   (''process.pid'', format_int (prPID p)), (''source'', ''agenticudp'')];
         labels = (if prCmdline p \<noteq> []
           then AList.update ''process.command_line'' (truncate (prCmdline p) 200) labels else labels);
         row = (\<lambda>name val. \<lparr>mTimestamp = now, mServiceName = procEntity, mMetricName = name,
                  mMetricType = ''gauge'', mValue = val, mLabels = labels, mTenantID = tenantID\<rparr>)
     in [row ''process.cpu.utilization'' (prCPUPercent p),
         row ''process.memory.rss'' (of_int (prMemBytes p)),
         row ''process.memory.physical_usage'' (of_int (prMemBytes p))])"

definition service_rows :: "gotime \<Rightarrow> string \<Rightarrow> string \<Rightarrow> ServiceStatus \<Rightarrow> Metric list" where
  "service_rows now entityID tenantID s = (
     let active = (if svStatus s = ''listening'' \<or> svStatus s = ''established'' then 1 else 0);
         svcEntity = (if svName s = [] then entityID @ ''/'' @ ''port-'' @ format_int (svPort s)
                      else entityID @ ''/'' @ svName s);
         labels = [(''host.name'', entityID), (''service.name'', svName s),
                   (''service.port'', format_int (svPort s)), (''service.proto'', svProtocol s),
                   (''service.status'', svStatus s), (''source'', ''agenticudp'')];
         row = (\<lambda>name val. \<lparr>mTimestamp = now, mServiceName = svcEntity, mMetricName = name,
                  mMetricType = ''gauge'', mValue = val, mLabels = labels, mTenantID = tenantID\<rparr>)
     in [row ''service.active'' active]
        @ (if svCPUPercent s > 0 then [row ''process.cpu.utilization'' (svCPUPercent s)] else [])
        @ (if svMemBytes s > 0 then [row ''process.memory.physical_usage'' (of_int (svMemBytes s))] else []))"

definition ProcessMetricsToRecords ::
  "(string \<Rightarrow> string \<Rightarrow> string) \<Rightarrow> gotime \<Rightarrow> string \<Rightarrow> string \<Rightarrow> ProcessMetric list \<Rightarrow> ServiceStatus list
   \<Rightarrow> Metric list" where
  "ProcessMetricsToRecords resolve now entityID tenantID procs services =
     concat (map (proc_rows resolve now entityID tenantID) procs)
     @ concat (map (service_rows now entityID tenantID) services)"

subsection \<open>Protobuf batches (sender_proto.go)\<close>

text \<open>\<open>timestamppb.New\<close> keeps a time to the nanosecond.\<close>

definition SnapshotToProtoMetrics :: "HostSnapshot \<Rightarrow> string \<Rightarrow> PbMetric list" where
  "SnapshotToProtoMetrics snap tenantID = (
     let ts = Some (hsTimestamp snap); e = hsEntityID snap;
         labels = [(''host.name'', e), (''source'', ''agenticudp'')];
         row = (\<lambda>name mtype val l. \<lparr>pmTimestamp = ts, pmServiceName = e, pmMetricName = name,
                  pmMetricType = mtype, pmValue = val, pmLabels = l, pmTenantId = tenantID\<rparr>);
         g = (\<lambda>name val. row name ''gauge'' val labels);
         s = (\<lambda>name val. row name ''sum'' val labels);
         sd = (\<lambda>name val dir. row name ''sum'' val
                 [(''host.name'', e), (''source'', ''agenticudp''), (''direction'', dir)])
     in [g ''system.cpu.utilization'' (hsCPU snap),
         g ''system.memory.utilization'' (hsMemory snap),
         s ''system.memory.usage'' (of_int (hsMemoryBytes snap)),
         g ''system.memory.limit'' (of_int (hsMemoryTotal snap)),
         sd ''system.disk.io'' (of_int (hsDiskReadBytes snap)) ''read'',
         sd ''system.disk.io'' (of_int (hsDiskWriteBytes snap)) ''write'',
         s ''system.filesystem.usage'' (of_int (hsDiskUsedBytes snap)),
         g ''system.filesystem.limit'' (of_int (hsDiskTotalBytes snap)),
         sd ''system.network.io'' (of_int (hsNetBytesSent snap)) ''transmit'',
         sd ''system.network.io'' (of_int (hsNetBytesRecv snap)) ''receive'',
         sd ''system.network.packets'' (of_int (hsNetPacketsSent snap)) ''transmit'',
         sd ''system.network.packets'' (of_int (hsNetPacketsRecv snap)) ''receive'',
         sd ''system.network.errors'' (of_int (hsNetErrIn snap)) ''receive'',
         sd ''system.network.errors'' (of_int (hsNetErrOut snap)) ''transmit'',
         g ''system.cpu.load_average.1m'' (hsLoadAvg1 snap),
         g ''system.cpu.load_average.5m'' (hsLoadAvg5 snap),
         g ''system.cpu.load_average.15m'' (hsLoadAvg15 snap),
         s ''system.uptime'' (of_int (hsUptime snap)),
         g ''system.process.count'' (of_int (hsProcessCount snap))])"

definition SpansToProtoTraces :: "AgentSpan list \<Rightarrow> string \<Rightarrow> string \<Rightarrow> PbSpan list" where
  "SpansToProtoTraces spans tenantID entityID = map (\<lambda>sp.
     let ps = \<lparr>psTraceId = hex_encode (asTraceID sp), psSpanId = hex_encode (asSpanID sp), psParentSpanId = [],
               psServiceName = span_service sp entityID, psOperationName = asName sp,
               psStartTime = Some (asStartTime sp), psEndTime = Some (asEndTime sp),
               psDurationUs = microseconds (time_sub (asEndTime sp) (asStartTime sp)),
               psStatusCode = asStatus sp, psSpanKind = spanKindToOTel (asKind sp),
               psAttributes = asAttributes sp, psTenantId = tenantID\<rparr>
     in if asParentID sp \<noteq> replicate 8 0 then ps\<lparr>psParentSpanId := hex_encode (asParentID sp)\<rparr> else ps) spans"

definition AgentLogsToProtoLogs ::
  "AgentLogRecord list \<Rightarrow> string \<Rightarrow> string \<Rightarrow> PbLog list \<times> AgentLogRecord list" where
  "AgentLogsToProtoLogs records tenantID entityID =
     (map (\<lambda>r. let (sevText, sevNum) = mapSeverity (alSeverity r); attrs = log_attrs r in
        \<lparr>plTimestamp = Some (alTimestamp r), plTenantId = tenantID, plTraceId = [], plSpanId = [],
         plServiceName = log_service attrs entityID, plSeverityText = sevText, plSeverityNumber = i32 sevNum,
         plBody = alBody r, plAttributes = attrs, plResourceAttrs = [(''host.name'', entityID)]\<rparr>) records,
      map written_back records)"

definition software_to_proto :: "PbSoftware \<Rightarrow> PbSoftware" where
  "software_to_proto ds = ds\<lparr>swMatchedPorts := map i32 (swMatchedPorts ds)\<rparr>"

definition HostFingerprintToProto :: "HostFingerprint \<Rightarrow> PbFingerprint" where
  "HostFingerprintToProto hfp =
     \<lparr>fpOs = hOS hfp, fpArch = hArch hfp, fpKernel = hKernel hfp, fpCloudProvider = hCloudProvider hfp,
      fpHostname = hHostname hfp, fpContainerRuntime = hContainerRuntime hfp, fpPlatform = hPlatform hfp,
      fpFingerprintId = hFingerprintID hfp, fpConfidence = hConfidence hfp,
      fpCollectedAt = Some (hCollectedAt hfp), fpDurationNs = hDuration hfp,
      fpOpenPorts = map i32 (hOpenPorts hfp), fpProcesses = hProcesses hfp,
      fpDetectedSoftware = map software_to_proto (hDetectedSoftware hfp),
      fpDetectedAgents = hDetectedAgents hfp, fpLparInfo = hLPARInfo hfp,
      fpSmfTypes = map i32 (hSMFTypes hfp), fpActiveSubsystems = hActiveSubsystems hfp,
      fpMqManagers = hMQManagers hfp, fpIndustrialProtos = hIndustrialProtos hfp,
      fpLegacyDetected = hLegacyDetected hfp\<rparr>"

definition ProcessMetricsToProtoBatch ::
  "gotime \<Rightarrow> string \<Rightarrow> string \<Rightarrow> ProcessMetric list \<Rightarrow> ServiceStatus list \<Rightarrow> PbMetric list" where
  "ProcessMetricsToProtoBatch now entityID tenantID procs services = (
     let row = (\<lambda>labels name val. \<lparr>pmTimestamp = Some now, pmServiceName = entityID, pmMetricName = name,
                 pmMetricType = ''gauge'', pmValue = val, pmLabels = labels, pmTenantId = tenantID\<rparr>)
     in concat (map (\<lambda>p.
          let labels = [(''host.name'', entityID), (''process.name'', prName p),
                        (''process.pid'', format_int (prPID p)), (''source'', ''agenticudp'')]
          in [row labels ''process.cpu.utilization'' (prCPUPercent p),
              row labels ''process.memory.rss'' (of_int (prMemBytes p))]) procs)
        @ map (\<lambda>s.
          let active = (if svStatus s = ''listening'' \<or> svStatus s = ''established'' then 1 else 0);
              labels = [(''host.name'', entityID), (''service.name'', svName s), (''source'', ''agenticudp'')]
          in row labels ''service.active'' active) services)"

subsection \<open>Both encodings reach the core as the same rows\<close>

lemma log_attrs_written_back [simp]: "log_attrs (written_back r) = log_attrs r"
  by (simp add: log_attrs_def written_back_def Let_def split: option.split)

lemma written_back_fields [simp]:
  "alTimestamp (written_back r) = alTimestamp r" "alSeverity (written_back r) = alSeverity r"
  "alBody (written_back r) = alBody r"
  by (simp_all add: written_back_def split: option.split)

lemma severity_i32 [simp]: "i32 (snd (mapSeverity s)) = snd (mapSeverity s)"
  by (rule i32_id) (simp add: mapSeverity_def in_i32_def)

lemma snapshot_rows_agree:
  "protoMetricsToStorage (SnapshotToProtoMetrics snap tenantID) tenantID = SnapshotToMetrics snap tenantID"
  unfolding SnapshotToProtoMetrics_def SnapshotToMetrics_def Let_def
  by (simp add: protoMetricsToStorage_def time_or_zero_def)

lemma span_rows_agree:
  "protoTracesToStorage (SpansToProtoTraces spans tenantID entityID) tenantID = SpansToTraces spans tenantID entityID"
  by (simp add: protoTracesToStorage_def SpansToProtoTraces_def SpansToTraces_def time_or_zero_def Let_def)

lemma log_rows_agree:
  "protoLogsToStorage (fst (AgentLogsToProtoLogs records tenantID entityID)) tenantID
     = fst (AgentLogsToLogRecords records tenantID entityID)"
  by (simp add: protoLogsToStorage_def AgentLogsToProtoLogs_def AgentLogsToLogRecords_def
      time_or_zero_def Let_def case_prod_unfold)

text \<open>Property C29. The agent's host metrics, spans and logs reach the core's storage as the same
  rows whether they travel as JSON records or as protobuf batches. For logs this also holds
  when the protobuf conversion runs after the JSON conversion has written event names into the
  records.\<close>

theorem agent_encodings_agree:
  "protoMetricsToStorage (SnapshotToProtoMetrics snap tenantID) tenantID = SnapshotToMetrics snap tenantID
   \<and> protoTracesToStorage (SpansToProtoTraces spans tenantID entityID) tenantID = SpansToTraces spans tenantID entityID
   \<and> protoLogsToStorage (fst (AgentLogsToProtoLogs records tenantID entityID)) tenantID
       = fst (AgentLogsToLogRecords records tenantID entityID)
   \<and> protoLogsToStorage (fst (AgentLogsToProtoLogs (snd (AgentLogsToLogRecords records tenantID entityID)) tenantID entityID)) tenantID
       = fst (AgentLogsToLogRecords records tenantID entityID)"
proof -
  have "fst (AgentLogsToProtoLogs (snd (AgentLogsToLogRecords records tenantID entityID)) tenantID entityID)
      = fst (AgentLogsToProtoLogs records tenantID entityID)"
    by (simp add: AgentLogsToProtoLogs_def AgentLogsToLogRecords_def Let_def)
  then show ?thesis by (simp add: snapshot_rows_agree span_rows_agree log_rows_agree)
qed

text \<open>Property C30. A fingerprint sent as protobuf arrives with every field the core keeps: ports,
  processes, software and agents survive when the ports fit 32 bits. The mainframe and
  industrial fields (LPAR, SMF types, subsystems, MQ managers, industrial protocols, legacy
  detections) are put on the wire and dropped by the core.\<close>

theorem fingerprint_round_trip:
  assumes "\<forall>p \<in> set (hOpenPorts hfp). in_i32 p"
    and "\<forall>ds \<in> set (hDetectedSoftware hfp). \<forall>p \<in> set (swMatchedPorts ds). in_i32 p"
  shows "protoFingerprintToHost (HostFingerprintToProto hfp)
    = hfp\<lparr>hLPARInfo := None, hSMFTypes := [], hActiveSubsystems := [], hMQManagers := [],
          hIndustrialProtos := [], hLegacyDetected := []\<rparr>"
proof -
  have "map i32 (hOpenPorts hfp) = hOpenPorts hfp" using assms(1) by (simp add: map_idI)
  moreover have "map software_to_proto (hDetectedSoftware hfp) = hDetectedSoftware hfp"
    using assms(2) by (intro map_idI) (simp add: software_to_proto_def map_idI)
  ultimately show ?thesis by (simp add: HostFingerprintToProto_def protoFingerprintToHost_def time_or_zero_def)
qed

definition sample_host :: HostFingerprint where
  "sample_host = \<lparr>hOS = ''zos'', hArch = ''s390x'', hKernel = [], hCloudProvider = [], hHostname = ''mf1'',
     hContainerRuntime = [], hPlatform = [], hFingerprintID = ''f'', hConfidence = 1, hCollectedAt = 5,
     hDuration = 7, hOpenPorts = [22, 4320], hProcesses = [], hDetectedSoftware = [], hDetectedAgents = [],
     hLPARInfo = None, hSMFTypes = [30], hActiveSubsystems = [''DB2''], hMQManagers = [], hIndustrialProtos = [],
     hLegacyDetected = []\<rparr>"

theorem fingerprint_round_trip_witness:
  "protoFingerprintToHost (HostFingerprintToProto sample_host)
     = sample_host\<lparr>hSMFTypes := [], hActiveSubsystems := []\<rparr>"
  using fingerprint_round_trip [of sample_host] by (simp add: sample_host_def in_i32_def)

text \<open>Process metrics are the exception: the protobuf batch files them under the host instead of
  the process and leaves out the physical memory row.\<close>

lemma process_rows_differ:
  assumes "procs = [p]"
  shows "map mServiceName (protoMetricsToStorage (ProcessMetricsToProtoBatch now e t procs []) t) = [e, e]"
    and "map mServiceName (ProcessMetricsToRecords resolve now e t procs [])
       = replicate 3 (e @ ''/'' @ resolve (prName p) (prCmdline p))"
  using assms by (simp_all add: ProcessMetricsToProtoBatch_def ProcessMetricsToRecords_def proc_rows_def
      protoMetricsToStorage_def Let_def numeral_3_eq_3)

end
