(* ===== verification/Otlp_Translate.thy ===== *)
theory Otlp_Translate
  imports Sender
begin

section \<open>OTLP to records (otlpshim/translate.go, translate_proto.go)\<close>

text \<open>
  The loopback shim turns OTLP requests into the rows of the JSON envelope (\<open>translate.go\<close>, path
  B) or into protobuf batches (\<open>translate_proto.go\<close>, path C). The OTLP messages have the fields
  the translators read. Elements of a repeated field are optional where the code tests for nil;
  a nil data point reads as the zero one, a nil \<open>AnyValue\<close> and one without a value are both
  \<open>NoValue\<close>. A nil entry of a key-value list is dereferenced by \<open>anyValueAsString\<close>, so the
  translators return \<open>None\<close>, a panic, there.

  \<open>strconv.FormatFloat\<close> is the argument \<open>fmtF\<close>. The clock is an argument too: \<open>now n\<close> is the time
  read when \<open>n\<close> rows have been produced.
\<close>

subsection \<open>OTLP messages\<close>

datatype AnyValue = NoValue | StringValue string | BoolValue bool | IntValue int | DoubleValue real
  | BytesValue bytes | ArrayValue "AnyValue list" | KvlistValue "(string \<times> AnyValue) option list"

type_synonym KeyValue = "string \<times> AnyValue"
type_synonym attributes = "KeyValue option list"

record Span =
  spTraceId :: bytes
  spSpanId :: bytes
  spParentSpanId :: bytes
  spName :: string
  spKind :: int
  spStart :: u64
  spEnd :: u64
  spStatus :: "int option"
  spAttributes :: attributes

record ScopeSpans =
  ssScopeName :: string
  ssSpans :: "Span option list"

record ResourceSpans =
  rsResource :: attributes
  rsScopeSpans :: "ScopeSpans option list"

datatype number_value = AsDouble real | AsInt int | NoNumber

record NumberDataPoint =
  dpTime :: u64
  dpStart :: u64
  dpValue :: number_value
  dpAttributes :: attributes

record HistogramDataPoint =
  hpTime :: u64
  hpStart :: u64
  hpCount :: u64
  hpSum :: real
  hpAttributes :: attributes

datatype metric_data = Gauge "NumberDataPoint list" | Sum bool "NumberDataPoint list"
  | Histogram "HistogramDataPoint list" | OtherData

record OtlpMetric =
  omName :: string
  omData :: metric_data

record ResourceMetrics =
  rmResource :: attributes
  rmScopeMetrics :: "OtlpMetric option list option list"

record OtlpLog =
  olTime :: u64
  olTraceId :: bytes
  olSpanId :: bytes
  olSeverityText :: string
  olSeverityNumber :: "32 word"
  olBody :: AnyValue
  olAttributes :: attributes

record ResourceLogs =
  rlResource :: attributes
  rlScopeLogs :: "OtlpLog option list option list"

subsection \<open>Attribute helpers\<close>

definition hexdigits :: string where "hexdigits = ''0123456789abcdef''"

definition hexBytes :: "bytes \<Rightarrow> string" where
  "hexBytes b = (if length b = 0 then []
     else concat (map (\<lambda>c. [hexdigits ! unat (drop_bit 4 c), hexdigits ! unat (c AND 15)]) b))"

function (sequential) anyValueAsString :: "(real \<Rightarrow> string) \<Rightarrow> AnyValue \<Rightarrow> string option"
  and array_items :: "(real \<Rightarrow> string) \<Rightarrow> bool \<Rightarrow> AnyValue list \<Rightarrow> string option"
  and kvlist_items :: "(real \<Rightarrow> string) \<Rightarrow> bool \<Rightarrow> (string \<times> AnyValue) option list \<Rightarrow> string option" where
  "anyValueAsString fmtF NoValue = Some []"
| "anyValueAsString fmtF (StringValue s) = Some s"
| "anyValueAsString fmtF (BoolValue b) = Some (if b then ''true'' else ''false'')"
| "anyValueAsString fmtF (IntValue i) = Some (format_int i)"
| "anyValueAsString fmtF (DoubleValue d) = Some (fmtF d)"
| "anyValueAsString fmtF (BytesValue b) = Some (hexBytes b)"
| "anyValueAsString fmtF (ArrayValue vs) =
     map_option (\<lambda>items. ''['' @ items @ '']'') (array_items fmtF True vs)"
| "anyValueAsString fmtF (KvlistValue kvs) =
     map_option (\<lambda>items. CHR 0x7B # items @ [CHR 0x7D]) (kvlist_items fmtF True kvs)"
| "array_items fmtF first [] = Some []"
| "array_items fmtF first (v # vs) =
     (case anyValueAsString fmtF v of None \<Rightarrow> None | Some s \<Rightarrow>
       map_option (\<lambda>rest. (if first then [] else '','') @ s @ rest) (array_items fmtF False vs))"
| "kvlist_items fmtF first [] = Some []"
| "kvlist_items fmtF first (None # kvs) = None"
| "kvlist_items fmtF first (Some (k, v) # kvs) =
     (case anyValueAsString fmtF v of None \<Rightarrow> None | Some s \<Rightarrow>
       map_option (\<lambda>rest. (if first then [] else '','') @ k @ ''='' @ s @ rest) (kvlist_items fmtF False kvs))"
  by pat_completeness auto

termination
  by (relation "measure (\<lambda>x. case x of Inl (f, v) \<Rightarrow> size v
        | Inr (Inl (f, b, vs)) \<Rightarrow> size_list size vs
        | Inr (Inr (f, b, kvs)) \<Rightarrow> size_list (size_option (size_prod (\<lambda>_. 0) size)) kvs)") auto

definition flattenAttrs :: "(real \<Rightarrow> string) \<Rightarrow> attributes \<Rightarrow> labels option" where
  "flattenAttrs fmtF kvs = range_loop (\<lambda>kv out. case kv of
       None \<Rightarrow> Some out
     | Some (key, value) \<Rightarrow> if key = [] then Some out
         else map_option (\<lambda>s. AList.update key s out) (anyValueAsString fmtF value)) kvs []"

definition mergeAttrs :: "labels \<Rightarrow> labels \<Rightarrow> labels" where
  "mergeAttrs base overlay =
     fold (\<lambda>(k, v) out. AList.update k v out) overlay (fold (\<lambda>(k, v) out. AList.update k v out) base [])"

text \<open>The service of a resource as the translators read it from the flattened attributes.\<close>

definition service_name :: "labels \<Rightarrow> string" where
  "service_name resAttrs = (case map_of resAttrs ''service.name'' of
     Some s \<Rightarrow> if s = [] then ''unknown-service'' else s
   | None \<Rightarrow> ''unknown-service'')"

definition statusCodeString :: "int option \<Rightarrow> string" where
  "statusCodeString s = (case s of None \<Rightarrow> ''UNSET''
     | Some c \<Rightarrow> if c = 1 then ''OK'' else if c = 2 then ''ERROR'' else ''UNSET'')"

definition spanKindString :: "int \<Rightarrow> string" where
  "spanKindString k = (if k = 1 then ''INTERNAL'' else if k = 2 then ''SERVER''
     else if k = 3 then ''CLIENT'' else if k = 4 then ''PRODUCER'' else if k = 5 then ''CONSUMER''
     else ''INTERNAL'')"

fun resourceServiceName :: "(real \<Rightarrow> string) \<Rightarrow> attributes \<Rightarrow> string option" where
  "resourceServiceName fmtF [] = Some ''unknown-service''"
| "resourceServiceName fmtF (kv # kvs) =
     (case kv of
        Some (key, value) \<Rightarrow> if key = ''service.name''
          then (case anyValueAsString fmtF value of None \<Rightarrow> None
            | Some s \<Rightarrow> if s \<noteq> [] then Some s else resourceServiceName fmtF kvs)
          else resourceServiceName fmtF kvs
      | None \<Rightarrow> resourceServiceName fmtF kvs)"

text \<open>\<open>time.Unix(0, int64(ns))\<close>.\<close>

definition unix_nano :: "u64 \<Rightarrow> gotime" where "unix_nano ns = sint ns"

definition datapointTime :: "gotime \<Rightarrow> u64 \<Rightarrow> u64 \<Rightarrow> gotime" where
  "datapointTime now timeUnixNano startUnixNano =
     (if timeUnixNano > 0 then unix_nano timeUnixNano
      else if startUnixNano > 0 then unix_nano startUnixNano else now)"

definition span_attrs :: "labels \<Rightarrow> labels \<Rightarrow> string \<Rightarrow> labels" where
  "span_attrs resAttrs spanAttrs scopeName =
     (let attrs = mergeAttrs resAttrs spanAttrs
      in if scopeName \<noteq> [] then AList.update ''otel.scope.name'' scopeName attrs else attrs)"

definition span_duration :: "Span \<Rightarrow> int" where
  "span_duration sp = (let start = unix_nano (spStart sp); fin = unix_nano (spEnd sp)
     in if \<not> fin < start then microseconds (time_sub fin start) else 0)"

definition number_of :: "NumberDataPoint \<Rightarrow> real" where
  "number_of dp = (case dpValue dp of AsDouble d \<Rightarrow> d | AsInt i \<Rightarrow> of_int i | NoNumber \<Rightarrow> 0)"

text \<open>Skipping the nil elements of a repeated field.\<close>

definition skip_nil :: "('a \<Rightarrow> 's \<Rightarrow> 's option) \<Rightarrow> 'a option \<Rightarrow> 's \<Rightarrow> 's option" where
  "skip_nil body x s = (case x of None \<Rightarrow> Some s | Some x \<Rightarrow> body x s)"

subsection \<open>Path B (translate.go)\<close>

definition trace_row ::
  "(real \<Rightarrow> string) \<Rightarrow> labels \<Rightarrow> string \<Rightarrow> string \<Rightarrow> string \<Rightarrow> Span \<Rightarrow> Trace option" where
  "trace_row fmtF resAttrs serviceName scopeName tenantID sp =
     map_option (\<lambda>spanAttrs.
       \<lparr>tTraceID = hexBytes (spTraceId sp), tSpanID = hexBytes (spSpanId sp),
        tParentSpanID = hexBytes (spParentSpanId sp), tServiceName = serviceName,
        tOperationName = spName sp, tStartTime = unix_nano (spStart sp),
        tEndTime = unix_nano (spEnd sp), tDurationUS = span_duration sp,
        tStatusCode = statusCodeString (spStatus sp), tSpanKind = spanKindString (spKind sp),
        tAttributes = span_attrs resAttrs spanAttrs scopeName, tTenantID = tenantID\<rparr>)
       (flattenAttrs fmtF (spAttributes sp))"

definition TranslateTraces :: "(real \<Rightarrow> string) \<Rightarrow> ResourceSpans option list \<Rightarrow> string \<Rightarrow> Trace list option" where
  "TranslateTraces fmtF rss tenantID = range_loop (skip_nil (\<lambda>rs out.
     flattenAttrs fmtF (rsResource rs) \<bind> (\<lambda>resAttrs.
       let serviceName = service_name resAttrs in
       range_loop (skip_nil (\<lambda>ss out.
         let scopeName = ssScopeName ss in
         range_loop (skip_nil (\<lambda>sp out. map_option (\<lambda>row. out @ [row])
             (trace_row fmtF resAttrs serviceName scopeName tenantID sp)))
           (ssSpans ss) out)) (rsScopeSpans rs) out))) rss []"

definition gaugeOrSumPoint ::
  "(real \<Rightarrow> string) \<Rightarrow> gotime \<Rightarrow> string \<Rightarrow> string \<Rightarrow> NumberDataPoint \<Rightarrow> labels \<Rightarrow> string \<Rightarrow> string \<Rightarrow> Metric option" where
  "gaugeOrSumPoint fmtF now name metricType dp resAttrs serviceName tenantID =
     map_option (\<lambda>dpAttrs. \<lparr>mTimestamp = datapointTime now (dpTime dp) (dpStart dp), mServiceName = serviceName,
         mMetricName = name, mMetricType = metricType, mValue = number_of dp,
         mLabels = mergeAttrs resAttrs dpAttrs, mTenantID = tenantID\<rparr>)
       (flattenAttrs fmtF (dpAttributes dp))"

definition histogram_rows ::
  "(real \<Rightarrow> string) \<Rightarrow> gotime \<Rightarrow> string \<Rightarrow> HistogramDataPoint \<Rightarrow> labels \<Rightarrow> string \<Rightarrow> string \<Rightarrow> Metric list option" where
  "histogram_rows fmtF now name dp resAttrs serviceName tenantID =
     map_option (\<lambda>dpAttrs.
       let ts = datapointTime now (hpTime dp) (hpStart dp); labels = mergeAttrs resAttrs dpAttrs in
       [\<lparr>mTimestamp = ts, mServiceName = serviceName, mMetricName = name @ ''_count'', mMetricType = ''counter'',
         mValue = real (unat (hpCount dp)), mLabels = labels, mTenantID = tenantID\<rparr>,
        \<lparr>mTimestamp = ts, mServiceName = serviceName, mMetricName = name @ ''_sum'', mMetricType = ''counter'',
         mValue = hpSum dp, mLabels = labels, mTenantID = tenantID\<rparr>])
       (flattenAttrs fmtF (hpAttributes dp))"

definition appendMetricFamily ::
  "(real \<Rightarrow> string) \<Rightarrow> (nat \<Rightarrow> gotime) \<Rightarrow> OtlpMetric \<Rightarrow> labels \<Rightarrow> string \<Rightarrow> string \<Rightarrow> Metric list \<Rightarrow> Metric list option" where
  "appendMetricFamily fmtF now m resAttrs serviceName tenantID out = (
     let name = omName m;
         number_row = (\<lambda>mtype dp out. map_option (\<lambda>row. out @ [row])
           (gaugeOrSumPoint fmtF (now (length out)) name mtype dp resAttrs serviceName tenantID))
     in if name = [] then Some out
     else case omData m of
       Gauge dps \<Rightarrow> range_loop (number_row ''gauge'') dps out
     | Sum isMonotonic dps \<Rightarrow>
         let mtype = (if \<not> isMonotonic then ''gauge'' else ''counter'') in range_loop (number_row mtype) dps out
     | Histogram dps \<Rightarrow> range_loop (\<lambda>dp out. map_option (\<lambda>rows. out @ rows)
           (histogram_rows fmtF (now (length out)) name dp resAttrs serviceName tenantID)) dps out
     | OtherData \<Rightarrow> Some out)"

definition TranslateMetrics ::
  "(real \<Rightarrow> string) \<Rightarrow> (nat \<Rightarrow> gotime) \<Rightarrow> ResourceMetrics option list \<Rightarrow> string \<Rightarrow> Metric list option" where
  "TranslateMetrics fmtF now rms tenantID = range_loop (skip_nil (\<lambda>rm out.
     flattenAttrs fmtF (rmResource rm) \<bind> (\<lambda>resAttrs.
       let serviceName = service_name resAttrs in
       range_loop (skip_nil (\<lambda>sm out.
         range_loop (skip_nil (\<lambda>m out. appendMetricFamily fmtF now m resAttrs serviceName tenantID out))
           sm out)) (rmScopeMetrics rm) out))) rms []"

definition log_time :: "gotime \<Rightarrow> OtlpLog \<Rightarrow> gotime" where
  "log_time now lr = (if olTime lr = 0 then now else unix_nano (olTime lr))"

definition TranslateLogs ::
  "(real \<Rightarrow> string) \<Rightarrow> (nat \<Rightarrow> gotime) \<Rightarrow> ResourceLogs option list \<Rightarrow> string \<Rightarrow> LogRecord list option" where
  "TranslateLogs fmtF now rls tenantID = range_loop (skip_nil (\<lambda>rl out.
     flattenAttrs fmtF (rlResource rl) \<bind> (\<lambda>resAttrs.
       let serviceName = service_name resAttrs in
       range_loop (skip_nil (\<lambda>sl out.
         range_loop (skip_nil (\<lambda>lr out.
           anyValueAsString fmtF (olBody lr) \<bind> (\<lambda>body. map_option (\<lambda>attrs. out @
             [\<lparr>lTimestamp = log_time (now (length out)) lr, lTenantID = tenantID,
               lTraceID = hexBytes (olTraceId lr), lSpanID = hexBytes (olSpanId lr), lServiceName = serviceName,
               lSeverityText = olSeverityText lr, lSeverityNumber = sint (olSeverityNumber lr),
               lBody = body, lAttributes = attrs, lResourceAttrs = resAttrs\<rparr>])
             (flattenAttrs fmtF (olAttributes lr))))) sl out)) (rlScopeLogs rl) out))) rls []"

subsection \<open>Path C (translate_proto.go)\<close>

text \<open>A nil request is \<open>None\<close>; a nil batch, the result for no rows, is the inner \<open>None\<close>.\<close>

definition batch_or_nil :: "'a list \<Rightarrow> 'a list option" where
  "batch_or_nil rows = (if length rows = 0 then None else Some rows)"

definition protoSpanKindString :: "int \<Rightarrow> string" where
  "protoSpanKindString k = (if k = 1 then ''INTERNAL'' else if k = 2 then ''SERVER''
     else if k = 3 then ''CLIENT'' else if k = 4 then ''PRODUCER'' else if k = 5 then ''CONSUMER''
     else ''INTERNAL'')"

definition span_proto ::
  "(real \<Rightarrow> string) \<Rightarrow> labels \<Rightarrow> string \<Rightarrow> string \<Rightarrow> string \<Rightarrow> Span \<Rightarrow> PbSpan option" where
  "span_proto fmtF resAttrs serviceName scopeName tenantID sp =
     map_option (\<lambda>spanAttrs.
       \<lparr>psTraceId = hexBytes (spTraceId sp), psSpanId = hexBytes (spSpanId sp),
        psParentSpanId = hexBytes (spParentSpanId sp), psServiceName = serviceName,
        psOperationName = spName sp, psStartTime = Some (unix_nano (spStart sp)),
        psEndTime = Some (unix_nano (spEnd sp)), psDurationUs = span_duration sp,
        psStatusCode = statusCodeString (spStatus sp), psSpanKind = protoSpanKindString (spKind sp),
        psAttributes = span_attrs resAttrs spanAttrs scopeName, psTenantId = tenantID\<rparr>)
       (flattenAttrs fmtF (spAttributes sp))"

definition TranslateTracesProto ::
  "(real \<Rightarrow> string) \<Rightarrow> ResourceSpans option list option \<Rightarrow> string \<Rightarrow> PbSpan list option option" where
  "TranslateTracesProto fmtF req tenantID = (case req of None \<Rightarrow> Some None | Some rss \<Rightarrow>
     if length rss = 0 then Some None
     else map_option batch_or_nil (range_loop (skip_nil (\<lambda>rs spans.
       flattenAttrs fmtF (rsResource rs) \<bind> (\<lambda>resAttrs.
         let serviceName = service_name resAttrs in
         range_loop (skip_nil (\<lambda>ss spans.
           let scopeName = ssScopeName ss in
           range_loop (skip_nil (\<lambda>sp spans. map_option (\<lambda>row. spans @ [row])
               (span_proto fmtF resAttrs serviceName scopeName tenantID sp)))
             (ssSpans ss) spans)) (rsScopeSpans rs) spans))) rss []))"

definition gaugeOrSumProtoPoint ::
  "(real \<Rightarrow> string) \<Rightarrow> gotime \<Rightarrow> string \<Rightarrow> string \<Rightarrow> NumberDataPoint \<Rightarrow> labels \<Rightarrow> string \<Rightarrow> string \<Rightarrow> PbMetric option" where
  "gaugeOrSumProtoPoint fmtF now name metricType dp resAttrs serviceName tenantID =
     map_option (\<lambda>dpAttrs. \<lparr>pmTimestamp = Some (datapointTime now (dpTime dp) (dpStart dp)),
         pmServiceName = serviceName, pmMetricName = name, pmMetricType = metricType, pmValue = number_of dp,
         pmLabels = mergeAttrs resAttrs dpAttrs, pmTenantId = tenantID\<rparr>)
       (flattenAttrs fmtF (dpAttributes dp))"

definition histogram_protos ::
  "(real \<Rightarrow> string) \<Rightarrow> gotime \<Rightarrow> string \<Rightarrow> HistogramDataPoint \<Rightarrow> labels \<Rightarrow> string \<Rightarrow> string \<Rightarrow> PbMetric list option" where
  "histogram_protos fmtF now name dp resAttrs serviceName tenantID =
     map_option (\<lambda>dpAttrs.
       let ts = Some (datapointTime now (hpTime dp) (hpStart dp)); labels = mergeAttrs resAttrs dpAttrs in
       [\<lparr>pmTimestamp = ts, pmServiceName = serviceName, pmMetricName = name @ ''_count'', pmMetricType = ''counter'',
         pmValue = real (unat (hpCount dp)), pmLabels = labels, pmTenantId = tenantID\<rparr>,
        \<lparr>pmTimestamp = ts, pmServiceName = serviceName, pmMetricName = name @ ''_sum'', pmMetricType = ''counter'',
         pmValue = hpSum dp, pmLabels = labels, pmTenantId = tenantID\<rparr>])
       (flattenAttrs fmtF (hpAttributes dp))"

definition appendProtoMetricFamily ::
  "(real \<Rightarrow> string) \<Rightarrow> (nat \<Rightarrow> gotime) \<Rightarrow> OtlpMetric \<Rightarrow> labels \<Rightarrow> string \<Rightarrow> string \<Rightarrow> PbMetric list \<Rightarrow> PbMetric list option" where
  "appendProtoMetricFamily fmtF now m resAttrs serviceName tenantID out = (
     let name = omName m;
         number_row = (\<lambda>mtype dp out. map_option (\<lambda>row. out @ [row])
           (gaugeOrSumProtoPoint fmtF (now (length out)) name mtype dp resAttrs serviceName tenantID))
     in if name = [] then Some out
     else case omData m of
       Gauge dps \<Rightarrow> range_loop (number_row ''gauge'') dps out
     | Sum isMonotonic dps \<Rightarrow>
         let mtype = (if \<not> isMonotonic then ''gauge'' else ''counter'') in range_loop (number_row mtype) dps out
     | Histogram dps \<Rightarrow> range_loop (\<lambda>dp out. map_option (\<lambda>rows. out @ rows)
           (histogram_protos fmtF (now (length out)) name dp resAttrs serviceName tenantID)) dps out
     | OtherData \<Rightarrow> Some out)"

definition TranslateMetricsProto ::
  "(real \<Rightarrow> string) \<Rightarrow> (nat \<Rightarrow> gotime) \<Rightarrow> ResourceMetrics option list option \<Rightarrow> string \<Rightarrow> PbMetric list option option" where
  "TranslateMetricsProto fmtF now req tenantID = (case req of None \<Rightarrow> Some None | Some rms \<Rightarrow>
     if length rms = 0 then Some None
     else map_option batch_or_nil (range_loop (skip_nil (\<lambda>rm metrics.
       flattenAttrs fmtF (rmResource rm) \<bind> (\<lambda>resAttrs.
         let serviceName = service_name resAttrs in
         range_loop (skip_nil (\<lambda>sm metrics.
           range_loop (skip_nil (\<lambda>m metrics. appendProtoMetricFamily fmtF now m resAttrs serviceName tenantID metrics))
             sm metrics)) (rmScopeMetrics rm) metrics))) rms []))"

definition TranslateLogsProto ::
  "(real \<Rightarrow> string) \<Rightarrow> (nat \<Rightarrow> gotime) \<Rightarrow> ResourceLogs option list option \<Rightarrow> string \<Rightarrow> PbLog list option option" where
  "TranslateLogsProto fmtF now req tenantID = (case req of None \<Rightarrow> Some None | Some rls \<Rightarrow>
     if length rls = 0 then Some None
     else map_option batch_or_nil (range_loop (skip_nil (\<lambda>rl out.
       flattenAttrs fmtF (rlResource rl) \<bind> (\<lambda>resAttrs.
         let serviceName = service_name resAttrs in
         range_loop (skip_nil (\<lambda>sl out.
           range_loop (skip_nil (\<lambda>lr out.
             anyValueAsString fmtF (olBody lr) \<bind> (\<lambda>body. map_option (\<lambda>attrs. out @
               [\<lparr>plTimestamp = Some (log_time (now (length out)) lr), plTenantId = tenantID,
                 plTraceId = hexBytes (olTraceId lr), plSpanId = hexBytes (olSpanId lr), plServiceName = serviceName,
                 plSeverityText = olSeverityText lr, plSeverityNumber = sint (olSeverityNumber lr),
                 plBody = body, plAttributes = attrs, plResourceAttrs = resAttrs\<rparr>])
               (flattenAttrs fmtF (olAttributes lr))))) sl out)) (rlScopeLogs rl) out))) rls []))"

subsection \<open>The two paths are one mapping\<close>

lemma skip_nil_simulation:
  "(\<And>x s. map_option view (f x s) = g x (view s)) \<Longrightarrow> map_option view (skip_nil f x s) = skip_nil g x (view s)"
  by (simp add: skip_nil_def split: option.split)

lemma bind_simulation:
  "(\<And>y. map_option view (f y) = g y) \<Longrightarrow> map_option view (m \<bind> f) = m \<bind> g"
  by (cases m) simp_all

lemmas loop_simulation = range_loop_simulation skip_nil_simulation bind_simulation

lemma storage_append:
  "protoTracesToStorage (a @ b) t = protoTracesToStorage a t @ protoTracesToStorage b t"
  "protoMetricsToStorage (c @ d) t = protoMetricsToStorage c t @ protoMetricsToStorage d t"
  "protoLogsToStorage (e @ f) t = protoLogsToStorage e t @ protoLogsToStorage f t"
  "protoTracesToStorage [] t = []" "protoMetricsToStorage [] t = []" "protoLogsToStorage [] t = []"
  "length (protoMetricsToStorage c t) = length c" "length (protoLogsToStorage e t) = length e"
  by (simp_all add: protoTracesToStorage_def protoMetricsToStorage_def protoLogsToStorage_def)

lemma protoSpanKind_eq: "protoSpanKindString k = spanKindString k"
  by (simp add: protoSpanKindString_def spanKindString_def)

text \<open>What the core stores for a batch: nothing for a nil batch.\<close>

definition stored :: "('a list \<Rightarrow> string \<Rightarrow> 'b list) \<Rightarrow> string \<Rightarrow> 'a list option \<Rightarrow> 'b list" where
  "stored conv tenantID batch = (case batch of None \<Rightarrow> [] | Some rows \<Rightarrow> conv rows tenantID)"

lemma stored_batch: "conv [] t = [] \<Longrightarrow> stored conv t (batch_or_nil rows) = conv rows t"
  by (simp add: stored_def batch_or_nil_def)

lemma stored_loop:
  assumes "conv [] t = []" "\<And>x out. map_option (\<lambda>rows. conv rows t) (f x out) = g x (conv out t)"
  shows "map_option (stored conv t) (map_option batch_or_nil (range_loop (skip_nil f) xs []))
    = range_loop (skip_nil g) xs []"
proof -
  have "map_option (stored conv t) (map_option batch_or_nil m) = map_option (\<lambda>rows. conv rows t) m" for m
    by (simp add: option.map_comp comp_def stored_batch assms(1))
  moreover have "map_option (\<lambda>rows. conv rows t) (range_loop (skip_nil f) xs [])
      = range_loop (skip_nil g) xs (conv [] t)"
    by (intro loop_simulation assms(2))
  ultimately show ?thesis by (simp add: assms(1))
qed

lemma trace_paths_agree:
  "map_option (stored protoTracesToStorage tenantID) (TranslateTracesProto fmtF (Some rss) tenantID)
     = TranslateTraces fmtF rss tenantID"
proof (cases "rss = []")
  case False
  then show ?thesis
    unfolding TranslateTracesProto_def TranslateTraces_def option.case Let_def
    by (simp only: length_0_conv if_False, intro stored_loop loop_simulation)
      (simp_all add: option.map_comp comp_def storage_append protoTracesToStorage_def time_or_zero_def
        protoSpanKind_eq span_proto_def trace_row_def)
qed (simp add: TranslateTracesProto_def TranslateTraces_def stored_def)

lemma log_paths_agree:
  "map_option (stored protoLogsToStorage tenantID) (TranslateLogsProto fmtF now (Some rls) tenantID)
     = TranslateLogs fmtF now rls tenantID"
proof (cases "rls = []")
  case False
  then show ?thesis
    unfolding TranslateLogsProto_def TranslateLogs_def option.case Let_def
    by (simp only: length_0_conv if_False, intro stored_loop loop_simulation)
      (simp_all add: option.map_comp comp_def storage_append protoLogsToStorage_def time_or_zero_def)
qed (simp add: TranslateLogsProto_def TranslateLogs_def stored_def)

lemma family_rows_agree:
  "map_option (\<lambda>rows. protoMetricsToStorage rows tenantID)
      (appendProtoMetricFamily fmtF now m resAttrs serviceName tenantID out)
     = appendMetricFamily fmtF now m resAttrs serviceName tenantID (protoMetricsToStorage out tenantID)"
proof -
  let ?view = "\<lambda>rows. protoMetricsToStorage rows tenantID"
  have number: "map_option ?view (map_option (\<lambda>row. out @ [row])
        (gaugeOrSumProtoPoint fmtF (now (length out)) name mtype dp resAttrs serviceName tenantID))
      = map_option (\<lambda>row. ?view out @ [row])
        (gaugeOrSumPoint fmtF (now (length (?view out))) name mtype dp resAttrs serviceName tenantID)"
    for name mtype dp out
    by (simp add: gaugeOrSumProtoPoint_def gaugeOrSumPoint_def option.map_comp comp_def
        protoMetricsToStorage_def time_or_zero_def)
  have histogram: "map_option ?view (map_option (\<lambda>rows. out @ rows)
        (histogram_protos fmtF (now (length out)) name dp resAttrs serviceName tenantID))
      = map_option (\<lambda>rows. ?view out @ rows)
        (histogram_rows fmtF (now (length (?view out))) name dp resAttrs serviceName tenantID)"
    for name dp out
    by (simp add: histogram_protos_def histogram_rows_def option.map_comp comp_def Let_def
        protoMetricsToStorage_def time_or_zero_def)
  show ?thesis
    unfolding appendProtoMetricFamily_def appendMetricFamily_def Let_def
    by (cases "omData m") (simp_all add: range_loop_simulation [where view = ?view] number histogram)
qed

lemma metric_paths_agree:
  "map_option (stored protoMetricsToStorage tenantID) (TranslateMetricsProto fmtF now (Some rms) tenantID)
     = TranslateMetrics fmtF now rms tenantID"
proof (cases "rms = []")
  case False
  then show ?thesis
    unfolding TranslateMetricsProto_def TranslateMetrics_def option.case Let_def
    by (simp only: length_0_conv if_False, intro stored_loop loop_simulation)
      (simp_all add: storage_append family_rows_agree)
qed (simp add: TranslateMetricsProto_def TranslateMetrics_def stored_def)

text \<open>Property C26. Path B and path C are two encodings of one mapping: for every OTLP request the
  rows the core stores for the protobuf batch are the rows of the JSON translation, for traces,
  metrics and logs, and one path panics exactly when the other does.\<close>

theorem otlp_paths_agree:
  "map_option (stored protoTracesToStorage tenantID) (TranslateTracesProto fmtF (Some rss) tenantID)
     = TranslateTraces fmtF rss tenantID
   \<and> map_option (stored protoMetricsToStorage tenantID) (TranslateMetricsProto fmtF now (Some rms) tenantID)
     = TranslateMetrics fmtF now rms tenantID
   \<and> map_option (stored protoLogsToStorage tenantID) (TranslateLogsProto fmtF now (Some rls) tenantID)
     = TranslateLogs fmtF now rls tenantID"
  by (intro conjI trace_paths_agree metric_paths_agree log_paths_agree)

subsection \<open>Every span becomes one row\<close>

lemma hexdigits_nth: "n < 16 \<Longrightarrow> hexdigits ! n = hex_digit n"
proof -
  have "hexdigits = map hex_digit [0..<16]" by code_simp
  then show "n < 16 \<Longrightarrow> hexdigits ! n = hex_digit n"
    using nth_map [of n "[0..<16]" hex_digit] nth_upt [of 0 n 16] by (simp only: length_upt) simp
qed

lemma hexBytes_hex_encode: "hexBytes b = hex_encode b"
proof -
  have "unat (drop_bit 4 c) = unat c div 16" "unat (c AND 15) = unat c mod 16" for c :: u8
    using unat_drop_bit_eq [of 4 c] take_bit_eq_mask [of 4 c] unsigned_take_bit_eq [of 4 c, where ?'a = nat]
    by (simp_all add: drop_bit_eq_div mask_numeral take_bit_eq_mod)
  moreover have "unat c div 16 < 16" for c :: u8 using unsigned_less [of c, where ?'a = nat] by simp
  ultimately show ?thesis by (cases b) (simp_all add: hexBytes_def hex_encode_def hexdigits_nth)
qed

lemma hex_digit_inj: "m < 16 \<Longrightarrow> n < 16 \<Longrightarrow> hex_digit m = hex_digit n \<Longrightarrow> m = n"
proof -
  have "distinct (map hex_digit [0..<16])" by code_simp
  then show "m < 16 \<Longrightarrow> n < 16 \<Longrightarrow> hex_digit m = hex_digit n \<Longrightarrow> m = n"
    by (simp add: distinct_map inj_on_def)
qed

lemma hexBytes_inj: "hexBytes a = hexBytes b \<longleftrightarrow> a = b"
proof -
  have digits: "c = d" if "hex_digit (unat c div 16) = hex_digit (unat d div 16)"
    "hex_digit (unat c mod 16) = hex_digit (unat d mod 16)" for c d :: u8
  proof -
    have "unat c div 16 < 16" "unat d div 16 < 16"
      using unsigned_less [of c, where ?'a = nat] unsigned_less [of d, where ?'a = nat] by simp_all
    then have "unat c div 16 = unat d div 16" "unat c mod 16 = unat d mod 16"
      using hex_digit_inj that by simp_all
    then have "unat c = unat d" by (metis div_mod_decomp)
    then show ?thesis by (simp add: word_unat_eq_iff)
  qed
  have "hex_encode a = hex_encode b \<Longrightarrow> a = b" for a b
  proof (induction a arbitrary: b)
    case Nil
    then show ?case by (cases b) (simp_all add: hex_encode_def)
  next
    case (Cons c a)
    then show ?case by (cases b) (auto simp: hex_encode_def intro: digits)
  qed
  then show ?thesis by (auto simp: hexBytes_hex_encode)
qed

definition non_nil :: "'a option list \<Rightarrow> 'a list" where
  "non_nil xs = concat (map (\<lambda>x. case x of None \<Rightarrow> [] | Some y \<Rightarrow> [y]) xs)"

definition spans_of :: "ResourceSpans option list \<Rightarrow> Span list" where
  "spans_of rss = concat (map (\<lambda>rs. concat (map (\<lambda>ss. non_nil (ssSpans ss)) (non_nil (rsScopeSpans rs)))) (non_nil rss))"

lemma skip_nil_appends:
  assumes "range_loop (skip_nil body) xs s = Some s'"
    and "\<And>x s s'. body x s = Some s' \<Longrightarrow> key s' = key s @ f x"
  shows "key s' = key s @ concat (map f (non_nil xs))"
proof -
  have "key s' = key s @ concat (map (\<lambda>x. case x of None \<Rightarrow> [] | Some y \<Rightarrow> f y) xs)"
    by (rule range_loop_appends [OF assms(1)]) (auto simp: skip_nil_def assms(2) split: option.splits)
  also have "concat (map (\<lambda>x. case x of None \<Rightarrow> [] | Some y \<Rightarrow> f y) xs) = concat (map f (non_nil xs))"
    by (induction xs) (auto simp: non_nil_def split: option.split)
  finally show ?thesis .
qed

lemma skip_nil_inv:
  "range_loop (skip_nil body) xs s = Some s' \<Longrightarrow> I s \<Longrightarrow> (\<And>x s s'. I s \<Longrightarrow> body x s = Some s' \<Longrightarrow> I s') \<Longrightarrow> I s'"
  by (erule range_loop_inv) (auto simp: skip_nil_def split: option.splits)

text \<open>No key-value list inside the value has a nil entry.\<close>

primrec no_nil :: "AnyValue \<Rightarrow> bool" where
  "no_nil NoValue = True" | "no_nil (StringValue s) = True" | "no_nil (BoolValue b) = True"
| "no_nil (IntValue i) = True" | "no_nil (DoubleValue d) = True" | "no_nil (BytesValue b) = True"
| "no_nil (ArrayValue vs) = list_all (\<lambda>b. b) (map no_nil vs)"
| "no_nil (KvlistValue kvs) = list_all (\<lambda>kv. case kv of None \<Rightarrow> False | Some (k, b) \<Rightarrow> b)
     (map (map_option (map_prod (\<lambda>k. k) no_nil)) kvs)"

lemma anyValue_total:
  "no_nil v \<Longrightarrow> \<exists>s. anyValueAsString fmtF v = Some s"
  "list_all no_nil vs \<Longrightarrow> \<exists>s. array_items fmtF first vs = Some s"
  "list_all (\<lambda>kv. case kv of None \<Rightarrow> False | Some (k, v) \<Rightarrow> no_nil v) kvs \<Longrightarrow> \<exists>s. kvlist_items fmtF first kvs = Some s"
proof (induction fmtF v and fmtF first vs and fmtF first kvs
    rule: anyValueAsString_array_items_kvlist_items.induct)
  case (8 fmtF kvs)
  have "list_all (\<lambda>kv. case kv of None \<Rightarrow> False | Some (k, v) \<Rightarrow> no_nil v) kvs"
    using 8(2) by (auto simp: list_all_iff split: option.splits)
  then show ?case using 8(1) by auto
qed (auto simp: list_all_iff)

definition attrs_ok :: "attributes \<Rightarrow> bool" where
  "attrs_ok kvs \<longleftrightarrow> (\<forall>k v. Some (k, v) \<in> set kvs \<longrightarrow> no_nil v)"

lemma flattenAttrs_total: "attrs_ok kvs \<Longrightarrow> \<exists>m. flattenAttrs fmtF kvs = Some m"
  unfolding flattenAttrs_def
proof (rule range_loop_total)
  fix x s assume "attrs_ok kvs" "x \<in> set kvs"
  then show "\<exists>s'. (case x of None \<Rightarrow> Some s | Some (key, value) \<Rightarrow> if key = [] then Some s
      else map_option (\<lambda>t. AList.update key t s) (anyValueAsString fmtF value)) = Some s'"
    using anyValue_total(1) by (cases x) (force simp: attrs_ok_def)+
qed

definition spans_ok :: "ResourceSpans option list \<Rightarrow> bool" where
  "spans_ok rss \<longleftrightarrow> (\<forall>rs. Some rs \<in> set rss \<longrightarrow> attrs_ok (rsResource rs)
     \<and> (\<forall>ss. Some ss \<in> set (rsScopeSpans rs) \<longrightarrow> (\<forall>sp. Some sp \<in> set (ssSpans ss) \<longrightarrow> attrs_ok (spAttributes sp))))"

lemma skip_nil_total:
  "(\<And>x s. Some x \<in> set xs \<Longrightarrow> \<exists>s'. body x s = Some s') \<Longrightarrow> \<exists>s'. range_loop (skip_nil body) xs s = Some s'"
  by (rule range_loop_total) (auto simp: skip_nil_def split: option.splits)

text \<open>The loop over the scopes of one resource.\<close>

abbreviation scope_loop ::
  "(real \<Rightarrow> string) \<Rightarrow> labels \<Rightarrow> string \<Rightarrow> ScopeSpans option list \<Rightarrow> Trace list \<Rightarrow> Trace list option" where
  "scope_loop fmtF resAttrs tenantID \<equiv> range_loop (skip_nil (\<lambda>ss. range_loop (skip_nil (\<lambda>sp out.
     map_option (\<lambda>row. out @ [row]) (trace_row fmtF resAttrs (service_name resAttrs) (ssScopeName ss) tenantID sp)))
       (ssSpans ss)))"

lemma TranslateTraces_eq:
  "TranslateTraces fmtF rss tenantID = range_loop (skip_nil (\<lambda>rs out.
     flattenAttrs fmtF (rsResource rs) \<bind> (\<lambda>resAttrs. scope_loop fmtF resAttrs tenantID (rsScopeSpans rs) out))) rss []"
  by (simp add: TranslateTraces_def Let_def)

lemma TranslateTraces_total: "spans_ok rss \<Longrightarrow> \<exists>rows. TranslateTraces fmtF rss tenantID = Some rows"
  unfolding TranslateTraces_eq
proof (rule skip_nil_total)
  fix rs and out :: "Trace list" assume "spans_ok rss" "Some rs \<in> set rss"
  then have ok: "attrs_ok (rsResource rs)"
    "\<And>ss sp. Some ss \<in> set (rsScopeSpans rs) \<Longrightarrow> Some sp \<in> set (ssSpans ss) \<Longrightarrow> attrs_ok (spAttributes sp)"
    by (auto simp: spans_ok_def)
  obtain res where res: "flattenAttrs fmtF (rsResource rs) = Some res" using flattenAttrs_total [OF ok(1)] by blast
  show "\<exists>s'. flattenAttrs fmtF (rsResource rs) \<bind> (\<lambda>resAttrs. scope_loop fmtF resAttrs tenantID (rsScopeSpans rs) out) = Some s'"
    unfolding res bind.bind_lunit using flattenAttrs_total ok(2)
    by (fastforce intro!: skip_nil_total simp: trace_row_def)
qed

lemma concat_map_map: "concat (map (\<lambda>x. map k (f x)) xs) = map k (concat (map f xs))"
  by (simp add: map_concat comp_def)

lemma concat_single: "concat (map (\<lambda>x. [k x]) xs) = map k xs"
  by (induction xs) simp_all

abbreviation row_key :: "Trace \<Rightarrow> string \<times> string \<times> string \<times> string" where
  "row_key r \<equiv> (tTraceID r, tSpanID r, tParentSpanID r, tOperationName r)"

abbreviation span_key :: "Span \<Rightarrow> string \<times> string \<times> string \<times> string" where
  "span_key sp \<equiv> (hexBytes (spTraceId sp), hexBytes (spSpanId sp), hexBytes (spParentSpanId sp), spName sp)"

lemma scope_rows_keys:
  assumes "scope_loop fmtF res tenantID sss s = Some s'"
  shows "map row_key s' = map row_key s @ concat (map (\<lambda>ss. map span_key (non_nil (ssSpans ss))) (non_nil sss))"
proof (rule skip_nil_appends [OF assms, where key = "map row_key"])
  fix ss and s s' :: "Trace list"
  assume "range_loop (skip_nil (\<lambda>sp out. map_option (\<lambda>row. out @ [row])
      (trace_row fmtF res (service_name res) (ssScopeName ss) tenantID sp))) (ssSpans ss) s = Some s'"
  then have "map row_key s' = map row_key s @ concat (map (\<lambda>sp. [span_key sp]) (non_nil (ssSpans ss)))"
    by (rule skip_nil_appends [where key = "map row_key"]) (auto simp: trace_row_def)
  then show "map row_key s' = map row_key s @ map span_key (non_nil (ssSpans ss))"
    by (simp add: concat_single)
qed

lemma trace_rows_keys:
  assumes "TranslateTraces fmtF rss tenantID = Some rows"
  shows "map row_key rows = map span_key (spans_of rss)"
proof -
  have "map row_key rows = map row_key [] @ concat (map (\<lambda>rs. concat (map (\<lambda>ss. map span_key (non_nil (ssSpans ss)))
      (non_nil (rsScopeSpans rs)))) (non_nil rss))"
    by (rule skip_nil_appends [OF assms [unfolded TranslateTraces_eq], where key = "map row_key"])
      (auto simp: bind_eq_Some_conv dest: scope_rows_keys)
  then show ?thesis by (simp add: spans_of_def concat_map_map)
qed

lemma span_duration_nonneg: "0 \<le> span_duration sp"
proof -
  have "0 \<le> a - b \<Longrightarrow> 0 \<le> microseconds (time_sub a b)" for a b
    by (simp add: microseconds_def go_div_nonneg time_sub_def)
  then show ?thesis by (simp add: span_duration_def Let_def)
qed

lemma service_name_nonempty: "service_name res \<noteq> []"
  by (simp add: service_name_def split: option.split)

abbreviation row_ok :: "string \<Rightarrow> Trace \<Rightarrow> bool" where
  "row_ok tenantID r \<equiv> tTenantID r = tenantID \<and> tServiceName r \<noteq> [] \<and> 0 \<le> tDurationUS r"

lemma scope_rows_ok:
  assumes "scope_loop fmtF res tenantID sss s = Some s'" "list_all (row_ok tenantID) s"
  shows "list_all (row_ok tenantID) s'"
proof (rule skip_nil_inv [where I = "list_all (row_ok tenantID)", OF assms])
  fix ss s s'
  assume s: "list_all (row_ok tenantID) s" and "range_loop (skip_nil (\<lambda>sp out. map_option (\<lambda>row. out @ [row])
      (trace_row fmtF res (service_name res) (ssScopeName ss) tenantID sp))) (ssSpans ss) s = Some s'"
  then show "list_all (row_ok tenantID) s'"
    by (elim skip_nil_inv [where I = "list_all (row_ok tenantID)"])
      (auto simp: trace_row_def service_name_nonempty span_duration_nonneg)
qed

lemma trace_rows_ok:
  assumes "TranslateTraces fmtF rss tenantID = Some rows"
  shows "list_all (row_ok tenantID) rows"
proof (rule skip_nil_inv [OF assms [unfolded TranslateTraces_eq]])
  fix rs s s'
  assume s: "list_all (row_ok tenantID) s"
    and "flattenAttrs fmtF (rsResource rs) \<bind> (\<lambda>res. scope_loop fmtF res tenantID (rsScopeSpans rs) s) = Some s'"
  then obtain res where "scope_loop fmtF res tenantID (rsScopeSpans rs) s = Some s'"
    by (cases "flattenAttrs fmtF (rsResource rs)") simp_all
  then show "list_all (row_ok tenantID) s'" using s by (rule scope_rows_ok)
qed simp

text \<open>Property C27. A trace request whose attributes hold no nil entries is translated without a
  panic into one row per span, in order: each row carries the span's identifiers in hexadecimal
  and its name, the tenant, a non-empty service and a duration that is never negative, whatever
  the span's timestamps. Rows have equal span identifiers only if the spans have.\<close>

theorem traces_translated_completely:
  assumes "spans_ok rss"
  shows "\<exists>rows. TranslateTraces fmtF rss tenantID = Some rows
    \<and> map row_key rows = map span_key (spans_of rss)
    \<and> list_all (row_ok tenantID) rows
    \<and> (distinct (map spSpanId (spans_of rss)) = distinct (map tSpanID rows))"
proof -
  obtain rows where rows: "TranslateTraces fmtF rss tenantID = Some rows"
    using TranslateTraces_total [OF assms] by blast
  note keys = trace_rows_keys [OF rows]
  have "map tSpanID rows = map hexBytes (map spSpanId (spans_of rss))"
    using arg_cong [OF keys, of "map (\<lambda>k. fst (snd k))"] by (simp add: comp_def)
  moreover have "inj hexBytes" by (simp add: inj_on_def hexBytes_inj)
  ultimately have "distinct (map spSpanId (spans_of rss)) = distinct (map tSpanID rows)"
    by (simp only: distinct_map [of hexBytes]) (auto simp: inj_on_def)
  then show ?thesis using rows keys trace_rows_ok [OF rows] by blast
qed

definition sample_span :: Span where
  "sample_span = \<lparr>spTraceId = [1, 2], spSpanId = [171], spParentSpanId = [], spName = ''op'', spKind = 2,
     spStart = 5000, spEnd = 1000, spStatus = None, spAttributes = [Some (''k'', BoolValue True)]\<rparr>"

definition sample_spans :: "ResourceSpans option list" where
  "sample_spans = [Some \<lparr>rsResource = [Some (''service.name'', StringValue ''pay'')],
     rsScopeSpans = [Some \<lparr>ssScopeName = ''lib'', ssSpans = [Some sample_span, None]\<rparr>]\<rparr>, None]"

theorem traces_translated_completely_witness:
  "\<exists>rows. TranslateTraces (\<lambda>_. []) sample_spans ''t'' = Some rows \<and> map row_key rows = [(''0102'', ''ab'', [], ''op'')]"
proof -
  have "spans_ok sample_spans" by (auto simp: spans_ok_def sample_spans_def sample_span_def attrs_ok_def)
  moreover have "map span_key (spans_of sample_spans) = [(''0102'', ''ab'', [], ''op'')]" by code_simp
  ultimately show ?thesis using traces_translated_completely [of sample_spans "\<lambda>_. []" "''t''"] by auto
qed

end
