(* ===== verification/Shim.thy ===== *)
theory Shim
  imports Otlp_Translate
begin

section \<open>The OTLP shim (otlpshim/shim.go, http.go, grpc.go, forwarder*.go)\<close>

text \<open>
  The shim receives OTLP requests over HTTP or gRPC, counts them and hands them to a forwarder.
  A forwarder is one of the three paths; the client or connection it owns is seen through the
  calls made on it, kept in order in \<open>shCalls\<close>, and the environment says which of them fail.
  A forwarding function returns the call it makes: \<open>None\<close> is a panic of the translation,
  \<open>Some None\<close> a request with nothing to send.

  HTTP decoding, gzip and the protobuf decoders are fields of \<open>shim_env\<close>, as are the clock and the
  float formatter of the translation. Listeners are present or absent; binding them may fail.
\<close>

subsection \<open>Forwarders\<close>

record PathAConfig =
  paTarget :: string
  paTenantID :: string
  paAPIKey :: string
  paAgentToken :: string
  paTLS :: bool
  paDialTimeout :: duration
  paCallTimeout :: duration

type_synonym grpc_headers = "(string, string) gomap"

datatype client_call =
    CallSendTraces "Trace list"
  | CallSendMetrics "Metric list"
  | CallSendLogs "LogRecord list"
  | CallSendCycleProto "PbMetric list option" "PbSpan list option" "PbLog list option"
  | ExportTraces grpc_headers duration "ResourceSpans option list"
  | ExportMetrics grpc_headers duration "ResourceMetrics option list"
  | ExportLogs grpc_headers duration "ResourceLogs option list"

datatype Forwarder = PathAForwarder PathAConfig | PathBForwarder string | PathCForwarder string

record shim_env =
  seFmtF :: "real \<Rightarrow> string"
  seClock :: "nat \<Rightarrow> gotime"
  seCallOk :: "nat \<Rightarrow> client_call \<Rightarrow> bool"
  seGunzip :: "bytes \<Rightarrow> bytes option"
  seTracesPB :: "bytes \<Rightarrow> ResourceSpans option list option"
  seTracesJSON :: "bytes \<Rightarrow> ResourceSpans option list option"
  seMetricsPB :: "bytes \<Rightarrow> ResourceMetrics option list option"
  seMetricsJSON :: "bytes \<Rightarrow> ResourceMetrics option list option"
  seLogsPB :: "bytes \<Rightarrow> ResourceLogs option list option"
  seLogsJSON :: "bytes \<Rightarrow> ResourceLogs option list option"

definition or_default :: "string \<Rightarrow> string" where
  "or_default tenantID = (if tenantID = [] then ''default'' else tenantID)"

text \<open>The constructors. A nil client is \<open>False\<close>; \<open>dial\<close> is the outcome of \<open>grpc.DialContext\<close>.\<close>

definition NewPathAForwarder :: "(string \<Rightarrow> bool) \<Rightarrow> PathAConfig \<Rightarrow> string + Forwarder" where
  "NewPathAForwarder dial cfg =
     (if paTarget cfg = [] then Inl ''otlpshim/pathA: Target is required (e.g. core:4317)''
      else
        let cfg = (if paDialTimeout cfg \<le> 0 then cfg\<lparr>paDialTimeout := 5 * second\<rparr> else cfg);
            cfg = (if paCallTimeout cfg \<le> 0 then cfg\<lparr>paCallTimeout := 10 * second\<rparr> else cfg);
            cfg = cfg\<lparr>paTenantID := or_default (paTenantID cfg)\<rparr>
        in if dial (paTarget cfg) then Inr (PathAForwarder cfg)
           else Inl (''otlpshim/pathA: dial '' @ paTarget cfg))"

definition NewPathBForwarder :: "bool \<Rightarrow> string \<Rightarrow> string + Forwarder" where
  "NewPathBForwarder client tenantID =
     (if \<not> client then Inl ''otlpshim/pathB: client is required'' else Inr (PathBForwarder (or_default tenantID)))"

definition NewPathCForwarder :: "bool \<Rightarrow> string \<Rightarrow> string + Forwarder" where
  "NewPathCForwarder client tenantID =
     (if \<not> client then Inl ''otlpshim/pathC: client is required'' else Inr (PathCForwarder (or_default tenantID)))"

definition applyMetadata :: "PathAConfig \<Rightarrow> grpc_headers" where
  "applyMetadata cfg = (
     let md = AList.update ''x-tenant'' (paTenantID cfg) [];
         md = (if paAPIKey cfg \<noteq> [] then AList.update ''x-api-key'' (paAPIKey cfg) md else md)
     in if paAgentToken cfg \<noteq> [] then AList.update ''x-agent-token'' (paAgentToken cfg) md else md)"

definition pathA_ForwardTraces :: "PathAConfig \<Rightarrow> ResourceSpans option list \<Rightarrow> client_call option" where
  "pathA_ForwardTraces cfg req = (if length req = 0 then None
     else Some (ExportTraces (applyMetadata cfg) (paCallTimeout cfg) req))"

definition pathA_ForwardMetrics :: "PathAConfig \<Rightarrow> ResourceMetrics option list \<Rightarrow> client_call option" where
  "pathA_ForwardMetrics cfg req = (if length req = 0 then None
     else Some (ExportMetrics (applyMetadata cfg) (paCallTimeout cfg) req))"

definition pathA_ForwardLogs :: "PathAConfig \<Rightarrow> ResourceLogs option list \<Rightarrow> client_call option" where
  "pathA_ForwardLogs cfg req = (if length req = 0 then None
     else Some (ExportLogs (applyMetadata cfg) (paCallTimeout cfg) req))"

text \<open>Path B sends the records unless there are none.\<close>

definition call_unless_empty :: "('a list \<Rightarrow> client_call) \<Rightarrow> 'a list option \<Rightarrow> client_call option option" where
  "call_unless_empty call rows = map_option (\<lambda>records. if length records = 0 then None else Some (call records)) rows"

definition pathB_ForwardTraces :: "shim_env \<Rightarrow> string \<Rightarrow> ResourceSpans option list \<Rightarrow> client_call option option" where
  "pathB_ForwardTraces e tenantID req =
     call_unless_empty CallSendTraces (TranslateTraces (seFmtF e) req tenantID)"

definition pathB_ForwardMetrics :: "shim_env \<Rightarrow> string \<Rightarrow> ResourceMetrics option list \<Rightarrow> client_call option option" where
  "pathB_ForwardMetrics e tenantID req =
     call_unless_empty CallSendMetrics (TranslateMetrics (seFmtF e) (seClock e) req tenantID)"

definition pathB_ForwardLogs :: "shim_env \<Rightarrow> string \<Rightarrow> ResourceLogs option list \<Rightarrow> client_call option option" where
  "pathB_ForwardLogs e tenantID req =
     call_unless_empty CallSendLogs (TranslateLogs (seFmtF e) (seClock e) req tenantID)"

definition pathC_ForwardTraces :: "shim_env \<Rightarrow> string \<Rightarrow> ResourceSpans option list \<Rightarrow> client_call option option" where
  "pathC_ForwardTraces e tenantID req = map_option
     (\<lambda>batch. case batch of None \<Rightarrow> None | Some b \<Rightarrow> Some (CallSendCycleProto None (Some b) None))
     (TranslateTracesProto (seFmtF e) (Some req) tenantID)"

definition pathC_ForwardMetrics :: "shim_env \<Rightarrow> string \<Rightarrow> ResourceMetrics option list \<Rightarrow> client_call option option" where
  "pathC_ForwardMetrics e tenantID req = map_option
     (\<lambda>batch. case batch of None \<Rightarrow> None | Some b \<Rightarrow> Some (CallSendCycleProto (Some b) None None))
     (TranslateMetricsProto (seFmtF e) (seClock e) (Some req) tenantID)"

definition pathC_ForwardLogs :: "shim_env \<Rightarrow> string \<Rightarrow> ResourceLogs option list \<Rightarrow> client_call option option" where
  "pathC_ForwardLogs e tenantID req = map_option
     (\<lambda>batch. case batch of None \<Rightarrow> None | Some b \<Rightarrow> Some (CallSendCycleProto None None (Some b)))
     (TranslateLogsProto (seFmtF e) (seClock e) (Some req) tenantID)"

text \<open>The dynamic dispatch of the interface \<open>Forwarder\<close>.\<close>

definition ForwardTraces :: "shim_env \<Rightarrow> Forwarder \<Rightarrow> ResourceSpans option list \<Rightarrow> client_call option option" where
  "ForwardTraces e f req = (case f of PathAForwarder cfg \<Rightarrow> Some (pathA_ForwardTraces cfg req)
     | PathBForwarder t \<Rightarrow> pathB_ForwardTraces e t req | PathCForwarder t \<Rightarrow> pathC_ForwardTraces e t req)"

definition ForwardMetrics :: "shim_env \<Rightarrow> Forwarder \<Rightarrow> ResourceMetrics option list \<Rightarrow> client_call option option" where
  "ForwardMetrics e f req = (case f of PathAForwarder cfg \<Rightarrow> Some (pathA_ForwardMetrics cfg req)
     | PathBForwarder t \<Rightarrow> pathB_ForwardMetrics e t req | PathCForwarder t \<Rightarrow> pathC_ForwardMetrics e t req)"

definition ForwardLogs :: "shim_env \<Rightarrow> Forwarder \<Rightarrow> ResourceLogs option list \<Rightarrow> client_call option option" where
  "ForwardLogs e f req = (case f of PathAForwarder cfg \<Rightarrow> Some (pathA_ForwardLogs cfg req)
     | PathBForwarder t \<Rightarrow> pathB_ForwardLogs e t req | PathCForwarder t \<Rightarrow> pathC_ForwardLogs e t req)"

definition Kind :: "Forwarder \<Rightarrow> string" where
  "Kind f = (case f of PathAForwarder _ \<Rightarrow> ''pathA'' | PathBForwarder _ \<Rightarrow> ''pathB'' | PathCForwarder _ \<Rightarrow> ''pathC'')"

subsection \<open>The shim\<close>

record shim_Config =
  shBind :: string
  shHTTPPort :: int
  shGRPCPort :: int
  shTenantID :: string

record Shim =
  shCfg :: shim_Config
  shFwd :: Forwarder
  shHttpSrv :: bool
  shGrpcSrv :: bool
  shHttpOpen :: bool
  shGrpcOpen :: bool
  shFwdClosed :: bool
  tracesIn :: u64
  metricsIn :: u64
  logsIn :: u64
  fwdErrs :: u64
  shStarted :: bool
  shStopped :: bool
  shCalls :: "client_call list"

definition shim_New :: "shim_Config \<Rightarrow> Forwarder option \<Rightarrow> string + Shim" where
  "shim_New cfg fwd = (case fwd of None \<Rightarrow> Inl ''otlpshim: forwarder is required''
     | Some f \<Rightarrow>
       let cfg = (if shBind cfg = [] then cfg\<lparr>shBind := ''127.0.0.1''\<rparr> else cfg);
           cfg = (if shTenantID cfg = [] then cfg\<lparr>shTenantID := ''default''\<rparr> else cfg)
       in Inr \<lparr>shCfg = cfg, shFwd = f, shHttpSrv = False, shGrpcSrv = False, shHttpOpen = False, shGrpcOpen = False,
               shFwdClosed = False, tracesIn = 0, metricsIn = 0,
               logsIn = 0, fwdErrs = 0, shStarted = False, shStopped = False, shCalls = []\<rparr>)"

definition countSpans :: "ResourceSpans option list \<Rightarrow> nat" where
  "countSpans req = sum_list (map (\<lambda>rs. sum_list (map (\<lambda>ss. length (case ss of None \<Rightarrow> [] | Some ss \<Rightarrow> ssSpans ss))
     (case rs of None \<Rightarrow> [] | Some rs \<Rightarrow> rsScopeSpans rs))) req)"

definition countDataPoints :: "ResourceMetrics option list \<Rightarrow> nat" where
  "countDataPoints req = sum_list (map (\<lambda>rm. sum_list (map (\<lambda>sm. length (case sm of None \<Rightarrow> [] | Some ms \<Rightarrow> ms))
     (case rm of None \<Rightarrow> [] | Some rm \<Rightarrow> rmScopeMetrics rm))) req)"

definition countLogs :: "ResourceLogs option list \<Rightarrow> nat" where
  "countLogs req = sum_list (map (\<lambda>rl. sum_list (map (\<lambda>sl. length (case sl of None \<Rightarrow> [] | Some ls \<Rightarrow> ls))
     (case rl of None \<Rightarrow> [] | Some rl \<Rightarrow> rlScopeLogs rl))) req)"

text \<open>The client call of a forwarder and the error counter.\<close>

definition forward :: "shim_env \<Rightarrow> client_call option option \<Rightarrow> Shim \<Rightarrow> Shim option" where
  "forward e made s = map_option (\<lambda>call. case call of
       None \<Rightarrow> s
     | Some c \<Rightarrow>
         let s' = s\<lparr>shCalls := shCalls s @ [c]\<rparr>
         in if seCallOk e (length (shCalls s)) c then s' else s'\<lparr>fwdErrs := fwdErrs s + 1\<rparr>) made"

definition recvTraces :: "shim_env \<Rightarrow> ResourceSpans option list option \<Rightarrow> Shim \<Rightarrow> Shim option" where
  "recvTraces e req s = (case req of None \<Rightarrow> Some s | Some r \<Rightarrow>
     forward e (ForwardTraces e (shFwd s) r) (s\<lparr>tracesIn := tracesIn s + of_nat (countSpans r)\<rparr>))"

definition recvMetrics :: "shim_env \<Rightarrow> ResourceMetrics option list option \<Rightarrow> Shim \<Rightarrow> Shim option" where
  "recvMetrics e req s = (case req of None \<Rightarrow> Some s | Some r \<Rightarrow>
     forward e (ForwardMetrics e (shFwd s) r) (s\<lparr>metricsIn := metricsIn s + of_nat (countDataPoints r)\<rparr>))"

definition recvLogs :: "shim_env \<Rightarrow> ResourceLogs option list option \<Rightarrow> Shim \<Rightarrow> Shim option" where
  "recvLogs e req s = (case req of None \<Rightarrow> Some s | Some r \<Rightarrow>
     forward e (ForwardLogs e (shFwd s) r) (s\<lparr>logsIn := logsIn s + of_nat (countLogs r)\<rparr>))"

text \<open>Starting a listener fails with the error of \<open>net.Listen\<close> or opens it. \<open>Start\<close> runs once: it tries
  HTTP first and gives up at the first error, leaving what is already open.\<close>

definition listen_addr :: "string \<Rightarrow> int \<Rightarrow> string" where
  "listen_addr host port = host @ '':'' @ format_int port"

definition startHTTP :: "(string \<Rightarrow> string option) \<Rightarrow> string \<Rightarrow> int \<Rightarrow> string option" where
  "startHTTP listenErr host port = (case listenErr (listen_addr host port) of
     Some e \<Rightarrow> Some (''listen '' @ listen_addr host port @ '': '' @ e)
   | None \<Rightarrow> None)"

definition startGRPC :: "(string \<Rightarrow> string option) \<Rightarrow> string \<Rightarrow> int \<Rightarrow> string option" where
  "startGRPC listenErr host port = (case listenErr (listen_addr host port) of
     Some e \<Rightarrow> Some (''listen '' @ listen_addr host port @ '': '' @ e)
   | None \<Rightarrow> None)"

definition start_http_part :: "(string \<Rightarrow> string option) \<Rightarrow> Shim \<Rightarrow> Shim \<times> string option" where
  "start_http_part listenErr s = (if shHTTPPort (shCfg s) > 0
     then case startHTTP listenErr (shBind (shCfg s)) (shHTTPPort (shCfg s)) of
         Some e \<Rightarrow> (s, Some (''otlpshim: http listener: '' @ e))
       | None \<Rightarrow> (s\<lparr>shHttpSrv := True, shHttpOpen := True\<rparr>, None)
     else (s, None))"

definition start_grpc_part :: "(string \<Rightarrow> string option) \<Rightarrow> Shim \<Rightarrow> Shim \<times> string option" where
  "start_grpc_part listenErr s = (if shGRPCPort (shCfg s) > 0
     then case startGRPC listenErr (shBind (shCfg s)) (shGRPCPort (shCfg s)) of
         Some e \<Rightarrow> (s, Some (''otlpshim: grpc listener: '' @ e))
       | None \<Rightarrow> (s\<lparr>shGrpcSrv := True, shGrpcOpen := True\<rparr>, None)
     else (s, None))"

definition shim_Start :: "(string \<Rightarrow> string option) \<Rightarrow> Shim \<Rightarrow> Shim \<times> string option" where
  "shim_Start listenErr s = (if shStarted s then (s, None)
     else case start_http_part listenErr (s\<lparr>shStarted := True\<rparr>) of
         (s, Some e) \<Rightarrow> (s, Some e)
       | (s, None) \<Rightarrow> start_grpc_part listenErr s)"

text \<open>Only path A owns what it closes.\<close>

definition fwd_Close :: "Shim \<Rightarrow> Shim" where
  "fwd_Close s = (case shFwd s of PathAForwarder _ \<Rightarrow> s\<lparr>shFwdClosed := True\<rparr> | _ \<Rightarrow> s)"

text \<open>\<open>Stop\<close> drains the listeners and closes the forwarder, once; the server pointers stay set.\<close>

definition shim_Stop :: "Shim \<Rightarrow> Shim" where
  "shim_Stop s = (if shStopped s then s
     else
       let s = s\<lparr>shStopped := True\<rparr>;
           s = (if shHttpSrv s then s\<lparr>shHttpOpen := False\<rparr> else s);
           s = (if shGrpcSrv s then s\<lparr>shGrpcOpen := False\<rparr> else s)
       in fwd_Close s)"

definition shim_Stats :: "Shim \<Rightarrow> (string \<times> json) list" where
  "shim_Stats s = [(''transport'', JStr (Kind (shFwd s))), (''traces_in'', JNum (real (unat (tracesIn s)))),
     (''metrics_in'', JNum (real (unat (metricsIn s)))), (''logs_in'', JNum (real (unat (logsIn s)))),
     (''forward_errors'', JNum (real (unat (fwdErrs s))))]"

definition transportInfo :: "Shim \<Rightarrow> (string \<times> json) list" where
  "transportInfo s = (let c = shCfg s in
     [(''transport'', JStr (Kind (shFwd s))), (''tenant'', JStr (shTenantID c)), (''bind'', JStr (shBind c)),
      (''http_port'', JNum (of_int (shHTTPPort c))), (''grpc_port'', JNum (of_int (shGRPCPort c))),
      (''otlp_http_url'', JStr (''http://'' @ shBind c @ '':'' @ format_int (shHTTPPort c))),
      (''otlp_grpc_addr'', JStr (shBind c @ '':'' @ format_int (shGRPCPort c)))])"

subsection \<open>HTTP\<close>

definition maxBodyBytes :: nat where "maxBodyBytes = 16 * 2 ^ 20"

record http_request =
  rqMethod :: string
  rqContentType :: string
  rqContentEncoding :: string
  rqBody :: bytes

record http_response =
  rsStatus :: nat
  rsTransport :: "string option"

text \<open>The size limit applies to the bytes read from the connection, before decompression.\<close>

definition readBody :: "shim_env \<Rightarrow> http_request \<Rightarrow> bytes option" where
  "readBody e r =
     (if length (rqBody r) > maxBodyBytes then None
      else if to_lower (rqContentEncoding r) = ''gzip'' then seGunzip e (rqBody r)
      else Some (rqBody r))"

definition unmarshalOTLP :: "(bytes \<Rightarrow> 'm option) \<Rightarrow> (bytes \<Rightarrow> 'm option) \<Rightarrow> string \<Rightarrow> bytes \<Rightarrow> 'm option" where
  "unmarshalOTLP json pb contentType body =
     (if take 16 (to_lower contentType) = ''application/json'' then json body else pb body)"

text \<open>A decoder gives the status and the shim afterwards; \<open>None\<close> is a panic.\<close>

definition decodeTraces :: "shim_env \<Rightarrow> string \<Rightarrow> bytes \<Rightarrow> Shim \<Rightarrow> (nat \<times> bool \<times> Shim) option" where
  "decodeTraces e contentType body s =
     (case unmarshalOTLP (seTracesJSON e) (seTracesPB e) contentType body of
        None \<Rightarrow> Some (400, False, s)
      | Some req \<Rightarrow> map_option (\<lambda>s. (200, True, s)) (recvTraces e (Some req) s))"

definition decodeMetrics :: "shim_env \<Rightarrow> string \<Rightarrow> bytes \<Rightarrow> Shim \<Rightarrow> (nat \<times> bool \<times> Shim) option" where
  "decodeMetrics e contentType body s =
     (case unmarshalOTLP (seMetricsJSON e) (seMetricsPB e) contentType body of
        None \<Rightarrow> Some (400, False, s)
      | Some req \<Rightarrow> map_option (\<lambda>s. (200, True, s)) (recvMetrics e (Some req) s))"

definition decodeLogs :: "shim_env \<Rightarrow> string \<Rightarrow> bytes \<Rightarrow> Shim \<Rightarrow> (nat \<times> bool \<times> Shim) option" where
  "decodeLogs e contentType body s =
     (case unmarshalOTLP (seLogsJSON e) (seLogsPB e) contentType body of
        None \<Rightarrow> Some (400, False, s)
      | Some req \<Rightarrow> map_option (\<lambda>s. (200, True, s)) (recvLogs e (Some req) s))"

definition makeOTLPHandler ::
  "shim_env \<Rightarrow> (string \<Rightarrow> bytes \<Rightarrow> Shim \<Rightarrow> (nat \<times> bool \<times> Shim) option) \<Rightarrow> http_request \<Rightarrow> Shim
   \<Rightarrow> (http_response \<times> Shim) option" where
  "makeOTLPHandler e dec r s =
     (if rqMethod r \<noteq> ''POST'' then Some (\<lparr>rsStatus = 405, rsTransport = None\<rparr>, s)
      else case readBody e r of
        None \<Rightarrow> Some (\<lparr>rsStatus = 400, rsTransport = None\<rparr>, s)
      | Some body \<Rightarrow>
          map_option (\<lambda>(status, ok, s). if \<not> ok then (\<lparr>rsStatus = status, rsTransport = None\<rparr>, s)
              else (\<lparr>rsStatus = 200, rsTransport = Some (Kind (shFwd s))\<rparr>, s))
            (dec (rqContentType r) body s))"

text \<open>The routes of the HTTP listener. The two status routes answer any method with JSON.\<close>

datatype mux_response =
    OtlpResponse http_response
  | PlainResponse nat string
  | JsonResponse string json
  | NotFound

definition serveHTTP ::
  "shim_env \<Rightarrow> string \<Rightarrow> http_request \<Rightarrow> Shim \<Rightarrow> (mux_response \<times> Shim) option" where
  "serveHTTP e path r s =
     (if path = ''/v1/traces'' then map_option (apfst OtlpResponse) (makeOTLPHandler e (decodeTraces e) r s)
      else if path = ''/v1/metrics'' then map_option (apfst OtlpResponse) (makeOTLPHandler e (decodeMetrics e) r s)
      else if path = ''/v1/logs'' then map_option (apfst OtlpResponse) (makeOTLPHandler e (decodeLogs e) r s)
      else if path = ''/healthz'' then Some (PlainResponse 200 ''ok'', s)
      else if path = ''/eo/transport'' then Some (JsonResponse (Kind (shFwd s)) (JObj (transportInfo s)), s)
      else if path = ''/eo/stats'' then Some (JsonResponse (Kind (shFwd s)) (JObj (shim_Stats s)), s)
      else Some (NotFound, s))"

subsection \<open>gRPC\<close>

text \<open>The service methods answer every request with success.\<close>

definition export_traces :: "shim_env \<Rightarrow> ResourceSpans option list option \<Rightarrow> Shim \<Rightarrow> (bool \<times> Shim) option" where
  "export_traces e req s = map_option (\<lambda>s. (True, s)) (recvTraces e req s)"

definition export_metrics :: "shim_env \<Rightarrow> ResourceMetrics option list option \<Rightarrow> Shim \<Rightarrow> (bool \<times> Shim) option" where
  "export_metrics e req s = map_option (\<lambda>s. (True, s)) (recvMetrics e req s)"

definition export_logs :: "shim_env \<Rightarrow> ResourceLogs option list option \<Rightarrow> Shim \<Rightarrow> (bool \<times> Shim) option" where
  "export_logs e req s = map_option (\<lambda>s. (True, s)) (recvLogs e req s)"

subsection \<open>What a forwarding path promises\<close>

text \<open>The contract of one signal on one path: the forwarder panics, stays silent or makes a call
  exactly as the translation panics, is empty or has rows, and a call delivers these rows.\<close>

locale signal_path =
  fixes translate :: "'req \<Rightarrow> 'row list option"
    and fwd :: "'req \<Rightarrow> client_call option option"
    and delivered :: "client_call \<Rightarrow> 'row list"
  assumes fwd_panics: "fwd req = None \<longleftrightarrow> translate req = None"
    and fwd_silent: "fwd req = Some None \<longleftrightarrow> translate req = Some []"
    and fwd_delivers: "fwd req = Some (Some c) \<Longrightarrow> translate req = Some (delivered c)"
begin

lemma forward_delivers:
  assumes "translate req = Some rows"
  shows "\<exists>s'. forward e (fwd req) s = Some s' \<and> tracesIn s' = tracesIn s \<and> metricsIn s' = metricsIn s
    \<and> logsIn s' = logsIn s \<and> (\<exists>calls. shCalls s' = shCalls s @ calls \<and> concat (map delivered calls) = rows
        \<and> length calls = (if rows = [] then 0 else 1))"
proof (cases "fwd req")
  case None
  then show ?thesis using fwd_panics assms by simp
next
  case (Some call)
  then show ?thesis
    using assms fwd_silent [of req] fwd_delivers [of req]
    by (cases call) (auto simp: forward_def Let_def)
qed

end

definition call_traces :: "string \<Rightarrow> client_call \<Rightarrow> Trace list" where
  "call_traces t c = (case c of CallSendTraces rows \<Rightarrow> rows
     | CallSendCycleProto m b l \<Rightarrow> stored protoTracesToStorage t b | _ \<Rightarrow> [])"

definition call_metrics :: "string \<Rightarrow> client_call \<Rightarrow> Metric list" where
  "call_metrics t c = (case c of CallSendMetrics rows \<Rightarrow> rows
     | CallSendCycleProto m b l \<Rightarrow> stored protoMetricsToStorage t m | _ \<Rightarrow> [])"

definition call_logs :: "string \<Rightarrow> client_call \<Rightarrow> LogRecord list" where
  "call_logs t c = (case c of CallSendLogs rows \<Rightarrow> rows
     | CallSendCycleProto m b l \<Rightarrow> stored protoLogsToStorage t l | _ \<Rightarrow> [])"

text \<open>A path C translation never yields an empty batch.\<close>

lemma batch_nonempty:
  "TranslateTracesProto f req t \<noteq> Some (Some [])" "TranslateMetricsProto f n req' t \<noteq> Some (Some [])"
  "TranslateLogsProto f n req'' t \<noteq> Some (Some [])"
  by (auto simp: TranslateTracesProto_def TranslateMetricsProto_def TranslateLogsProto_def batch_or_nil_def
      split: option.splits if_splits)

lemma storage_empty:
  "protoTracesToStorage b t = [] \<longleftrightarrow> b = []" "protoMetricsToStorage c t = [] \<longleftrightarrow> c = []"
  "protoLogsToStorage d t = [] \<longleftrightarrow> d = []"
  by (simp_all add: protoTracesToStorage_def protoMetricsToStorage_def protoLogsToStorage_def)

lemma proto_path:
  assumes "map_option (stored conv t) batch = rows" "batch \<noteq> Some (Some [])" "\<And>b. conv b t = [] \<longleftrightarrow> b = []"
    and "made = map_option (\<lambda>b. case b of None \<Rightarrow> None | Some b \<Rightarrow> Some (call b)) batch"
  shows "made = None \<longleftrightarrow> rows = None" "made = Some None \<longleftrightarrow> rows = Some []"
    "made = Some (Some c) \<Longrightarrow> \<exists>b. c = call b \<and> rows = Some (conv b t)"
  using assms(1,2) unfolding assms(4) by (auto simp: stored_def assms(3) split: option.splits)

interpretation b_traces: signal_path "\<lambda>req. TranslateTraces (seFmtF e) req t" "pathB_ForwardTraces e t" "call_traces t"
  for e t
  by unfold_locales (auto simp: pathB_ForwardTraces_def call_unless_empty_def call_traces_def split: if_splits)

interpretation b_metrics: signal_path "\<lambda>req. TranslateMetrics (seFmtF e) (seClock e) req t" "pathB_ForwardMetrics e t"
  "call_metrics t" for e t
  by unfold_locales (auto simp: pathB_ForwardMetrics_def call_unless_empty_def call_metrics_def split: if_splits)

interpretation b_logs: signal_path "\<lambda>req. TranslateLogs (seFmtF e) (seClock e) req t" "pathB_ForwardLogs e t"
  "call_logs t" for e t
  by unfold_locales (auto simp: pathB_ForwardLogs_def call_unless_empty_def call_logs_def split: if_splits)

interpretation c_traces: signal_path "\<lambda>req. TranslateTraces (seFmtF e) req t" "pathC_ForwardTraces e t" "call_traces t"
  for e t
  using proto_path [OF trace_paths_agree batch_nonempty(1) storage_empty(1) pathC_ForwardTraces_def]
  by unfold_locales (blast | force simp: call_traces_def stored_def)+

interpretation c_metrics: signal_path "\<lambda>req. TranslateMetrics (seFmtF e) (seClock e) req t" "pathC_ForwardMetrics e t"
  "call_metrics t" for e t
  using proto_path [OF metric_paths_agree batch_nonempty(2) storage_empty(2) pathC_ForwardMetrics_def]
  by unfold_locales (blast | force simp: call_metrics_def stored_def)+

interpretation c_logs: signal_path "\<lambda>req. TranslateLogs (seFmtF e) (seClock e) req t" "pathC_ForwardLogs e t"
  "call_logs t" for e t
  using proto_path [OF log_paths_agree batch_nonempty(3) storage_empty(3) pathC_ForwardLogs_def]
  by unfold_locales (blast | force simp: call_logs_def stored_def)+

subsection \<open>Delivery and errors\<close>

text \<open>Property C28. Whichever AgenticUDP path the shim is configured with, an OTLP request that
  translates is handed to the client in at most one call, none for an empty translation, and
  the rows the core stores for this call are exactly the translated rows for the forwarder's
  tenant; the inbound counter grows by the size of the request. This holds for traces,
  metrics and logs.\<close>

theorem shim_delivers_rows:
  assumes "shFwd s = PathBForwarder t \<or> shFwd s = PathCForwarder t"
    and "TranslateTraces (seFmtF e) rss t = Some trows"
    and "TranslateMetrics (seFmtF e) (seClock e) rms t = Some mrows"
    and "TranslateLogs (seFmtF e) (seClock e) rls t = Some lrows"
  shows "(\<exists>s' calls. recvTraces e (Some rss) s = Some s' \<and> shCalls s' = shCalls s @ calls
      \<and> concat (map (call_traces t) calls) = trows \<and> length calls = (if trows = [] then 0 else 1)
      \<and> tracesIn s' = tracesIn s + of_nat (countSpans rss))
    \<and> (\<exists>s' calls. recvMetrics e (Some rms) s = Some s' \<and> shCalls s' = shCalls s @ calls
      \<and> concat (map (call_metrics t) calls) = mrows \<and> length calls = (if mrows = [] then 0 else 1)
      \<and> metricsIn s' = metricsIn s + of_nat (countDataPoints rms))
    \<and> (\<exists>s' calls. recvLogs e (Some rls) s = Some s' \<and> shCalls s' = shCalls s @ calls
      \<and> concat (map (call_logs t) calls) = lrows \<and> length calls = (if lrows = [] then 0 else 1)
      \<and> logsIn s' = logsIn s + of_nat (countLogs rls))"
proof (intro conjI)
  show "\<exists>s' calls. recvTraces e (Some rss) s = Some s' \<and> shCalls s' = shCalls s @ calls
      \<and> concat (map (call_traces t) calls) = trows \<and> length calls = (if trows = [] then 0 else 1)
      \<and> tracesIn s' = tracesIn s + of_nat (countSpans rss)"
    using assms(1) b_traces.forward_delivers [OF assms(2), of e] c_traces.forward_delivers [OF assms(2), of e]
    by (elim disjE) (fastforce simp: recvTraces_def ForwardTraces_def)+
  show "\<exists>s' calls. recvMetrics e (Some rms) s = Some s' \<and> shCalls s' = shCalls s @ calls
      \<and> concat (map (call_metrics t) calls) = mrows \<and> length calls = (if mrows = [] then 0 else 1)
      \<and> metricsIn s' = metricsIn s + of_nat (countDataPoints rms)"
    using assms(1) b_metrics.forward_delivers [OF assms(3), of e] c_metrics.forward_delivers [OF assms(3), of e]
    by (elim disjE) (fastforce simp: recvMetrics_def ForwardMetrics_def)+
  show "\<exists>s' calls. recvLogs e (Some rls) s = Some s' \<and> shCalls s' = shCalls s @ calls
      \<and> concat (map (call_logs t) calls) = lrows \<and> length calls = (if lrows = [] then 0 else 1)
      \<and> logsIn s' = logsIn s + of_nat (countLogs rls)"
    using assms(1) b_logs.forward_delivers [OF assms(4), of e] c_logs.forward_delivers [OF assms(4), of e]
    by (elim disjE) (fastforce simp: recvLogs_def ForwardLogs_def)+
qed

definition sample_env :: shim_env where
  "sample_env = \<lparr>seFmtF = (\<lambda>_. []), seClock = (\<lambda>_. 0), seCallOk = (\<lambda>_ _. False), seGunzip = (\<lambda>_. None),
     seTracesPB = (\<lambda>_. Some sample_spans), seTracesJSON = (\<lambda>_. None), seMetricsPB = (\<lambda>_. None),
     seMetricsJSON = (\<lambda>_. None), seLogsPB = (\<lambda>_. None), seLogsJSON = (\<lambda>_. None)\<rparr>"

definition sample_shim :: Shim where
  "sample_shim = \<lparr>shCfg = \<lparr>shBind = ''127.0.0.1'', shHTTPPort = 4318, shGRPCPort = 4317, shTenantID = ''t''\<rparr>,
     shFwd = PathCForwarder ''t'', shHttpSrv = True, shGrpcSrv = True, shHttpOpen = True, shGrpcOpen = True, shFwdClosed = False, tracesIn = 0, metricsIn = 0, logsIn = 0,
     fwdErrs = 0, shStarted = True, shStopped = False, shCalls = []\<rparr>"

lemma sample_translation:
  "\<exists>rows. TranslateTraces (seFmtF sample_env) sample_spans ''t'' = Some rows \<and> length rows = 1"
  "TranslateMetrics (seFmtF sample_env) (seClock sample_env) [] ''t'' = Some []"
  "TranslateLogs (seFmtF sample_env) (seClock sample_env) [] ''t'' = Some []"
proof -
  have "spans_ok sample_spans" by (auto simp: spans_ok_def sample_spans_def sample_span_def attrs_ok_def)
  then obtain rows where rows: "TranslateTraces (seFmtF sample_env) sample_spans ''t'' = Some rows"
    using TranslateTraces_total by blast
  have "length (map row_key rows) = length (map span_key (spans_of sample_spans))"
    using trace_rows_keys [OF rows] by simp
  then have "length rows = 1" by (simp add: spans_of_def non_nil_def sample_spans_def)
  with rows show "\<exists>rows. TranslateTraces (seFmtF sample_env) sample_spans ''t'' = Some rows \<and> length rows = 1"
    by blast
qed (simp_all add: TranslateMetrics_def TranslateLogs_def)

theorem shim_delivers_rows_witness:
  "\<exists>s' calls. recvTraces sample_env (Some sample_spans) sample_shim = Some s' \<and> shCalls s' = calls
    \<and> length (concat (map (call_traces ''t'') calls)) = 1 \<and> length calls = 1"
proof -
  obtain rows where rows: "TranslateTraces (seFmtF sample_env) sample_spans ''t'' = Some rows" "length rows = 1"
    using sample_translation(1) by blast
  have f: "shFwd sample_shim = PathBForwarder ''t'' \<or> shFwd sample_shim = PathCForwarder ''t''"
    by (simp add: sample_shim_def)
  have "rows \<noteq> []" "shCalls sample_shim = []" using rows(2) by (auto simp: sample_shim_def)
  then show ?thesis
    using shim_delivers_rows [OF f rows(1) sample_translation(2,3), THEN conjunct1] rows(2)
    by (elim exE conjE) simp
qed

lemma failed_forward:
  assumes "ForwardTraces e (shFwd s) req = Some (Some c)" "\<not> seCallOk e (length (shCalls s)) c"
  shows "recvTraces e (Some req) s = Some (s\<lparr>tracesIn := tracesIn s + of_nat (countSpans req),
    shCalls := shCalls s @ [c], fwdErrs := fwdErrs s + 1\<rparr>)"
  using assms by (simp add: recvTraces_def forward_def Let_def)

text \<open>A forwarding error is hidden from the application: when the client call for a
  decoded trace request fails, the HTTP handler still answers 200 with the transport header
  and the gRPC method succeeds; only the error counter tells. An exporter that retries on
  errors does not retry.\<close>

theorem forward_error_hidden:
  assumes "rqMethod r = ''POST''" "readBody e r = Some body"
    and "unmarshalOTLP (seTracesJSON e) (seTracesPB e) (rqContentType r) body = Some req"
    and "ForwardTraces e (shFwd s) req = Some (Some c)" "\<not> seCallOk e (length (shCalls s)) c"
  shows "\<exists>s'. makeOTLPHandler e (decodeTraces e) r s = Some (\<lparr>rsStatus = 200, rsTransport = Some (Kind (shFwd s))\<rparr>, s')
    \<and> export_traces e (Some req) s = Some (True, s') \<and> fwdErrs s' = fwdErrs s + 1 \<and> shFwd s' = shFwd s"
  using assms by (simp add: makeOTLPHandler_def decodeTraces_def export_traces_def failed_forward)

theorem forward_error_hidden_witness:
  "\<exists>s'. makeOTLPHandler sample_env (decodeTraces sample_env)
      \<lparr>rqMethod = ''POST'', rqContentType = ''application/x-protobuf'', rqContentEncoding = [], rqBody = [10]\<rparr> sample_shim
    = Some (\<lparr>rsStatus = 200, rsTransport = Some ''pathC''\<rparr>, s') \<and> fwdErrs s' = 1"
proof -
  let ?r = "\<lparr>rqMethod = ''POST'', rqContentType = ''application/x-protobuf'', rqContentEncoding = [], rqBody = [10]\<rparr>"
  have r: "rqMethod ?r = ''POST''" "readBody sample_env ?r = Some [10]" "shFwd sample_shim = PathCForwarder ''t''"
    by (simp_all add: readBody_def maxBodyBytes_def to_lower_def sample_shim_def)
  have u: "unmarshalOTLP (seTracesJSON sample_env) (seTracesPB sample_env) (rqContentType ?r) [10] = Some sample_spans"
    by (simp add: unmarshalOTLP_def to_lower_def sample_env_def Let_def)
  obtain rows where "TranslateTraces (seFmtF sample_env) sample_spans ''t'' = Some rows" "length rows = 1"
    using sample_translation(1) by blast
  then obtain c where c: "ForwardTraces sample_env (shFwd sample_shim) sample_spans = Some (Some c)"
    using c_traces.fwd_panics [of sample_env "''t''" sample_spans] c_traces.fwd_silent [of sample_env "''t''" sample_spans]
    by (cases "pathC_ForwardTraces sample_env ''t'' sample_spans") (auto simp: ForwardTraces_def r(3))
  show ?thesis
    using forward_error_hidden [OF r(1,2) u c] by (auto simp: sample_env_def sample_shim_def Kind_def)
qed

subsection \<open>Starting and stopping\<close>

text \<open>After a successful start exactly the configured listeners are open, and after a stop none is.\<close>

lemma start_parts_ok:
  "start_http_part le s = (s', None) \<Longrightarrow> s' = (if shHTTPPort (shCfg s) > 0 then s\<lparr>shHttpSrv := True, shHttpOpen := True\<rparr> else s)"
  "start_grpc_part le s = (s', None) \<Longrightarrow> s' = (if shGRPCPort (shCfg s) > 0 then s\<lparr>shGrpcSrv := True, shGrpcOpen := True\<rparr> else s)"
  by (auto simp: start_http_part_def start_grpc_part_def split: if_splits option.splits)

lemma shim_Start_ok:
  assumes "shim_Start le s = (s', None)" "\<not> shStarted s"
  shows "shCfg s' = shCfg s \<and> shStopped s' = shStopped s
    \<and> shHttpOpen s' = (shHTTPPort (shCfg s) > 0 \<or> shHttpOpen s) \<and> shHttpSrv s' = (shHTTPPort (shCfg s) > 0 \<or> shHttpSrv s)
    \<and> shGrpcOpen s' = (shGRPCPort (shCfg s) > 0 \<or> shGrpcOpen s) \<and> shGrpcSrv s' = (shGRPCPort (shCfg s) > 0 \<or> shGrpcSrv s)"
proof -
  obtain s1 where "start_http_part le (s\<lparr>shStarted := True\<rparr>) = (s1, None)" "start_grpc_part le s1 = (s', None)"
    using assms by (auto simp: shim_Start_def split: prod.splits option.splits)
  from start_parts_ok(1) [OF this(1)] start_parts_ok(2) [OF this(2)] show ?thesis by simp
qed

lemma shim_Stop_fields:
  "shHttpOpen (shim_Stop s) = (shHttpOpen s \<and> (shStopped s \<or> \<not> shHttpSrv s))"
  "shGrpcOpen (shim_Stop s) = (shGrpcOpen s \<and> (shStopped s \<or> \<not> shGrpcSrv s))" "shStopped (shim_Stop s)"
  by (auto simp: shim_Stop_def fwd_Close_def Let_def split: Forwarder.split)

lemma shim_start_opens:
  assumes "shim_New cfg (Some f) = Inr s0" "shim_Start listenErr s0 = (s, None)"
  shows "shHttpOpen s = (shHTTPPort cfg > 0) \<and> shGrpcOpen s = (shGRPCPort cfg > 0)
    \<and> \<not> shHttpOpen (shim_Stop s) \<and> \<not> shGrpcOpen (shim_Stop s) \<and> shim_Stop (shim_Stop s) = shim_Stop s"
proof -
  have s0: "shHTTPPort (shCfg s0) = shHTTPPort cfg" "shGRPCPort (shCfg s0) = shGRPCPort cfg"
    "\<not> shHttpOpen s0" "\<not> shHttpSrv s0" "\<not> shGrpcOpen s0" "\<not> shGrpcSrv s0" "\<not> shStarted s0" "\<not> shStopped s0"
    using assms(1) by (auto simp: shim_New_def Let_def)
  have "shim_Stop (shim_Stop s) = shim_Stop s"
    using shim_Stop_fields(3) [of s] by (simp add: shim_Stop_def [of "shim_Stop s"])
  with shim_Start_ok [OF assms(2) s0(7)] s0 show ?thesis by (simp add: shim_Stop_fields)
qed

text \<open>A failed start is reported once: calling \<open>Start\<close> again reports success although nothing has
  been opened since.\<close>

lemma failed_start_reported_once:
  assumes "shim_Start listenErr s = (s', Some e)"
  shows "shim_Start listenErr' s' = (s', None)"
proof -
  have "shStarted s'"
    using assms by (auto simp: shim_Start_def start_http_part_def start_grpc_part_def
        split: if_splits option.splits prod.splits)
  then show ?thesis by (simp add: shim_Start_def)
qed

text \<open>The status routes change nothing.\<close>

lemma status_routes_read_only:
  assumes "path \<notin> {''/v1/traces'', ''/v1/metrics'', ''/v1/logs''}"
  shows "\<exists>resp. serveHTTP e path r s = Some (resp, s)"
  using assms by (simp add: serveHTTP_def)

end
