(* ===== verification/Lifecycle.thy ===== *)
theory Lifecycle
  imports Client_V3 Receiver Coalescer Otel_Receiver Dtls
begin

section \<open>Start-up and shutdown\<close>

text \<open>
  How the goroutines that the other theories treat as steps come into being and end: \<open>Connect\<close> of the
  two clients, \<open>Start\<close>, \<open>Stop\<close> and the read loops of the core receiver (raw and DTLS) and of the
  collector receiver, and the flush statistics logger. Goroutines are names; the answers of sockets
  are arguments. A read loop runs over the list of its turns, each with the state of the context before
  the read, the outcome of the read and the state of the context after it.

  The lemmas show that a loop does to the receiver exactly what the steps of a run do, and that it
  returns once the context is cancelled.
\<close>

subsection \<open>Clients\<close>

datatype client_loop = AckLoop | AckLoopV3 | KeepaliveLoop | RetransmitLoop | CongestionTunerLoop

definition started_loops :: "client_loop \<Rightarrow> Client \<Rightarrow> client_loop list" where
  "started_loops ack c = [ack, KeepaliveLoop, RetransmitLoop]
     @ (if congestionPredictor c \<noteq> None then [CongestionTunerLoop] else [])"

definition Connect ::
  "string option \<Rightarrow> string option \<Rightarrow> handshake_read \<Rightarrow> Client \<Rightarrow> (Client \<times> (err + client_loop list)) option" where
  "Connect dialErr writeErr rd c = do {
     (c, er) \<leftarrow> doHandshake dialErr writeErr rd c;
     Some (case er of Some e \<Rightarrow> (c, Inl e) | None \<Rightarrow> (c, Inr (started_loops AckLoop c))) }"

definition V3_Connect ::
  "string option \<Rightarrow> string option \<Rightarrow> handshake_read \<Rightarrow> ClientV3 \<Rightarrow> (ClientV3 \<times> (err + client_loop list)) option" where
  "V3_Connect dialErr writeErr rd cv = do {
     (c, er) \<leftarrow> doHandshake dialErr writeErr rd (base cv);
     let cv = cv\<lparr>base := c\<rparr>;
     Some (case er of Some e \<Rightarrow> (cv, Inl e) | None \<Rightarrow> (cv, Inr (started_loops AckLoopV3 c))) }"

definition V3_SetPipelineTaskHandler :: "ClientV3 \<Rightarrow> ClientV3" where
  "V3_SetPipelineTaskHandler cv = cv\<lparr>base := SetConfigHandler (Some PipelineHandler) (base cv)\<rparr>"

subsection \<open>The loops of a client\<close>

text \<open>A ticker loop \<open>for { select { case <-ctx.Done(): return; case <-ticker.C: ... } }\<close> runs over the list
  of the cases it selects: \<open>None\<close> is the cancelled context, \<open>Some\<close> a tick with its inputs. The second
  component of the result tells whether the loop has returned; running out of cases means that it waits
  in the next \<open>select\<close>. The acknowledgement loops look at the context before each read, and a read may
  fail (the inner \<open>None\<close>).\<close>

fun select_loop :: "('t \<Rightarrow> 's \<Rightarrow> 's) \<Rightarrow> 't option list \<Rightarrow> 's \<Rightarrow> 's \<times> bool" where
  "select_loop body [] s = (s, False)"
| "select_loop body (None # ts) s = (s, True)"
| "select_loop body (Some t # ts) s = select_loop body ts (body t s)"

definition keepaliveLoop :: "unit option list \<Rightarrow> Client \<Rightarrow> Client \<times> bool" where
  "keepaliveLoop = select_loop (\<lambda>_. keepaliveLoop_tick)"

definition retransmitLoop :: "(inflight_order \<times> gotime \<times> gotime) option list \<Rightarrow> Client \<Rightarrow> Client \<times> bool" where
  "retransmitLoop = select_loop (\<lambda>(rng, now, lossNow). runRetransmitTick rng now lossNow)"

definition congestionTunerLoop ::
  "(string \<Rightarrow> string) \<Rightarrow> gotime option list \<Rightarrow> Client \<Rightarrow> Client \<times> bool" where
  "congestionTunerLoop env ts c =
     (let ceiling = tuner_ceiling env c in select_loop (congestionTunerLoop_tick ceiling) ts c)"

definition ackLoop ::
  "(inflight_order \<times> gotime \<times> bytes) option option list \<Rightarrow> Client \<Rightarrow> Client \<times> bool" where
  "ackLoop = select_loop (\<lambda>rd c. case rd of None \<Rightarrow> c | Some (rng, now, d) \<Rightarrow> ackLoop_step rng now d c)"

definition ackLoopV3 ::
  "((nat \<Rightarrow> inflight_order) \<times> gotime \<times> bytes) option option list \<Rightarrow> Client \<Rightarrow> Client \<times> bool" where
  "ackLoopV3 = select_loop (\<lambda>rd c. case rd of None \<Rightarrow> c | Some (rngs, now, d) \<Rightarrow> ackLoopV3_step rngs now d c)"

subsection \<open>The core receiver\<close>

datatype rcv_goroutine = DedupGC | SessionGC | TraceRun | MetricRun | LogRun | FlushStatsLogger | CloseOnDone

datatype start_error = ListenUDPFailed string | DtlsFailed dtls_error

record core_server =
  csRcv :: Receiver
  csDtlsCfg :: "DTLSConfig option"
  csCancelSet :: bool
  csCtxDone :: bool
  csConnClosed :: bool
  csReadBuffer :: "int option"
  csListener :: bool
  csGoroutines :: "rcv_goroutine list"
  csBatchers :: "(traceCoalescer \<times> metricCoalescer \<times> logCoalescer) option"

definition SetDTLS :: "DTLSConfig option \<Rightarrow> core_server \<Rightarrow> core_server" where
  "SetDTLS cfg s = s\<lparr>csDtlsCfg := cfg\<rparr>"

text \<open>The answers of the sockets: \<open>net.ListenUDP\<close>, \<open>SetReadBuffer\<close> (true when it fails), and the
  opening of the DTLS listener.\<close>

record listen_env =
  leEnv :: "string \<Rightarrow> string"
  leListenErr :: "string option"
  leBufferErr :: "int \<Rightarrow> bool"
  leNewListener :: "DTLSConfig \<Rightarrow> dtls_error option"

definition open_raw :: "listen_env \<Rightarrow> core_server \<Rightarrow> core_server \<times> start_error option" where
  "open_raw le s = (case leListenErr le of
     Some e \<Rightarrow> (s, Some (ListenUDPFailed e))
   | None \<Rightarrow>
       let rcvbuf = envIntDefault (leEnv le) ''ENTROPYOPS_AGENTIC_UDP_RCVBUF_BYTES'' (16 * 1024 * 1024);
           s = (if rcvbuf > 0 \<and> \<not> leBufferErr le rcvbuf then s\<lparr>csReadBuffer := Some rcvbuf\<rparr> else s)
       in (s\<lparr>csRcv := (csRcv s)\<lparr>rConn := True\<rparr>\<rparr>, None))"

definition open_dtls :: "listen_env \<Rightarrow> DTLSConfig \<Rightarrow> core_server \<Rightarrow> core_server \<times> start_error option" where
  "open_dtls le cfg s = (case leNewListener le cfg of
     Some e \<Rightarrow> (s, Some (DtlsFailed e))
   | None \<Rightarrow> (s\<lparr>csListener := True, csGoroutines := csGoroutines s @ [CloseOnDone]\<rparr>, None))"

text \<open>The panic of an invalid coalescer setting is \<open>None\<close>. The loop that follows a successful start is
  \<open>raw_loop\<close> or \<open>accept_loop\<close> below.\<close>

definition core_Start :: "listen_env \<Rightarrow> core_server \<Rightarrow> (core_server \<times> start_error option) option" where
  "core_Start le s = do {
     let s = s\<lparr>csCancelSet := True, csGoroutines := [DedupGC, SessionGC]\<rparr>;
     (r, bs) \<leftarrow> startCoalescers (leEnv le) (csRcv s);
     let s = s\<lparr>csRcv := r, csBatchers := bs, csGoroutines := csGoroutines s
               @ (if bs = None then [] else [TraceRun, MetricRun, LogRun, FlushStatsLogger])\<rparr>;
     Some (case csDtlsCfg s of
         Some cfg \<Rightarrow> if dcMode cfg \<noteq> ''none'' then open_dtls le cfg s else open_raw le s
       | None \<Rightarrow> open_raw le s) }"

definition core_Stop :: "core_server \<Rightarrow> core_server" where
  "core_Stop s =
     (let s = (if csCancelSet s then s\<lparr>csCtxDone := True\<rparr> else s)
      in if rConn (csRcv s) then s\<lparr>csConnClosed := True\<rparr> else s)"

text \<open>The collectors of the duplicate table, with the fragments, and of the sessions.\<close>

definition dedupGC :: "gotime option list \<Rightarrow> Receiver \<Rightarrow> Receiver \<times> bool" where
  "dedupGC = select_loop dedupGC_tick"

definition sessionGC :: "gotime option list \<Rightarrow> Receiver \<Rightarrow> Receiver \<times> bool" where
  "sessionGC = select_loop sessionGC_tick"

text \<open>The read loops. The second component of a result tells whether the loop has returned; running
  out of turns means that it is waiting in the next one.\<close>

datatype rcv_read = ReadTimeout | ReadError | ReadPacket rcv_env bool bytes udpAddr

type_synonym rcv_turn = "bool \<times> rcv_read \<times> bool"

fun raw_loop :: "rcv_turn list \<Rightarrow> Receiver \<Rightarrow> (Receiver \<times> bool) option" where
  "raw_loop [] r = Some (r, False)"
| "raw_loop ((ctxDone, rd, ctxErr) # ts) r =
     (if ctxDone then Some (r, True)
      else case rd of
          ReadTimeout \<Rightarrow> raw_loop ts r
        | ReadError \<Rightarrow> if ctxErr then Some (r, True) else raw_loop ts r
        | ReadPacket e allowed d a \<Rightarrow> do { r \<leftarrow> receive_raw e allowed d a r; raw_loop ts r })"

fun dtls_loop :: "rcv_turn list \<Rightarrow> Receiver \<Rightarrow> (Receiver \<times> bool) option" where
  "dtls_loop [] r = Some (r, False)"
| "dtls_loop ((ctxDone, rd, _) # ts) r =
     (if ctxDone then Some (r, True)
      else case rd of
          ReadTimeout \<Rightarrow> dtls_loop ts r
        | ReadError \<Rightarrow> Some (r, True)
        | ReadPacket e allowed d a \<Rightarrow> do { r \<leftarrow> receive_dtls e allowed d a r; dtls_loop ts r })"

text \<open>The accept loop: a turn is a connection (\<open>Some\<close>) or an error with the state of the context; the
  result is the connections served and whether the loop has returned.\<close>

fun accept_loop :: "('conn option \<times> bool) list \<Rightarrow> 'conn list \<times> bool" where
  "accept_loop [] = ([], False)"
| "accept_loop ((Some conn, _) # ts) = (let (cs, ret) = accept_loop ts in (conn # cs, ret))"
| "accept_loop ((None, ctxErr) # ts) = (if ctxErr then ([], True) else accept_loop ts)"

subsection \<open>The collector receiver\<close>

record otel_server =
  osRcv :: otel_Receiver
  osConn :: bool
  osConnClosed :: bool
  osCancelSet :: bool
  osCtxDone :: bool
  osLoopRunning :: bool

datatype otel_start_error = OtelResolve string string | OtelListen string string

definition otel_Start :: "string option \<Rightarrow> string option \<Rightarrow> otel_server \<Rightarrow> otel_server \<times> otel_start_error option" where
  "otel_Start resolveErr listenErr s = (case resolveErr of
     Some e \<Rightarrow> (s, Some (OtelResolve (ocEndpoint (orCfg (osRcv s))) e))
   | None \<Rightarrow> (case listenErr of
       Some e \<Rightarrow> (s, Some (OtelListen (ocEndpoint (orCfg (osRcv s))) e))
     | None \<Rightarrow> (s\<lparr>osConn := True, osCancelSet := True, osLoopRunning := True\<rparr>, None)))"

definition otel_Stats :: "otel_Receiver \<Rightarrow> (string, int) gomap" where
  "otel_Stats r = [(''envelopes'', orEnvelopes r), (''dropped'', orDropped r)]"

text \<open>A turn of the loop reads a datagram (\<open>Some\<close>, with the time at which it is handled) or gets an
  error.\<close>

fun otel_loop ::
  "(bytes \<Rightarrow> JSONEnvelope option) \<Rightarrow> (lane \<Rightarrow> JSONEnvelope \<Rightarrow> bool) \<Rightarrow> (bool \<times> (gotime \<times> bytes) option \<times> bool) list
     \<Rightarrow> otel_Receiver \<Rightarrow> (otel_Receiver \<times> bool) option" where
  "otel_loop um cerr [] r = Some (r, False)"
| "otel_loop um cerr ((ctxDone, rd, ctxErr) # ts) r =
     (if ctxDone then Some (r, True)
      else case rd of
          None \<Rightarrow> if ctxErr then Some (r, True)
                  else do { r \<leftarrow> otel_loop_step um cerr 0 None r; otel_loop um cerr ts r }
        | Some (now, d) \<Rightarrow> do { r \<leftarrow> otel_loop_step um cerr now (Some d) r; otel_loop um cerr ts r })"

text \<open>\<open>Stop\<close> cancels and closes the socket, so that the pending read fails, and waits for the loop, which
  then sees the cancelled context: its last turn is \<open>(False, None, True)\<close>. When the loop is stuck in the
  handler of a datagram, \<open>Stop\<close> never returns: \<open>None\<close>.\<close>

definition otel_Stop :: "bool \<Rightarrow> otel_server \<Rightarrow> otel_server option" where
  "otel_Stop stuck s =
     (let s = (if osCancelSet s then s\<lparr>osCtxDone := True\<rparr> else s);
          s = (if osConn s then s\<lparr>osConnClosed := True\<rparr> else s)
      in if osLoopRunning s \<and> (stuck \<or> \<not> (osCtxDone s \<and> osConnClosed s)) then None
         else Some (s\<lparr>osLoopRunning := False\<rparr>))"

subsection \<open>The flush statistics logger\<close>

text \<open>The interval in nanoseconds; \<open>Some None\<close> when the logger is disabled, \<open>None\<close> for the panic of
  \<open>time.NewTicker\<close> when the product wraps to a value that is not positive.\<close>

definition flush_stats_interval :: "(string \<Rightarrow> string) \<Rightarrow> duration option option" where
  "flush_stats_interval env =
     (let intervalS = envIntDefault env ''ENTROPYOPS_AGENTIC_UDP_FLUSH_STATS_INTERVAL_S'' 10;
          d = i64 (intervalS * second)
      in if intervalS \<le> 0 then Some None else if d \<le> 0 then None else Some (Some d))"

definition prev_flushes :: "(string, int) gomap \<Rightarrow> string \<Rightarrow> int" where
  "prev_flushes prev sig = (case map_of prev sig of None \<Rightarrow> 0 | Some n \<Rightarrow> n)"

definition log_if_active ::
  "flushLatencyTracker \<Rightarrow> (string, int) gomap \<times> FlushStats list \<Rightarrow> (string, int) gomap \<times> FlushStats list" where
  "log_if_active t pl =
     (let (prev, lines) = pl; s = snapshot t
      in if fsFlushes s = prev_flushes prev (fsSignal s) then pl
         else (AList.update (fsSignal s) (fsFlushes s) prev, lines @ [s]))"

definition no_flushes_yet :: "(string, int) gomap" where
  "no_flushes_yet = [(''traces'', 0), (''metrics'', 0), (''logs'', 0)]"

text \<open>One tick over the three trackers: the new \<open>prev\<close> and the lines logged.\<close>

definition flush_stats_tick ::
  "flushLatencyTracker list \<Rightarrow> (string, int) gomap \<Rightarrow> (string, int) gomap \<times> FlushStats list" where
  "flush_stats_tick ts prev = fold log_if_active ts (prev, [])"

subsection \<open>Lemmas: connecting\<close>

lemma doHandshake_ok:
  assumes "doHandshake dialErr writeErr rd c = Some (c', None)"
  shows "established c' \<and> \<not> connNil c' \<and> wlog c' = wlog c @ [buildPacket pktHandshake 0 0 0 0 0 []]
    \<and> congestionPredictor c' = congestionPredictor c
    \<and> (\<exists>d. rd = ReadBytes d \<and> headerSize \<le> length d \<and> d ! 1 = pktHandshake)"
  using assms
  by (auto simp: doHandshake_def Let_def log_write_def nth_append split: if_splits option.splits handshake_read.splits)

text \<open>A client that reports a connection has received a handshake answer and runs its loops, the tuner
  exactly when a predictor was attached before; a failed connection starts none.\<close>

lemma connect_starts_loops:
  assumes "Connect dialErr writeErr rd c = Some (c', Inr ls)"
  shows "established c' \<and> ls = started_loops AckLoop c \<and> distinct ls
    \<and> (\<exists>d. rd = ReadBytes d \<and> headerSize \<le> length d \<and> d ! 1 = pktHandshake)"
proof -
  have "doHandshake dialErr writeErr rd c = Some (c', None)" "ls = started_loops AckLoop c'"
    using assms by (auto simp: Connect_def split: Option.bind_splits option.splits)
  with doHandshake_ok show ?thesis by (auto simp: started_loops_def)
qed

text \<open>A \<open>select\<close> loop folds its body over the cases up to the cancellation, and returns exactly when there
  is one.\<close>

fun until_done :: "'t option list \<Rightarrow> 't list" where
  "until_done [] = []"
| "until_done (None # ts) = []"
| "until_done (Some t # ts) = t # until_done ts"

lemma select_loop_eq: "select_loop body ts s = (fold body (until_done ts) s, None \<in> set ts)"
  by (induction body ts s rule: select_loop.induct) simp_all

lemma run_client_map:
  "(\<And>t c. body t c = client_step (ev t) c) \<Longrightarrow> fold body ts c = run_client (map ev ts) c"
  unfolding run_client_def by (induction ts arbitrary: c) simp_all

text \<open>What each loop of a client does to it is a session of the corresponding events, so that the
  interleavings of the loops with the callers are the runs of theory \<open>Client_V2\<close>.\<close>

lemma client_loops_are_sessions:
  "keepaliveLoop kts c = (run_client (map (\<lambda>_. KeepaliveTick) (until_done kts)) c, None \<in> set kts)"
  "retransmitLoop rts c
     = (run_client (map (\<lambda>(rng, now, lossNow). RetransmitTick rng now lossNow) (until_done rts)) c, None \<in> set rts)"
  "congestionTunerLoop env tts c
     = (run_client (map (TunerTick (tuner_ceiling env c)) (until_done tts)) c, None \<in> set tts)"
  by (simp_all add: keepaliveLoop_def retransmitLoop_def congestionTunerLoop_def select_loop_eq Let_def)
    (rule run_client_map, simp add: client_step_def split: prod.split)+

lemma ack_loops_are_sessions:
  "ackLoop ts c = (run_client (concat (map (\<lambda>rd. case rd of None \<Rightarrow> []
       | Some (rng, now, d) \<Rightarrow> [client_event.Receive rng now d]) (until_done ts))) c, None \<in> set ts)"
  "ackLoopV3 us c = (run_client (concat (map (\<lambda>rd. case rd of None \<Rightarrow> []
       | Some (rngs, now, d) \<Rightarrow> [ReceiveV3 rngs now d]) (until_done us))) c, None \<in> set us)"
proof -
  have "fold (\<lambda>rd c. case rd of None \<Rightarrow> c | Some (rng, now, d) \<Rightarrow> ackLoop_step rng now d c) xs c
      = run_client (concat (map (\<lambda>rd. case rd of None \<Rightarrow> [] | Some (rng, now, d) \<Rightarrow> [client_event.Receive rng now d]) xs)) c" for xs
    unfolding run_client_def
    by (induction xs arbitrary: c) (auto simp: client_step_def split: option.split)
  then show "ackLoop ts c = (run_client (concat (map (\<lambda>rd. case rd of None \<Rightarrow> []
       | Some (rng, now, d) \<Rightarrow> [client_event.Receive rng now d]) (until_done ts))) c, None \<in> set ts)"
    by (simp add: ackLoop_def select_loop_eq)
  have "fold (\<lambda>rd c. case rd of None \<Rightarrow> c | Some (rngs, now, d) \<Rightarrow> ackLoopV3_step rngs now d c) xs c
      = run_client (concat (map (\<lambda>rd. case rd of None \<Rightarrow> [] | Some (rngs, now, d) \<Rightarrow> [ReceiveV3 rngs now d]) xs)) c" for xs
    unfolding run_client_def
    by (induction xs arbitrary: c) (auto simp: client_step_def split: option.split)
  then show "ackLoopV3 us c = (run_client (concat (map (\<lambda>rd. case rd of None \<Rightarrow> []
       | Some (rngs, now, d) \<Rightarrow> [ReceiveV3 rngs now d]) (until_done us))) c, None \<in> set us)"
    by (simp add: ackLoopV3_def select_loop_eq)
qed

text \<open>The V3 client connects as the V2 client does, with its own acknowledgement loop.\<close>

lemma V3_Connect_eq:
  "V3_Connect dialErr writeErr rd cv = map_option
     (\<lambda>(c, res). (cv\<lparr>base := c\<rparr>, map_sum id (\<lambda>ls. AckLoopV3 # tl ls) res)) (Connect dialErr writeErr rd (base cv))"
  by (simp add: V3_Connect_def Connect_def started_loops_def Let_def split: Option.bind_split option.split)

subsection \<open>Lemmas: the core receiver\<close>

text \<open>What a raw read loop hands to the receiver before it returns.\<close>

fun raw_events :: "rcv_turn list \<Rightarrow> rcv_event list" where
  "raw_events [] = []"
| "raw_events ((ctxDone, rd, ctxErr) # ts) =
     (if ctxDone then []
      else case rd of
          ReadTimeout \<Rightarrow> raw_events ts
        | ReadError \<Rightarrow> if ctxErr then [] else raw_events ts
        | ReadPacket e allowed d a \<Rightarrow> Datagram e allowed d a # raw_events ts)"

lemma raw_loop_is_run: "map_option fst (raw_loop ts r) = rcv_run (raw_events ts) r"
  by (induction ts r rule: raw_loop.induct)
    (auto split: rcv_read.split Option.bind_split)

text \<open>The collectors are runs of their ticks.\<close>

lemma collectors_are_runs:
  "map_option (\<lambda>r. (r, None \<in> set ts)) (rcv_run (map DedupTick (until_done ts)) r) = Some (dedupGC ts r)"
  "map_option (\<lambda>r. (r, None \<in> set us)) (rcv_run (map SessionTick (until_done us)) r) = Some (sessionGC us r)"
proof -
  have "rcv_run (map DedupTick xs) r = Some (fold dedupGC_tick xs r)"
    "rcv_run (map SessionTick xs) r = Some (fold sessionGC_tick xs r)" for xs
    by (induction xs arbitrary: r) simp_all
  then show "map_option (\<lambda>r. (r, None \<in> set ts)) (rcv_run (map DedupTick (until_done ts)) r) = Some (dedupGC ts r)"
    "map_option (\<lambda>r. (r, None \<in> set us)) (rcv_run (map SessionTick (until_done us)) r) = Some (sessionGC us r)"
    by (simp_all add: dedupGC_def sessionGC_def select_loop_eq)
qed

fun turn_ok :: "rcv_turn \<Rightarrow> bool" where
  "turn_ok (_, ReadPacket e allowed d a, _) = rcv_event_ok (Datagram e allowed d a)"
| "turn_ok _ = True"

text \<open>Once the context is cancelled the loop returns at its next turn, whatever was received before.\<close>

lemma raw_loop_returns:
  assumes "rcv_ok r" "\<forall>t \<in> set ts. turn_ok t"
  shows "\<exists>r'. raw_loop (ts @ [(True, rd, er)]) r = Some (r', True) \<and> rcv_ok r'"
  using assms
proof (induction ts arbitrary: r)
  case (Cons t ts)
  obtain d0 rd0 e0 where t: "t = (d0, rd0, e0)" by (metis prod_cases3)
  have IH: "\<exists>r'. raw_loop (ts @ [(True, rd, er)]) q = Some (r', True) \<and> rcv_ok r'" if "rcv_ok q" for q
    using Cons that by simp
  show ?case
  proof (cases rd0)
    case (ReadPacket e allowed d a)
    then obtain q where "receive_raw e allowed d a r = Some q" "rcv_ok q"
      using rcv_step_ok [of "Datagram e allowed d a" r] Cons.prems t by auto
    with IH ReadPacket Cons.prems(1) show ?thesis by (simp add: t)
  qed (use IH Cons.prems(1) in \<open>simp_all add: t\<close>)
qed simp

text \<open>A started receiver has its batchers exactly when a store is attached; the raw socket is open
  exactly in the modes without DTLS, and a listener only with it.\<close>

lemma startCoalescers_fields:
  assumes "startCoalescers env r = Some (r', bs)"
  shows "rConn r' = rConn r \<and> (bs \<noteq> None \<longleftrightarrow> rStore r) \<and> (rStore r \<longrightarrow> traceBatcher r')"
  using assms by (auto simp: startCoalescers_def split: if_splits Option.bind_splits)

lemma core_Start_modes:
  assumes "core_Start le s = Some (s', None)" "\<not> rConn (csRcv s)" "\<not> csListener s"
  defines "encrypted \<equiv> \<exists>cfg. csDtlsCfg s = Some cfg \<and> dcMode cfg \<noteq> ''none''"
  shows "rConn (csRcv s') = (\<not> encrypted) \<and> csListener s' = encrypted
    \<and> (csBatchers s' \<noteq> None \<longleftrightarrow> rStore (csRcv s))
    \<and> (FlushStatsLogger \<in> set (csGoroutines s') \<longleftrightarrow> rStore (csRcv s))"
  using assms
  by (auto simp: core_Start_def open_raw_def open_dtls_def Let_def
      split: Option.bind_splits option.splits if_splits dest!: startCoalescers_fields)

text \<open>When listening fails, \<open>Start\<close> reports it but the goroutines it has started stay until the
  context is cancelled.\<close>

lemma failed_start_keeps_goroutines:
  "core_Start le s = Some (s', Some e) \<Longrightarrow> {DedupGC, SessionGC} \<subseteq> set (csGoroutines s') \<and> csCtxDone (core_Stop s')"
  by (auto simp: core_Start_def core_Stop_def open_raw_def open_dtls_def Let_def
      split: Option.bind_splits option.splits if_splits)

subsection \<open>Lemmas: the collector receiver\<close>

lemma otel_start_stop:
  assumes "otel_Start resolveErr listenErr s = (s', None)"
  shows "osLoopRunning s' \<and> otel_Stop True s' = None
    \<and> (\<exists>s''. otel_Stop False s' = Some s'' \<and> \<not> osLoopRunning s'' \<and> osConnClosed s'' \<and> osCtxDone s'')"
  using assms by (auto simp: otel_Start_def otel_Stop_def Let_def split: option.splits)

text \<open>A read that fails because of \<open>Stop\<close> ends the loop without being counted as a drop.\<close>

lemma otel_loop_stopped: "otel_loop um cerr [(False, None, True)] r = Some (r, True)"
  by simp

subsection \<open>Lemmas: the flush statistics\<close>

lemma log_if_active_fold:
  assumes "distinct (map ltSignal ts)"
  shows "snd (fold log_if_active ts (prev, ls))
      = ls @ map snapshot (filter (\<lambda>t. totalFlushes t \<noteq> prev_flushes prev (ltSignal t)) ts)
    \<and> (\<forall>sig. prev_flushes (fst (fold log_if_active ts (prev, ls))) sig
      = (case find (\<lambda>t. ltSignal t = sig) ts of None \<Rightarrow> prev_flushes prev sig | Some t \<Rightarrow> totalFlushes t))"
  using assms
proof (induction ts arbitrary: prev ls)
  case (Cons t ts)
  let ?p = "fst (log_if_active t (prev, ls))"
  have p: "?p = (if totalFlushes t = prev_flushes prev (ltSignal t) then prev
      else AList.update (ltSignal t) (totalFlushes t) prev)"
    by (simp add: log_if_active_def snapshot_def Let_def)
  have self: "prev_flushes ?p (ltSignal t) = totalFlushes t"
    by (simp add: p) (simp add: prev_flushes_def update_conv')
  have keep: "prev_flushes ?p sig = prev_flushes prev sig" if "sig \<noteq> ltSignal t" for sig
    using that by (simp add: p) (simp add: prev_flushes_def update_conv')
  have apart: "ltSignal u \<noteq> ltSignal t" if "u \<in> set ts" for u
  proof
    assume "ltSignal u = ltSignal t"
    with that have "ltSignal t \<in> set (map ltSignal ts)" by (metis image_eqI list.set_map)
    with Cons.prems show False by simp
  qed
  then have other: "prev_flushes ?p (ltSignal u) = prev_flushes prev (ltSignal u)" if "u \<in> set ts" for u
    using that keep by blast
  have none: "find (\<lambda>u. ltSignal u = ltSignal t) ts = None"
    using apart by (auto simp: find_None_iff)
  have lines: "snd (log_if_active t (prev, ls))
      = ls @ (if totalFlushes t \<noteq> prev_flushes prev (ltSignal t) then [snapshot t] else [])"
    by (simp add: log_if_active_def snapshot_def)
  have IH: "snd (fold log_if_active ts (log_if_active t (prev, ls)))
      = snd (log_if_active t (prev, ls)) @ map snapshot (filter (\<lambda>t. totalFlushes t \<noteq> prev_flushes ?p (ltSignal t)) ts)"
    "prev_flushes (fst (fold log_if_active ts (log_if_active t (prev, ls)))) sig
      = (case find (\<lambda>t. ltSignal t = sig) ts of None \<Rightarrow> prev_flushes ?p sig | Some t \<Rightarrow> totalFlushes t)" for sig
    using Cons.IH [of ?p "snd (log_if_active t (prev, ls))"] Cons.prems by simp_all
  have "filter (\<lambda>t. totalFlushes t \<noteq> prev_flushes ?p (ltSignal t)) ts
      = filter (\<lambda>t. totalFlushes t \<noteq> prev_flushes prev (ltSignal t)) ts"
    by (rule filter_cong) (simp_all add: other)
  with IH lines show ?case by (auto simp: self keep none split: option.split)
qed simp

text \<open>A tick logs exactly the signals that have been flushed since the last one, and the next tick is
  silent when nothing happens in between.\<close>

lemma flush_stats_tick_lines:
  assumes "distinct (map ltSignal ts)"
  shows "snd (flush_stats_tick ts prev)
      = map snapshot (filter (\<lambda>t. totalFlushes t \<noteq> prev_flushes prev (ltSignal t)) ts)
    \<and> snd (flush_stats_tick ts (fst (flush_stats_tick ts prev))) = []"
proof -
  have seen: "prev_flushes (fst (flush_stats_tick ts prev)) (ltSignal t) = totalFlushes t" if t: "t \<in> set ts" for t
  proof -
    obtain u where "find (\<lambda>u. ltSignal u = ltSignal t) ts = Some u"
      using t find_None_iff [of "\<lambda>u. ltSignal u = ltSignal t" ts] by fastforce
    moreover from this have "u \<in> set ts" "ltSignal u = ltSignal t" by (auto simp: find_Some_iff)
    ultimately show ?thesis
      using t assms log_if_active_fold [OF assms, of prev "[]"]
      by (auto simp: flush_stats_tick_def distinct_map inj_on_def)
  qed
  show ?thesis
    using log_if_active_fold [OF assms, of prev "[]"]
      log_if_active_fold [OF assms, of "fst (flush_stats_tick ts prev)" "[]"] seen
    by (simp add: flush_stats_tick_def filter_False)
qed

end
