(* ===== verification/Bench_Stats.thy ===== *)
theory Bench_Stats
  imports Prelude
begin

section \<open>Benchmark statistics (benchstats/stats.go)\<close>

text \<open>
  The package that turns the per-iteration latencies of a benchmark path into the published
  figures. Both the live bench and the chunk merger call it.

  A \<open>float64\<close> is a \<open>real\<close>. A quotient by zero, which Go evaluates to an infinity or to NaN, is
  \<open>None\<close> in the two fields where it can occur (\<open>MsPerSpanP50\<close>, \<open>MsPerSpanP99\<close>). Go's \<open>int\<close> is
  \<open>int\<close> with \<open>i64\<close> around every addition; the UDP counters are 64-bit words. A \<open>time.Time\<close> is
  optional, \<open>None\<close> being the zero time.

  The lemmas show that the figures depend on the multiset of the samples alone, that
  \<open>Percentile\<close> is the nearest-rank percentile in spite of its epsilon, and that the figures of
  one result are ordered.
\<close>

subsection \<open>Rounding, percentile and mean\<close>

text \<open>\<open>math.Round\<close> rounds half away from zero.\<close>

definition math_Round :: "real \<Rightarrow> real" where
  "math_Round x = (if x < 0 then - of_int \<lfloor>1 / 2 - x\<rfloor> else of_int \<lfloor>x + 1 / 2\<rfloor>)"

definition Round2 :: "real \<Rightarrow> real" where "Round2 v = math_Round (v * 100) / 100"

definition Round3 :: "real \<Rightarrow> real" where "Round3 v = math_Round (v * 1000) / 1000"

definition Round1 :: "real \<Rightarrow> real" where "Round1 v = math_Round (v * 10) / 10"

definition percentile_index :: "nat \<Rightarrow> real \<Rightarrow> nat" where
  "percentile_index n p = (
     let idx = \<lceil>p / 100 * real n - 1 / 10 ^ 9\<rceil> - 1;
         idx = (if idx < 0 then 0 else idx);
         idx = (if idx \<ge> int n then int n - 1 else idx)
     in nat idx)"

definition Percentile :: "real list \<Rightarrow> real \<Rightarrow> real" where
  "Percentile sortedAsc p = (if length sortedAsc = 0 then 0
     else sortedAsc ! percentile_index (length sortedAsc) p)"

definition Mean :: "real list \<Rightarrow> real" where
  "Mean xs = (if length xs = 0 then 0 else foldl (+) 0 xs / real (length xs))"

subsection \<open>Results and failure counts\<close>

record PathResult =
  Path :: string
  Status :: string
  N :: int
  SpansPerCall :: int
  P50Ms :: real
  P90Ms :: real
  P99Ms :: real
  AvgMs :: real
  MinMs :: real
  MaxMs :: real
  MsPerSpanP50 :: "real option"
  MsPerSpanP99 :: "real option"
  SpansPerSecond :: real
  Note :: string
  Samples :: "real list"
  Attempted :: int
  Failures :: int
  Timeouts :: int
  NonOK :: int
  OtherErrors :: int
  FailureRatePct :: real
  FailedSamples :: "real list"
  LastFailureMsg :: string
  UDPSent :: u64
  UDPAcked :: u64
  UDPRetransmits :: u64
  UDPDropped :: u64
  StartedAt :: "gotime option"
  FinishedAt :: "gotime option"
  WallClockSeconds :: real
  SpansPerSecondWall :: real

text \<open>The literal \<open>PathResult\<close> with path and spans per call set: every other field zero.\<close>

definition empty_result :: "string \<Rightarrow> int \<Rightarrow> PathResult" where
  "empty_result name spansPerCall = \<lparr>Path = name, Status = [], N = 0, SpansPerCall = spansPerCall,
     P50Ms = 0, P90Ms = 0, P99Ms = 0, AvgMs = 0, MinMs = 0, MaxMs = 0,
     MsPerSpanP50 = Some 0, MsPerSpanP99 = Some 0, SpansPerSecond = 0, Note = [], Samples = [],
     Attempted = 0, Failures = 0, Timeouts = 0, NonOK = 0, OtherErrors = 0, FailureRatePct = 0,
     FailedSamples = [], LastFailureMsg = [], UDPSent = 0, UDPAcked = 0, UDPRetransmits = 0,
     UDPDropped = 0, StartedAt = None, FinishedAt = None, WallClockSeconds = 0,
     SpansPerSecondWall = 0\<rparr>"

record FailureBreakdown =
  fbTimeouts :: int
  fbNonOK :: int
  fbOtherErrors :: int
  fbFailedSamples :: "real list"
  fbLast :: string

definition Total :: "FailureBreakdown \<Rightarrow> int" where
  "Total f = i64 (i64 (fbTimeouts f + fbNonOK f) + fbOtherErrors f)"

subsection \<open>Summaries\<close>

definition per_span :: "real \<Rightarrow> int \<Rightarrow> real option" where
  "per_span v spansPerCall =
     (if spansPerCall = 0 then None else Some (Round3 (v / of_int spansPerCall)))"

definition Summarize :: "string \<Rightarrow> real list \<Rightarrow> int \<Rightarrow> PathResult" where
  "Summarize name samples spansPerCall = (
     let r = empty_result name spansPerCall in
     if length samples = 0 then r\<lparr>Status := ''FAIL_NO_DATA''\<rparr>
     else
       let sorted = sort samples;
           p50 = Percentile sorted 50; p90 = Percentile sorted 90; p99 = Percentile sorted 99;
           avg = Mean sorted;
           r = r\<lparr>Status := ''PASS'', N := int (length samples),
                 P50Ms := Round2 p50, P90Ms := Round2 p90, P99Ms := Round2 p99,
                 AvgMs := Round2 avg, MinMs := Round2 (sorted ! 0),
                 MaxMs := Round2 (sorted ! (length sorted - 1)),
                 MsPerSpanP50 := per_span p50 spansPerCall,
                 MsPerSpanP99 := per_span p99 spansPerCall\<rparr>;
           r = (if avg > 0 then r\<lparr>SpansPerSecond := Round1 (of_int spansPerCall * 1000 / avg)\<rparr> else r)
       in r\<lparr>Samples := samples\<rparr>)"

definition SummarizeWithFailures ::
  "string \<Rightarrow> real list \<Rightarrow> FailureBreakdown \<Rightarrow> int \<Rightarrow> PathResult" where
  "SummarizeWithFailures name okSamples fb spansPerCall = (
     let r = Summarize name okSamples spansPerCall;
         totalFailures = Total fb;
         r = r\<lparr>Attempted := i64 (N r + totalFailures)\<rparr>
     in if totalFailures = 0 then r
     else
       let r = r\<lparr>Failures := totalFailures, Timeouts := fbTimeouts fb, NonOK := fbNonOK fb,
                 OtherErrors := fbOtherErrors fb\<rparr>;
           r = (if Attempted r > 0
             then r\<lparr>FailureRatePct := Round2 (of_int totalFailures * 100 / of_int (Attempted r))\<rparr> else r);
           r = (if length (fbFailedSamples fb) > 0 then r\<lparr>FailedSamples := fbFailedSamples fb\<rparr> else r);
           r = (if fbLast fb \<noteq> [] then r\<lparr>LastFailureMsg := fbLast fb\<rparr> else r)
       in if N r = 0 then r\<lparr>Status := ''FAIL_TIMEOUT''\<rparr> else r\<lparr>Status := ''PASS_WITH_FAILURES''\<rparr>)"

subsection \<open>Wall clock\<close>

definition wall_attempted :: "PathResult \<Rightarrow> int" where
  "wall_attempted r = (let attempted = Attempted r in
     if attempted = 0 then i64 (N r + Failures r) else attempted)"

definition SetWallClockSeconds :: "real \<Rightarrow> PathResult \<Rightarrow> PathResult" where
  "SetWallClockSeconds seconds r = (if seconds \<le> 0 then r
     else
       let r = r\<lparr>WallClockSeconds := Round3 seconds\<rparr>;
           attempted = wall_attempted r
       in if attempted > 0 \<and> SpansPerCall r > 0
          then r\<lparr>SpansPerSecondWall := Round1 (of_int attempted * of_int (SpansPerCall r) / seconds)\<rparr>
          else r)"

text \<open>\<open>end.Sub(start).Seconds()\<close> is the saturated nanosecond difference in seconds.\<close>

definition AttachWallClock :: "gotime option \<Rightarrow> gotime option \<Rightarrow> PathResult \<Rightarrow> PathResult" where
  "AttachWallClock start fin r = (case (start, fin) of
     (Some s, Some e) \<Rightarrow>
       if \<not> e > s then r
       else
         let dur = of_int (time_sub e s) / of_int second in
         if dur \<le> 0 then r
         else
           let r = r\<lparr>StartedAt := Some s, FinishedAt := Some e, WallClockSeconds := Round3 dur\<rparr>;
               attempted = wall_attempted r
           in if attempted > 0 \<and> SpansPerCall r > 0
              then r\<lparr>SpansPerSecondWall := Round1 (of_int attempted * of_int (SpansPerCall r) / dur)\<rparr>
              else r
   | _ \<Rightarrow> r)"

subsection \<open>Rounding is monotone\<close>

lemma math_Round_mono: "x \<le> y \<Longrightarrow> math_Round x \<le> math_Round y"
proof -
  assume le: "x \<le> y"
  consider "y < 0" | "x < 0" "0 \<le> y" | "0 \<le> x" by linarith
  then show ?thesis
  proof cases
    case 1
    then show ?thesis using le floor_mono [of "1 / 2 - y" "1 / 2 - x"] by (simp add: math_Round_def)
  next
    case 2
    have "0 \<le> real_of_int \<lfloor>1 / 2 - x\<rfloor>" "0 \<le> real_of_int \<lfloor>y + 1 / 2\<rfloor>" using 2 by simp_all
    then have "- real_of_int \<lfloor>1 / 2 - x\<rfloor> \<le> real_of_int \<lfloor>y + 1 / 2\<rfloor>" by linarith
    then show ?thesis using 2 by (simp add: math_Round_def)
  next
    case 3
    then show ?thesis using le floor_mono [of "x + 1 / 2" "y + 1 / 2"] by (simp add: math_Round_def)
  qed
qed

lemma Round2_mono: "x \<le> y \<Longrightarrow> Round2 x \<le> Round2 y"
  by (simp add: Round2_def math_Round_mono divide_right_mono)

subsection \<open>The percentile\<close>

text \<open>The epsilon never moves an integer percentile: \<open>p / 100 * n\<close> is a multiple of 1/100.\<close>

lemma percentile_ceiling:
  fixes p n :: nat
  shows "\<lceil>real p / 100 * real n - 1 / 10 ^ 9\<rceil> = int ((p * n + 99) div 100)"
proof -
  define q where "q = (p * n + 99) div 100"
  have "100 * q \<le> p * n + 99" "p * n < 100 * q + 1" unfolding q_def by linarith+
  then have "100 * real q \<le> real (p * n) + 99" "real (p * n) \<le> 100 * real q"
    by linarith+
  then have "real p / 100 * real n - 1 / 10 ^ 9 \<le> real q" "real q < real p / 100 * real n - 1 / 10 ^ 9 + 1"
    by (simp_all add: field_simps)
  then show ?thesis unfolding q_def [symmetric] by (simp add: ceiling_eq_iff)
qed

lemma percentile_index_rank:
  fixes p n :: nat
  assumes "0 < n" "1 \<le> p" "p \<le> 100"
  shows "percentile_index n (real p) = (p * n + 99) div 100 - 1" "percentile_index n (real p) < n"
proof -
  have "p * n \<le> 100 * n" using assms by simp
  moreover have "1 \<le> p * n" using assms by simp
  ultimately have "1 \<le> (p * n + 99) div 100" "(p * n + 99) div 100 \<le> n" by linarith+
  then show "percentile_index n (real p) = (p * n + 99) div 100 - 1" "percentile_index n (real p) < n"
    using assms(1) unfolding percentile_index_def percentile_ceiling Let_def by auto
qed

lemma sorted_rank:
  fixes ys :: "real list"
  assumes "sorted ys" "i < length ys"
  shows "i < length (filter (\<lambda>x. x \<le> ys ! i) ys)" "length (filter (\<lambda>x. x < ys ! i) ys) \<le> i"
proof -
  have "{..i} \<subseteq> {j. j < length ys \<and> ys ! j \<le> ys ! i}"
    using assms by (auto intro: sorted_nth_mono)
  then have "card {..i} \<le> card {j. j < length ys \<and> ys ! j \<le> ys ! i}" by (rule card_mono [rotated]) simp
  then show "i < length (filter (\<lambda>x. x \<le> ys ! i) ys)" by (simp add: length_filter_conv_card)
  have "{j. j < length ys \<and> ys ! j < ys ! i} \<subseteq> {..<i}"
    using assms sorted_nth_mono [OF assms(1), of i] by (auto simp: not_le [symmetric] not_less)
  then have "card {j. j < length ys \<and> ys ! j < ys ! i} \<le> card {..<i}" by (rule card_mono [rotated]) simp
  then show "length (filter (\<lambda>x. x < ys ! i) ys) \<le> i" by (simp add: length_filter_conv_card)
qed

lemma length_filter_sort: "length (filter P (sort xs)) = length (filter P (xs :: real list))"
  by (metis mset_eq_length mset_filter mset_sort)

lemma Percentile_nth:
  assumes "xs \<noteq> []"
  shows "Percentile (sort xs) p = sort xs ! percentile_index (length xs) p"
  using assms by (simp add: Percentile_def)



subsection \<open>The summary\<close>

text \<open>The published figures do not depend on the order in which the samples were
  taken: two runs with the same multiset of successful samples and the same failures have the
  same result in every field but the raw sample list. In particular a run and the
  concatenation of its chunks in any order agree.\<close>

theorem summary_order_free:
  assumes "mset xs = mset ys"
  shows "SummarizeWithFailures name xs fb spansPerCall
       = (SummarizeWithFailures name ys fb spansPerCall)\<lparr>Samples := xs\<rparr>"
proof -
  have l: "length xs = length ys" by (rule mset_eq_length [OF assms])
  have s: "sort xs = sort ys" using assms by (metis mset_sort properties_for_sort sorted_sort)
  have "Summarize name xs spansPerCall = (Summarize name ys spansPerCall)\<lparr>Samples := xs\<rparr>"
    using l by (cases "ys = []") (simp_all add: Summarize_def s Let_def empty_result_def)
  then show ?thesis by (simp add: SummarizeWithFailures_def Let_def)
qed

theorem summary_order_free_witness:
  "\<forall>fb. SummarizeWithFailures ''http'' [3, 1] fb 5
     = (SummarizeWithFailures ''http'' [1, 3] fb 5)\<lparr>Samples := [3, 1]\<rparr>"
  by (intro allI summary_order_free) simp

lemma sort_bounds:
  fixes xs :: "real list"
  assumes "i < length xs"
  shows "sort xs ! 0 \<le> sort xs ! i" "sort xs ! i \<le> sort xs ! (length xs - 1)"
  using assms by (auto intro!: sorted_nth_mono)

lemma Percentile_mono:
  fixes p q :: nat
  assumes "xs \<noteq> []" "1 \<le> p" "p \<le> q" "q \<le> 100"
  shows "Percentile (sort xs) (real p) \<le> Percentile (sort xs) (real q)"
proof -
  have n: "0 < length xs" using assms(1) by simp
  have "(p * length xs + 99) div 100 \<le> (q * length xs + 99) div 100"
    using assms(3) by (intro div_le_mono add_right_mono mult_le_mono1)
  then have "percentile_index (length xs) (real p) \<le> percentile_index (length xs) (real q)"
    using percentile_index_rank(1) [OF n, of p] percentile_index_rank(1) [OF n, of q] assms
    by (simp add: diff_le_mono)
  then show ?thesis
    using percentile_index_rank(2) [OF n, of q] assms
    by (simp add: Percentile_nth sorted_nth_mono)
qed

lemma Percentile_within:
  fixes p :: nat
  assumes "xs \<noteq> []" "1 \<le> p" "p \<le> 100"
  shows "sort xs ! 0 \<le> Percentile (sort xs) (real p)"
    "Percentile (sort xs) (real p) \<le> sort xs ! (length xs - 1)"
  using sort_bounds percentile_index_rank(2) [of "length xs" p] assms by (simp_all add: Percentile_nth)

lemma foldl_plus: "foldl (+) a xs = a + sum_list (xs :: real list)"
  by (induction xs arbitrary: a) (auto simp: algebra_simps)

lemma Mean_within:
  assumes "xs \<noteq> []"
  shows "sort xs ! 0 \<le> Mean (sort xs)" "Mean (sort xs) \<le> sort xs ! (length xs - 1)"
proof -
  let ?ys = "sort xs"
  have "\<forall>x \<in> set ?ys. ?ys ! 0 \<le> x \<and> x \<le> ?ys ! (length xs - 1)"
    using sort_bounds [of _ xs] by (metis in_set_conv_nth length_sort)
  then have "real (length ?ys) * ?ys ! 0 \<le> sum_list ?ys \<and> sum_list ?ys \<le> real (length ?ys) * ?ys ! (length xs - 1)"
    using sum_list_mono [of ?ys "\<lambda>_. ?ys ! 0" "\<lambda>x. x"]
      sum_list_mono [of ?ys "\<lambda>x. x" "\<lambda>_. ?ys ! (length xs - 1)"]
    by (simp add: sum_list_triv)
  then show "?ys ! 0 \<le> Mean ?ys" "Mean ?ys \<le> ?ys ! (length xs - 1)"
    using assms by (simp_all add: Mean_def foldl_plus field_simps)
qed

text \<open>The figures of a result are consistent with each other: minimum, median,
  90th and 99th percentile and maximum are in ascending order, also after rounding, and the
  average lies between minimum and maximum.\<close>

theorem summary_figures_ordered:
  fixes samples :: "real list" and name :: string and spansPerCall :: int
  assumes "samples \<noteq> []"
  defines "r \<equiv> Summarize name samples spansPerCall"
  shows "MinMs r \<le> P50Ms r \<and> P50Ms r \<le> P90Ms r \<and> P90Ms r \<le> P99Ms r \<and> P99Ms r \<le> MaxMs r
    \<and> MinMs r \<le> AvgMs r \<and> AvgMs r \<le> MaxMs r"
proof -
  note m = Percentile_mono [OF assms(1), of 50 90] Percentile_mono [OF assms(1), of 90 99]
    Percentile_within(1) [OF assms(1), of 50] Percentile_within(2) [OF assms(1), of 99]
    Mean_within [OF assms(1)]
  show ?thesis using assms(1) m by (auto simp: r_def Summarize_def Let_def intro!: Round2_mono)
qed

theorem summary_figures_ordered_witness:
  "let r = Summarize ''http'' [2, 1] 5 in MinMs r \<le> P50Ms r \<and> P50Ms r \<le> P90Ms r \<and> P90Ms r \<le> P99Ms r
    \<and> P99Ms r \<le> MaxMs r \<and> MinMs r \<le> AvgMs r \<and> AvgMs r \<le> MaxMs r"
  using summary_figures_ordered [of "[2, 1]" "''http''" 5] by (simp add: Let_def)

subsection \<open>Fields the summary sets\<close>

lemma Summarize_fields [simp]:
  "Path (Summarize name xs s) = name" "SpansPerCall (Summarize name xs s) = s"
  "N (Summarize name xs s) = int (length xs)" "Samples (Summarize name xs s) = xs"
  "Status (Summarize name xs s) = (if xs = [] then ''FAIL_NO_DATA'' else ''PASS'')"
  "Failures (Summarize name xs s) = 0" "Timeouts (Summarize name xs s) = 0"
  "NonOK (Summarize name xs s) = 0" "OtherErrors (Summarize name xs s) = 0"
  "FailedSamples (Summarize name xs s) = []" "LastFailureMsg (Summarize name xs s) = []"
  "UDPSent (Summarize name xs s) = 0" "UDPAcked (Summarize name xs s) = 0"
  "UDPRetransmits (Summarize name xs s) = 0" "UDPDropped (Summarize name xs s) = 0"
  "WallClockSeconds (Summarize name xs s) = 0" "SpansPerSecondWall (Summarize name xs s) = 0"
  by (simp_all add: Summarize_def empty_result_def Let_def)

lemma SummarizeWithFailures_fields [simp]:
  "Path (SummarizeWithFailures name xs fb s) = name"
  "SpansPerCall (SummarizeWithFailures name xs fb s) = s"
  "N (SummarizeWithFailures name xs fb s) = int (length xs)"
  "Samples (SummarizeWithFailures name xs fb s) = xs"
  "UDPSent (SummarizeWithFailures name xs fb s) = 0"
  "UDPAcked (SummarizeWithFailures name xs fb s) = 0"
  "UDPRetransmits (SummarizeWithFailures name xs fb s) = 0"
  "UDPDropped (SummarizeWithFailures name xs fb s) = 0"
  "WallClockSeconds (SummarizeWithFailures name xs fb s) = 0"
  by (simp_all add: SummarizeWithFailures_def Let_def)

lemma status_hierarchy:
  "Status (SummarizeWithFailures name xs fb s) =
     (if Total fb = 0 then (if xs = [] then ''FAIL_NO_DATA'' else ''PASS'')
      else (if xs = [] then ''FAIL_TIMEOUT'' else ''PASS_WITH_FAILURES''))"
  by (simp add: SummarizeWithFailures_def Let_def)

end
