(* ===== verification/Bench_Merge.thy ===== *)
theory Bench_Merge
  imports Bench_Stats Client_Config
begin

section \<open>The chunk merger (cmd/eo-bench-merge/main.go)\<close>

text \<open>
  The tool that pools the results of several bench runs. The model follows \<open>main\<close> from the
  resolution of the file names to the merged file; the file system, SHA-256 and the JSON decoder
  are the fields of \<open>merge_io\<close>. Error values and warnings are data types with the arguments of
  the source's format strings. An index out of range is a panic, \<open>None\<close>.

  The lemmas relate the merger's accumulating maps to the rows of one path: a merged result is
  the summary of a single run over all samples of the path, and a failed chunk stays visible.
\<close>

subsection \<open>Data\<close>

record chunkFile =
  cGeneratedAt :: string
  cSpansPerCall :: int
  cIterations :: int
  cWarmup :: int
  cTenant :: string
  cBenchMode :: string
  cResults :: "PathResult list"

record mergedSource =
  msFile :: string
  msSHA256 :: string
  msNByPath :: "(string, int) gomap"

datatype merge_note =
    TenantMismatch "string list"
  | PathMissing string int int

record mergedFile =
  mGeneratedAt :: string
  mSpansPerCall :: int
  mIterations :: int
  mWarmup :: int
  mTenant :: string
  mBenchMode :: string
  mResults :: "PathResult list"
  mMergedFrom :: "mergedSource list"
  mMergeNotes :: "merge_note list"

datatype merge_error =
    OutRequired
  | InvalidGlob string
  | TooFewChunks nat
  | ReadError string
  | DecodeError string
  | NoResults
  | MissingSamples string string
  | NoChunks
  | SpansMismatch string int string int
  | ModeMismatch string string string string
  | PathSpansMismatch string int int
  | StrictWarnings nat
  | CreateOutput string
  | EncodeOutput string

record merge_io =
  mioGlob :: "string \<Rightarrow> string + string list"
  mioReadFile :: "string \<Rightarrow> string + bytes"
  mioSha256Hex :: "bytes \<Rightarrow> string"
  mioUnmarshal :: "bytes \<Rightarrow> string + chunkFile"
  mioNowRFC3339 :: string

text \<open>Reading a Go map at an absent key gives the zero value.\<close>

definition map_get :: "'v \<Rightarrow> ('k, 'v) gomap \<Rightarrow> 'k \<Rightarrow> 'v" where
  "map_get zero m k = (case map_of m k of None \<Rightarrow> zero | Some v \<Rightarrow> v)"

subsection \<open>Finding and reading the chunks\<close>

definition add_file :: "string \<Rightarrow> string list \<Rightarrow> string list" where
  "add_file p files = (if p \<in> set files then files else files @ [p])"

definition resolveChunkFiles :: "merge_io \<Rightarrow> string \<Rightarrow> string list \<Rightarrow> merge_error + string list" where
  "resolveChunkFiles io glob positional = (
     case (if glob \<noteq> [] then mioGlob io glob else Inr []) of
       Inl _ \<Rightarrow> Inl (InvalidGlob glob)
     | Inr matches \<Rightarrow> Inr (sort (fold add_file positional (fold add_file matches []))))"

fun samples_missing :: "PathResult list \<Rightarrow> PathResult option" where
  "samples_missing [] = None"
| "samples_missing (r # rs) =
     (if (Status r = ''PASS'' \<or> Status r = ''PASS_WITH_FAILURES'') \<and> length (Samples r) = 0
      then Some r else samples_missing rs)"

definition readChunk :: "merge_io \<Rightarrow> string \<Rightarrow> merge_error + chunkFile \<times> string" where
  "readChunk io path = (case mioReadFile io path of
     Inl e \<Rightarrow> Inl (ReadError e)
   | Inr data \<Rightarrow>
       let hash = mioSha256Hex io data in
       (case mioUnmarshal io data of
          Inl e \<Rightarrow> Inl (DecodeError e)
        | Inr c \<Rightarrow>
            if length (cResults c) = 0 then Inl NoResults
            else case samples_missing (cResults c) of
              Some r \<Rightarrow> Inl (MissingSamples (Path r) (Status r))
            | None \<Rightarrow> Inr (c, hash)))"

fun read_chunks :: "merge_io \<Rightarrow> string list \<Rightarrow> merge_error + (chunkFile \<times> string) list" where
  "read_chunks io [] = Inr []"
| "read_chunks io (f # fs) = (case readChunk io f of
     Inl e \<Rightarrow> Inl e
   | Inr ch \<Rightarrow> (case read_chunks io fs of Inl e \<Rightarrow> Inl e | Inr chs \<Rightarrow> Inr (ch # chs)))"

subsection \<open>Small helpers of the merge\<close>

definition add_string :: "string \<Rightarrow> string list \<Rightarrow> string list" where
  "add_string v out = (if v \<in> set out then out else out @ [v])"

definition uniqueStrings :: "chunkFile list \<Rightarrow> (chunkFile \<Rightarrow> string) \<Rightarrow> string list" where
  "uniqueStrings chunks fn = fold (\<lambda>c out. add_string (fn c) out) chunks []"

fun isolated_rows :: "PathResult list \<Rightarrow> string list \<Rightarrow> string list option" where
  "isolated_rows [] seen = Some seen"
| "isolated_rows (r # rs) seen =
     (if Path r \<in> set seen then None else isolated_rows rs (Path r # seen))"

fun isolated_chunks :: "chunkFile list \<Rightarrow> string list \<Rightarrow> bool" where
  "isolated_chunks [] seen = True"
| "isolated_chunks (c # cs) seen =
     (if length (cResults c) = 0 then False
      else case isolated_rows (cResults c) seen of
        None \<Rightarrow> False
      | Some seen \<Rightarrow> isolated_chunks cs seen)"

definition isCrossPathIsolated :: "chunkFile list \<Rightarrow> bool" where
  "isCrossPathIsolated chunks = (if length chunks < 2 then False else isolated_chunks chunks [])"

definition status_rank :: "string \<Rightarrow> nat" where
  "status_rank s =
     (if s = ''PASS'' then 0 else if s = ''PASS_WITH_FAILURES'' then 1
      else if s = ''FAIL_TIMEOUT'' then 2 else if s = ''FAIL_DIAL'' then 3
      else if s = ''FAIL_HANDSHAKE'' then 4 else if s = ''FAIL_NO_DATA'' then 5
      else if take 4 s = ''FAIL'' then 6 else 0)"

definition isWorseStatus :: "string \<Rightarrow> string \<Rightarrow> bool" where
  "isWorseStatus a b \<longleftrightarrow> status_rank a > status_rank b"

subsection \<open>Merging\<close>

text \<open>The fatal comparison of every later chunk with the first one, from index \<open>i\<close>. The error
  texts index \<open>files\<close>.\<close>

fun check_chunks :: "string list \<Rightarrow> chunkFile \<Rightarrow> nat \<Rightarrow> chunkFile list \<Rightarrow> merge_error option option" where
  "check_chunks files first i [] = Some None"
| "check_chunks files first i (c # cs) =
     (if cSpansPerCall c \<noteq> cSpansPerCall first
      then if i < length files
        then Some (Some (SpansMismatch (files ! 0) (cSpansPerCall first) (files ! i) (cSpansPerCall c)))
        else None
      else if cBenchMode c \<noteq> [] \<and> cBenchMode first \<noteq> [] \<and> cBenchMode c \<noteq> cBenchMode first
      then if i < length files
        then Some (Some (ModeMismatch (files ! 0) (cBenchMode first) (files ! i) (cBenchMode c)))
        else None
      else check_chunks files first (i + 1) cs)"

record path_acc =
  pathOrder :: "string list"
  pathSamples :: "(string, real list) gomap"
  pathChunks :: "(string, int) gomap"
  pathSpans :: "(string, int) gomap"
  pathStatus :: "(string, string) gomap"

definition merge_row :: "PathResult \<Rightarrow> path_acc \<Rightarrow> merge_error + path_acc" where
  "merge_row r a = (
     let a = (if Path r \<in> fst ` set (pathSamples a) then a
              else a\<lparr>pathOrder := pathOrder a @ [Path r],
                     pathSpans := AList.update (Path r) (SpansPerCall r) (pathSpans a)\<rparr>)
     in if map_get 0 (pathSpans a) (Path r) \<noteq> SpansPerCall r
        then Inl (PathSpansMismatch (Path r) (map_get 0 (pathSpans a) (Path r)) (SpansPerCall r))
        else
          let a = a\<lparr>pathSamples := AList.update (Path r)
                      (map_get [] (pathSamples a) (Path r) @ Samples r) (pathSamples a),
                    pathChunks := AList.update (Path r)
                      (i64 (map_get 0 (pathChunks a) (Path r) + 1)) (pathChunks a)\<rparr>
          in if map_get [] (pathStatus a) (Path r) = []
                \<or> isWorseStatus (Status r) (map_get [] (pathStatus a) (Path r))
             then Inr (a\<lparr>pathStatus := AList.update (Path r) (Status r) (pathStatus a)\<rparr>)
             else Inr a)"

fun merge_rows :: "PathResult list \<Rightarrow> path_acc \<Rightarrow> merge_error + path_acc" where
  "merge_rows [] a = Inr a"
| "merge_rows (r # rs) a = (case merge_row r a of Inl e \<Rightarrow> Inl e | Inr a \<Rightarrow> merge_rows rs a)"

text \<open>The two inner loops of the result construction, over the rows of all chunks in order.\<close>

definition add_failures :: "string \<Rightarrow> PathResult \<Rightarrow> FailureBreakdown \<Rightarrow> FailureBreakdown" where
  "add_failures p cr fb = (if Path cr \<noteq> p then fb
     else
       let fb = fb\<lparr>fbTimeouts := i64 (fbTimeouts fb + Timeouts cr), fbNonOK := i64 (fbNonOK fb + NonOK cr),
                   fbOtherErrors := i64 (fbOtherErrors fb + OtherErrors cr)\<rparr>;
           fb = (if length (FailedSamples cr) > 0
                 then fb\<lparr>fbFailedSamples := fbFailedSamples fb @ FailedSamples cr\<rparr> else fb)
       in if LastFailureMsg cr \<noteq> [] then fb\<lparr>fbLast := LastFailureMsg cr\<rparr> else fb)"

definition no_failures :: FailureBreakdown where
  "no_failures = \<lparr>fbTimeouts = 0, fbNonOK = 0, fbOtherErrors = 0, fbFailedSamples = [], fbLast = []\<rparr>"

definition add_counters :: "string \<Rightarrow> PathResult \<Rightarrow> PathResult \<times> real \<Rightarrow> PathResult \<times> real" where
  "add_counters p cr rw = (case rw of (r, wallSecondsSum) \<Rightarrow>
     if Path cr \<noteq> p then (r, wallSecondsSum)
     else (r\<lparr>UDPSent := UDPSent r + UDPSent cr, UDPAcked := UDPAcked r + UDPAcked cr,
             UDPRetransmits := UDPRetransmits r + UDPRetransmits cr,
             UDPDropped := UDPDropped r + UDPDropped cr\<rparr>, wallSecondsSum + WallClockSeconds cr))"

definition worst_note :: "int \<Rightarrow> string" where
  "worst_note n = ''merged status reflects worst per-chunk status across '' @ format_int n @ '' chunks''"

definition merge_path :: "PathResult list \<Rightarrow> path_acc \<Rightarrow> string \<Rightarrow> PathResult" where
  "merge_path rows a p = (
     let fb = fold (add_failures p) rows no_failures;
         r = SummarizeWithFailures p (map_get [] (pathSamples a) p) fb (map_get 0 (pathSpans a) p);
         (r, wallSecondsSum) = fold (add_counters p) rows (r, 0);
         r = (if wallSecondsSum > 0 then SetWallClockSeconds wallSecondsSum r else r);
         status = map_get [] (pathStatus a) p;
         propagate = (status \<noteq> [] \<and> status \<noteq> ''PASS'' \<and> status \<noteq> ''PASS_WITH_FAILURES'')
     in if propagate then r\<lparr>Status := status, Note := worst_note (map_get 0 (pathChunks a) p)\<rparr> else r)"

definition n_by_path :: "chunkFile \<Rightarrow> (string, int) gomap" where
  "n_by_path c = fold (\<lambda>r ns. AList.update (Path r) (N r) ns) (cResults c) []"

definition merge_sources :: "string list \<Rightarrow> chunkFile list \<Rightarrow> string list \<Rightarrow> mergedSource list option" where
  "merge_sources files chunks hashes =
     (if length files \<le> length chunks \<and> length files \<le> length hashes
      then Some (map (\<lambda>i. \<lparr>msFile = files ! i, msSHA256 = hashes ! i, msNByPath = n_by_path (chunks ! i)\<rparr>)
                  [0..<length files])
      else None)"

definition missing_notes :: "chunkFile list \<Rightarrow> path_acc \<Rightarrow> merge_note list" where
  "missing_notes chunks a =
     map (\<lambda>p. PathMissing p (map_get 0 (pathChunks a) p) (int (length chunks)))
       (filter (\<lambda>p. map_get 0 (pathChunks a) p \<noteq> int (length chunks) \<and> \<not> isCrossPathIsolated chunks)
          (pathOrder a))"

definition empty_acc :: path_acc where
  "empty_acc = \<lparr>pathOrder = [], pathSamples = [], pathChunks = [], pathSpans = [], pathStatus = []\<rparr>"

definition mergeChunks ::
  "merge_io \<Rightarrow> string list \<Rightarrow> chunkFile list \<Rightarrow> string list
   \<Rightarrow> (merge_error + mergedFile \<times> merge_note list) option" where
  "mergeChunks io files chunks hashes = (case chunks of
     [] \<Rightarrow> Some (Inl NoChunks)
   | first # rest \<Rightarrow>
       (case check_chunks files first 1 rest of
          None \<Rightarrow> None
        | Some (Some e) \<Rightarrow> Some (Inl e)
        | Some None \<Rightarrow>
            let tenants = uniqueStrings chunks cTenant;
                notes = (if length tenants > 1 then [TenantMismatch tenants] else []);
                totalIters = fold (\<lambda>c n. i64 (n + cIterations c)) chunks 0;
                totalWarmup = fold (\<lambda>c n. i64 (n + cWarmup c)) chunks 0;
                rows = concat (map cResults chunks)
            in case merge_rows rows empty_acc of
              Inl e \<Rightarrow> Some (Inl e)
            | Inr a \<Rightarrow>
                let notes = notes @ missing_notes chunks a;
                    results = map (merge_path rows a) (pathOrder a)
                in (case merge_sources files chunks hashes of
                      None \<Rightarrow> None
                    | Some sources \<Rightarrow> Some (Inr
                        (\<lparr>mGeneratedAt = mioNowRFC3339 io, mSpansPerCall = cSpansPerCall first,
                          mIterations = totalIters, mWarmup = totalWarmup, mTenant = cTenant first,
                          mBenchMode = cBenchMode first, mResults = results, mMergedFrom = sources,
                          mMergeNotes = notes\<rparr>, notes)))))"

text \<open>\<open>main\<close>: the flags, the chunks, the merge and the file that is written. \<open>createErr\<close> and \<open>encodeErr\<close>
  are the outcomes of creating and of writing the output.\<close>

definition merge_main ::
  "merge_io \<Rightarrow> string option \<Rightarrow> string option \<Rightarrow> string \<Rightarrow> string \<Rightarrow> string list \<Rightarrow> bool \<Rightarrow> bool
     \<Rightarrow> (merge_error + mergedFile) option" where
  "merge_main io createErr encodeErr out inGlob args keep strict = (
     if out = [] then Some (Inl OutRequired)
     else case resolveChunkFiles io inGlob args of
       Inl e \<Rightarrow> Some (Inl e)
     | Inr files \<Rightarrow>
         if length files < 2 then Some (Inl (TooFewChunks (length files)))
         else (case read_chunks io files of
            Inl e \<Rightarrow> Some (Inl e)
          | Inr chs \<Rightarrow>
              (case mergeChunks io files (map fst chs) (map snd chs) of
                 None \<Rightarrow> None
               | Some (Inl e) \<Rightarrow> Some (Inl e)
               | Some (Inr (merged, notes)) \<Rightarrow>
                   if strict \<and> length notes > 0 then Some (Inl (StrictWarnings (length notes)))
                   else
                     let merged = (if keep then merged
                       else merged\<lparr>mResults := map (\<lambda>r. r\<lparr>Samples := []\<rparr>) (mResults merged)\<rparr>)
                     in (case createErr of Some e \<Rightarrow> Some (Inl (CreateOutput e))
                         | None \<Rightarrow> (case encodeErr of Some e \<Rightarrow> Some (Inl (EncodeOutput e))
                             | None \<Rightarrow> Some (Inr merged))))))"

text \<open>The summary on the terminal: one line per path and, on demand, one per source. \<open>fmtF d x\<close> is \<open>x\<close>
  with \<open>d\<close> decimals, \<open>fmtMap\<close> the verb \<open>%v\<close>; \<open>arrow\<close> and \<open>dots\<close> are the two characters that are not ASCII. Slicing a digest shorter than
  twelve characters panics.\<close>

definition summary_line :: "(nat \<Rightarrow> real \<Rightarrow> string) \<Rightarrow> PathResult \<Rightarrow> string" where
  "summary_line fmtF r =
     (let extra = (if WallClockSeconds r > 0
        then ''  wall='' @ fmtF 1 (WallClockSeconds r) @ ''s  spans/sec_wall='' @ fmtF 1 (SpansPerSecondWall r) else [])
      in ''  '' @ pad_right 12 (Path r) @ '' n='' @ pad_right 6 (format_int (N r)) @ ''  p50='' @ fmtF 2 (P50Ms r)
         @ '' ms  p99='' @ fmtF 2 (P99Ms r) @ '' ms  avg='' @ fmtF 2 (AvgMs r) @ '' ms  spans/sec_avg=''
         @ fmtF 1 (SpansPerSecond r) @ extra)"

definition source_line :: "string \<Rightarrow> ((string, int) gomap \<Rightarrow> string) \<Rightarrow> mergedSource \<Rightarrow> string option" where
  "source_line dots fmtMap s = (if length (msSHA256 s) < 12 then None
     else Some (''  '' @ msFile s @ ''  sha256='' @ take 12 (msSHA256 s) @ dots @ ''  '' @ fmtMap (msNByPath s)))"

definition merge_summary ::
  "(nat \<Rightarrow> real \<Rightarrow> string) \<Rightarrow> string \<Rightarrow> string \<Rightarrow> ((string, int) gomap \<Rightarrow> string) \<Rightarrow> string list \<Rightarrow> string \<Rightarrow> bool
     \<Rightarrow> mergedFile \<Rightarrow> string list option" where
  "merge_summary fmtF arrow dots fmtMap files out summaryOnly m =
     map_option (\<lambda>ls. [''Merged '' @ digits_of (length files) @ '' chunks '' @ arrow @ '' '' @ out, ''Effective n per path:'']
         @ map (summary_line fmtF) (mResults m) @ ls)
       (if summaryOnly
        then map_option (\<lambda>ls. [[], ''Merged from:''] @ ls)
          (range_loop (\<lambda>s ls. map_option (\<lambda>l. ls @ [l]) (source_line dots fmtMap s)) (mMergedFrom m) [])
        else Some [])"

subsection \<open>The accumulating maps describe the rows read so far\<close>

lemma map_get_update [simp]:
  "map_get z (AList.update k v m) k' = (if k' = k then v else map_get z m k')"
  by (simp add: map_get_def update_conv')

lemma map_get_Nil [simp]: "map_get z [] k = z"
  by (simp add: map_get_def)

lemma map_get_Cons [simp]: "map_get z ((k', v) # m) k = (if k = k' then v else map_get z m k)"
  by (simp add: map_get_def)

lemma keys_update [simp]: "fst ` set (AList.update k v m) = insert k (fst ` set m)"
  by (induction m) auto

abbreviation rows_of :: "string \<Rightarrow> PathResult list \<Rightarrow> PathResult list" where
  "rows_of p rows \<equiv> filter (\<lambda>r. Path r = p) rows"

definition acc_ok :: "PathResult list \<Rightarrow> path_acc \<Rightarrow> bool" where
  "acc_ok rows a \<longleftrightarrow> distinct (pathOrder a) \<and> set (pathOrder a) = Path ` set rows
     \<and> fst ` set (pathSamples a) = Path ` set rows
     \<and> (\<forall>p. map_get [] (pathSamples a) p = concat (map Samples (rows_of p rows)))
     \<and> (\<forall>r \<in> set rows. map_get 0 (pathSpans a) (Path r) = SpansPerCall r)"

definition status_ok :: "PathResult list \<Rightarrow> path_acc \<Rightarrow> bool" where
  "status_ok rows a \<longleftrightarrow>
     (\<forall>p. p \<notin> Path ` set rows \<longrightarrow> map_get [] (pathStatus a) p = [])
     \<and> (\<forall>r \<in> set rows. \<not> isWorseStatus (Status r) (map_get [] (pathStatus a) (Path r)))
     \<and> (\<forall>r \<in> set rows. map_get [] (pathStatus a) (Path r) \<in> Status ` set (rows_of (Path r) rows))"

lemma merge_row_fields:
  assumes "merge_row r a = Inr a'"
  shows "pathOrder a' = (if Path r \<in> fst ` set (pathSamples a) then pathOrder a else pathOrder a @ [Path r])"
    "pathSpans a' = (if Path r \<in> fst ` set (pathSamples a) then pathSpans a
       else AList.update (Path r) (SpansPerCall r) (pathSpans a))"
    "pathSamples a' = AList.update (Path r) (map_get [] (pathSamples a) (Path r) @ Samples r) (pathSamples a)"
    "map_get 0 (pathSpans a') (Path r) = SpansPerCall r"
  using assms by (simp_all add: merge_row_def Let_def split: if_splits) auto

lemma acc_ok_row:
  assumes "acc_ok rows a" "merge_row r a = Inr a'"
  shows "acc_ok (rows @ [r]) a'"
proof -
  note f = merge_row_fields [OF assms(2)]
  have "SpansPerCall q = map_get 0 (pathSpans a') (Path q)" if "q \<in> set (rows @ [r])" for q
    using that assms(1) f(2,4) by (cases "Path r \<in> Path ` set rows") (auto simp: acc_ok_def image_iff)
  then show ?thesis
    using assms(1) f(1,3) by (auto simp: acc_ok_def)
qed

lemma status_rank_Nil [simp]: "status_rank [] = 0"
  by (simp add: status_rank_def)

lemma status_ok_row:
  assumes "status_ok rows a" "merge_row r a = Inr a'"
  shows "status_ok (rows @ [r]) a'"
proof -
  let ?old = "map_get [] (pathStatus a)" and ?new = "map_get [] (pathStatus a')"
  have new: "?new p = (if p = Path r \<and> (?old p = [] \<or> isWorseStatus (Status r) (?old p))
      then Status r else ?old p)" for p
    using assms(2) by (auto simp: merge_row_def Let_def split: if_splits)
  have up: "status_rank (?old p) \<le> status_rank (?new p)" "status_rank (Status r) \<le> status_rank (?new (Path r))" for p
    unfolding new by (auto simp: isWorseStatus_def)
  have "?new p = []" if "p \<notin> Path ` set (rows @ [r])" for p
    using that assms(1) by (simp add: new status_ok_def)
  moreover have "\<not> isWorseStatus (Status q) (?new (Path q))" if "q \<in> set (rows @ [r])" for q
    using that assms(1) up(1) [of "Path q"] up(2) by (fastforce simp: status_ok_def isWorseStatus_def)
  moreover have "?new (Path q) \<in> Status ` set (rows_of (Path q) (rows @ [r]))" if "q \<in> set (rows @ [r])" for q
    using that assms(1) new [of "Path q"]
    by (cases "Path q \<in> Path ` set rows") (force simp: status_ok_def)+
  ultimately show ?thesis by (simp add: status_ok_def)
qed

lemma merge_rows_ok:
  assumes "merge_rows rs a = Inr a'" "acc_ok done a" "status_ok done a"
  shows "acc_ok (done @ rs) a' \<and> status_ok (done @ rs) a'"
  using assms
proof (induction rs arbitrary: a "done")
  case (Cons r rs)
  then obtain a1 where a1: "merge_row r a = Inr a1" "merge_rows rs a1 = Inr a'"
    by (auto split: sum.splits)
  then show ?case
    using Cons.IH [OF a1(2), of "done @ [r]"] acc_ok_row status_ok_row Cons.prems by simp
qed simp

lemma merge_rows_from_empty:
  "merge_rows rows empty_acc = Inr a \<Longrightarrow> acc_ok rows a \<and> status_ok rows a"
  using merge_rows_ok [of rows empty_acc a "[]"]
  by (simp add: acc_ok_def status_ok_def empty_acc_def)

lemma mergeChunksE:
  assumes "mergeChunks io files chunks hashes = Some (Inr (out, notes))"
  obtains a where "merge_rows (concat (map cResults chunks)) empty_acc = Inr a"
    "mResults out = map (merge_path (concat (map cResults chunks)) a) (pathOrder a)"
  using assms by (auto simp: mergeChunks_def Let_def split: list.splits option.splits sum.splits)

subsection \<open>A merged result is the result of one run\<close>

text \<open>The failures of one run that made all the attempts behind \<open>rows\<close>.\<close>

definition pooled_failures :: "PathResult list \<Rightarrow> FailureBreakdown" where
  "pooled_failures rows = \<lparr>fbTimeouts = i64 (sum_list (map Timeouts rows)),
     fbNonOK = i64 (sum_list (map NonOK rows)), fbOtherErrors = i64 (sum_list (map OtherErrors rows)),
     fbFailedSamples = concat (map FailedSamples rows),
     fbLast = last ([] # filter (\<lambda>m. m \<noteq> []) (map LastFailureMsg rows))\<rparr>"

text \<open>What a result says about latencies and failures: everything but the raw samples, the UDP
  counters and the wall clock.\<close>

definition figures :: "PathResult \<Rightarrow> PathResult" where
  "figures r = r\<lparr>Samples := [], UDPSent := 0, UDPAcked := 0, UDPRetransmits := 0, UDPDropped := 0,
     WallClockSeconds := 0, SpansPerSecondWall := 0\<rparr>"

lemma i64_add_i64 [simp]: "i64 (i64 x + y) = i64 (x + y)"
proof -
  have "i64 x + y + 2 ^ 63 = (x + 2 ^ 63) mod 2 ^ 64 + y" unfolding i64_def by linarith
  then have "(i64 x + y + 2 ^ 63) mod 2 ^ 64 = (x + 2 ^ 63 + y) mod 2 ^ 64"
    by (simp only: mod_add_left_eq)
  also have "x + 2 ^ 63 + y = x + y + 2 ^ 63" by linarith
  finally show ?thesis by (simp add: i64_def)
qed

lemma fold_rows_of: "(\<And>r x. Path r \<noteq> p \<Longrightarrow> f r x = x) \<Longrightarrow> fold f rows x = fold f (rows_of p rows) x"
  by (induction rows arbitrary: x) auto

lemma pooled_failures_snoc:
  "pooled_failures (rows @ [r]) = add_failures (Path r) r (pooled_failures rows)"
  by (simp add: pooled_failures_def add_failures_def Let_def)

lemma add_failures_pooled:
  "fold (add_failures p) rows no_failures = pooled_failures (rows_of p rows)"
proof -
  have "fold (add_failures p) (rows_of p rows) no_failures = pooled_failures (rows_of p rows)"
  proof (induction rows rule: rev_induct)
    case Nil
    then show ?case by (simp add: pooled_failures_def no_failures_def i64_def)
  qed (simp add: pooled_failures_snoc)
  moreover have "fold (add_failures p) rows no_failures = fold (add_failures p) (rows_of p rows) no_failures"
    by (rule fold_rows_of) (simp add: add_failures_def)
  ultimately show ?thesis by simp
qed

lemma add_counters_sum:
  "fold (add_counters p) rows (r, w) =
     (r\<lparr>UDPSent := UDPSent r + sum_list (map UDPSent (rows_of p rows)),
        UDPAcked := UDPAcked r + sum_list (map UDPAcked (rows_of p rows)),
        UDPRetransmits := UDPRetransmits r + sum_list (map UDPRetransmits (rows_of p rows)),
        UDPDropped := UDPDropped r + sum_list (map UDPDropped (rows_of p rows))\<rparr>,
      w + sum_list (map WallClockSeconds (rows_of p rows)))"
  by (induction rows arbitrary: r w) (simp_all add: add_counters_def add.assoc)

lemma SetWallClock_fields [simp]:
  "figures (SetWallClockSeconds w r) = figures r" "Path (SetWallClockSeconds w r) = Path r"
  "UDPSent (SetWallClockSeconds w r) = UDPSent r" "UDPAcked (SetWallClockSeconds w r) = UDPAcked r"
  "UDPRetransmits (SetWallClockSeconds w r) = UDPRetransmits r"
  "UDPDropped (SetWallClockSeconds w r) = UDPDropped r"
  by (simp_all add: SetWallClockSeconds_def figures_def Let_def)

lemma figures_counters [simp]:
  "figures (r\<lparr>UDPSent := a, UDPAcked := b, UDPRetransmits := c, UDPDropped := d\<rparr>) = figures r"
  "figures (r\<lparr>Samples := xs\<rparr>) = figures r"
  by (simp_all add: figures_def)

lemma merge_path_counters:
  fixes rows :: "PathResult list" and a :: path_acc and p :: string
  defines "r \<equiv> merge_path rows a p"
  shows "Path r = p" "UDPSent r = sum_list (map UDPSent (rows_of p rows))"
    "UDPAcked r = sum_list (map UDPAcked (rows_of p rows))"
    "UDPRetransmits r = sum_list (map UDPRetransmits (rows_of p rows))"
    "UDPDropped r = sum_list (map UDPDropped (rows_of p rows))"
  by (simp_all add: r_def merge_path_def Let_def add_counters_sum)

lemma merge_path_figures:
  assumes "map_get [] (pathStatus a) p \<in> {[], ''PASS'', ''PASS_WITH_FAILURES''}"
  shows "figures (merge_path rows a p)
    = figures (SummarizeWithFailures p (map_get [] (pathSamples a) p)
        (pooled_failures (rows_of p rows)) (map_get 0 (pathSpans a) p))"
  using assms by (auto simp: merge_path_def Let_def add_counters_sum add_failures_pooled)

lemma rows_of_map: "distinct ps \<Longrightarrow> p \<in> set ps \<Longrightarrow> (\<And>q. Path (f q) = q) \<Longrightarrow> rows_of p (map f ps) = [f p]"
proof (induction ps)
  case (Cons q ps)
  moreover have "rows_of p (map f ps) = []" if "p \<notin> set ps"
    using that Cons.prems(3) by (induction ps) auto
  ultimately show ?case by auto
qed simp

lemma acc_okD: "acc_ok all a \<Longrightarrow> q \<in> set (rows_of p all) \<Longrightarrow> map_get 0 (pathSpans a) p = SpansPerCall q"
  "acc_ok all a \<Longrightarrow> map_get [] (pathSamples a) p = concat (map Samples (rows_of p all))"
  by (auto simp: acc_ok_def)

lemma status_okD:
  assumes "status_ok all a" "q \<in> set (rows_of p all)"
  shows "map_get [] (pathStatus a) p \<in> Status ` set (rows_of p all)"
    "\<not> isWorseStatus (Status q) (map_get [] (pathStatus a) p)"
  using assms by (auto simp: status_ok_def)

lemma merged_row:
  assumes "mergeChunks io files chunks hashes = Some (Inr (out, notes))"
    and "p \<in> Path ` set (concat (map cResults chunks))"
  obtains a where "acc_ok (concat (map cResults chunks)) a" "status_ok (concat (map cResults chunks)) a"
    "rows_of p (mResults out) = [merge_path (concat (map cResults chunks)) a p]"
proof -
  obtain a where a: "merge_rows (concat (map cResults chunks)) empty_acc = Inr a"
    "mResults out = map (merge_path (concat (map cResults chunks)) a) (pathOrder a)"
    using mergeChunksE [OF assms(1)] .
  from merge_rows_from_empty [OF a(1)]
  have ok: "acc_ok (concat (map cResults chunks)) a" "status_ok (concat (map cResults chunks)) a" by simp_all
  have "rows_of p (mResults out) = [merge_path (concat (map cResults chunks)) a p]"
    using ok(1) assms(2) unfolding a(2)
    by (intro rows_of_map) (simp_all add: acc_ok_def merge_path_counters(1))
  with ok show thesis by (rule that)
qed

text \<open>Property C31. Merging chunks of a path that all passed gives exactly one result for the
  path, and it has the figures of one run that took all the samples (in any order) and had all
  the failures of the chunks: every percentile, the average, the counts, the failure rate and
  the status agree. The UDP counters are the sums over the chunks.\<close>

theorem merge_is_single_run:
  assumes "mergeChunks io files chunks hashes = Some (Inr (out, notes))"
    and "rows = rows_of p (concat (map cResults chunks))" "rows \<noteq> []"
    and "\<forall>q \<in> set rows. Status q = ''PASS'' \<or> Status q = ''PASS_WITH_FAILURES''"
    and "mset samples = mset (concat (map Samples rows))"
  shows "\<exists>r. rows_of p (mResults out) = [r]
    \<and> figures r = figures (SummarizeWithFailures p samples (pooled_failures rows) (SpansPerCall (hd rows)))
    \<and> UDPSent r = sum_list (map UDPSent rows) \<and> UDPAcked r = sum_list (map UDPAcked rows)
    \<and> UDPRetransmits r = sum_list (map UDPRetransmits rows) \<and> UDPDropped r = sum_list (map UDPDropped rows)"
proof -
  let ?all = "concat (map cResults chunks)"
  have hd: "hd rows \<in> set ?all" "Path (hd rows) = p"
    using assms(2) hd_in_set [OF assms(3)] by auto
  then obtain a where a: "acc_ok ?all a" "status_ok ?all a" "rows_of p (mResults out) = [merge_path ?all a p]"
    using merged_row [OF assms(1), of p] by blast
  have "map_get [] (pathStatus a) p \<in> Status ` set rows"
    using status_okD(1) [OF a(2)] hd_in_set [OF assms(3)] unfolding assms(2) .
  then have "map_get [] (pathStatus a) p \<in> {[], ''PASS'', ''PASS_WITH_FAILURES''}" using assms(4) by auto
  note f = merge_path_figures [OF this, of ?all]
  have "figures (SummarizeWithFailures p (concat (map Samples rows)) fb s)
      = figures (SummarizeWithFailures p samples fb s)" for fb s
    using summary_order_free [OF assms(5)] by simp
  moreover have "map_get [] (pathSamples a) p = concat (map Samples rows)" "map_get 0 (pathSpans a) p = SpansPerCall (hd rows)"
    using acc_okD [OF a(1)] hd_in_set [OF assms(3)] unfolding assms(2) by blast+
  ultimately have "figures (merge_path ?all a p)
      = figures (SummarizeWithFailures p samples (pooled_failures rows) (SpansPerCall (hd rows)))"
    using f by (simp add: assms(2))
  then show ?thesis using a(3) merge_path_counters [where rows = ?all and a = a and p = p] assms(2) by simp
qed

text \<open>Property C32. A failed chunk is never masked: when some chunk reports a failure for a path
  (a dial, handshake, timeout or no-data status), the merged result carries the status of one of
  the chunks of this path, and no chunk has a worse one.\<close>

theorem merge_keeps_worst_status:
  assumes "mergeChunks io files chunks hashes = Some (Inr (out, notes))"
    and "rows = rows_of p (concat (map cResults chunks))"
    and "q \<in> set rows" "take 4 (Status q) = ''FAIL''"
  shows "\<exists>r. rows_of p (mResults out) = [r] \<and> Status r \<in> Status ` set rows
    \<and> (\<forall>row \<in> set rows. \<not> isWorseStatus (Status row) (Status r))"
proof -
  let ?all = "concat (map cResults chunks)"
  have q: "q \<in> set ?all" "Path q = p" using assms(2,3) by auto
  then obtain a where a: "acc_ok ?all a" "status_ok ?all a" "rows_of p (mResults out) = [merge_path ?all a p]"
    using merged_row [OF assms(1), of p] by blast
  let ?st = "map_get [] (pathStatus a) p"
  have st: "?st \<in> Status ` set rows" "\<forall>row \<in> set rows. \<not> isWorseStatus (Status row) ?st"
    using status_okD [OF a(2)] assms(3) unfolding assms(2) by blast+
  have "2 \<le> status_rank (Status q)" using assms(4) by (auto simp: status_rank_def)
  moreover have "\<not> isWorseStatus (Status q) ?st" using st(2) assms(3) by blast
  ultimately have "2 \<le> status_rank ?st" by (simp add: isWorseStatus_def)
  then have "?st \<noteq> []" "?st \<noteq> ''PASS''" "?st \<noteq> ''PASS_WITH_FAILURES''" by (auto simp: status_rank_def)
  then have "Status (merge_path ?all a p) = ?st" by (simp add: merge_path_def Let_def case_prod_unfold)
  with a(3) st show ?thesis by auto
qed

subsection \<open>What the merger refuses\<close>

lemma check_chunks_pass:
  "check_chunks files first i cs = Some None \<Longrightarrow> c \<in> set cs \<Longrightarrow> cSpansPerCall c = cSpansPerCall first
     \<and> (cBenchMode first \<noteq> [] \<longrightarrow> cBenchMode c = [] \<or> cBenchMode c = cBenchMode first)"
  by (induction cs arbitrary: i) (auto split: if_splits)

text \<open>A merge that succeeds pooled chunks of one batch size, and when the first
  chunk names its bench mode, no chunk of another named mode is among them.\<close>

theorem merge_pools_comparable_runs:
  assumes "mergeChunks io files chunks hashes = Some (Inr (out, notes))" "c \<in> set chunks"
  shows "cSpansPerCall c = mSpansPerCall out
    \<and> (mBenchMode out \<noteq> [] \<longrightarrow> cBenchMode c = [] \<or> cBenchMode c = mBenchMode out)"
proof -
  obtain first rest where c: "chunks = first # rest" using assms(2) by (cases chunks) auto
  then have "check_chunks files first 1 rest = Some None" "mSpansPerCall out = cSpansPerCall first"
    "mBenchMode out = cBenchMode first"
    using assms(1) by (auto simp: mergeChunks_def Let_def split: option.splits sum.splits)
  then show ?thesis using check_chunks_pass [of files first 1 rest c] assms(2) c by auto
qed

subsection \<open>Sample merges\<close>

definition sample_io :: merge_io where
  "sample_io = \<lparr>mioGlob = (\<lambda>_. Inr []), mioReadFile = (\<lambda>_. Inr []), mioSha256Hex = (\<lambda>_. ''00''),
     mioUnmarshal = (\<lambda>_. Inl ''eof''), mioNowRFC3339 = ''2026-01-01T00:00:00Z''\<rparr>"

definition sample_chunk :: "string \<Rightarrow> PathResult \<Rightarrow> chunkFile" where
  "sample_chunk mode r = \<lparr>cGeneratedAt = ''2026-01-01T00:00:00Z'', cSpansPerCall = 5, cIterations = 2, cWarmup = 0,
     cTenant = ''t'', cBenchMode = mode, cResults = [r]\<rparr>"

abbreviation sample_run :: "real list \<Rightarrow> PathResult" where
  "sample_run xs \<equiv> SummarizeWithFailures ''udp'' xs no_failures 5"

lemmas merge_eval = mergeChunks_def merge_sources_def merge_row_def empty_acc_def sample_chunk_def Let_def

lemma Total_no_failures [simp]: "Total no_failures = 0"
  by (simp add: Total_def no_failures_def i64_def)

lemma sample_merge:
  "\<exists>out notes. mergeChunks sample_io [''a'', ''b''] [sample_chunk ''tuned'' (sample_run [2, 1]), sample_chunk ''tuned'' (sample_run xs)]
     [''00'', ''01''] = Some (Inr (out, notes))"
  by (simp add: merge_eval)

theorem merge_is_single_run_witness:
  "\<exists>out notes r. mergeChunks sample_io [''a'', ''b''] [sample_chunk ''tuned'' (sample_run [2, 1]), sample_chunk ''tuned'' (sample_run [3])]
     [''00'', ''01''] = Some (Inr (out, notes)) \<and> rows_of ''udp'' (mResults out) = [r]
   \<and> figures r = figures (SummarizeWithFailures ''udp'' [1, 2, 3]
       (pooled_failures [sample_run [2, 1], sample_run [3]]) 5)"
proof -
  obtain out ns where m: "mergeChunks sample_io [''a'', ''b''] [sample_chunk ''tuned'' (sample_run [2, 1]), sample_chunk ''tuned'' (sample_run [3])]
     [''00'', ''01''] = Some (Inr (out, ns))" using sample_merge by blast
  have "\<exists>r. rows_of ''udp'' (mResults out) = [r]
    \<and> figures r = figures (SummarizeWithFailures ''udp'' [1, 2, 3] (pooled_failures [sample_run [2, 1], sample_run [3]]) 5)"
    using merge_is_single_run [OF m refl, of "''udp''" "[1, 2, 3]"]
    by (auto simp: sample_chunk_def status_hierarchy)
  then show ?thesis using m by blast
qed

theorem merge_keeps_worst_status_witness:
  "\<exists>out notes r. mergeChunks sample_io [''a'', ''b''] [sample_chunk ''tuned'' (sample_run [2, 1]), sample_chunk ''tuned'' (sample_run [])]
     [''00'', ''01''] = Some (Inr (out, notes)) \<and> rows_of ''udp'' (mResults out) = [r] \<and> Status r = ''FAIL_NO_DATA''"
proof -
  obtain out ns where m: "mergeChunks sample_io [''a'', ''b''] [sample_chunk ''tuned'' (sample_run [2, 1]), sample_chunk ''tuned'' (sample_run [])]
     [''00'', ''01''] = Some (Inr (out, ns))" using sample_merge by blast
  have "\<exists>r. rows_of ''udp'' (mResults out) = [r] \<and> Status r = ''FAIL_NO_DATA''"
    using merge_keeps_worst_status [OF m refl, of "sample_run []" "''udp''"]
    by (auto simp: sample_chunk_def status_hierarchy isWorseStatus_def status_rank_def)
  then show ?thesis using m by blast
qed

theorem merge_pools_comparable_runs_witness:
  "\<exists>out notes. mergeChunks sample_io [''a'', ''b''] [sample_chunk ''tuned'' (sample_run [2, 1]), sample_chunk ''tuned'' (sample_run [3])]
     [''00'', ''01''] = Some (Inr (out, notes)) \<and> mSpansPerCall out = 5"
proof -
  obtain out ns where m: "mergeChunks sample_io [''a'', ''b''] [sample_chunk ''tuned'' (sample_run [2, 1]), sample_chunk ''tuned'' (sample_run [3])]
     [''00'', ''01''] = Some (Inr (out, ns))" using sample_merge by blast
  show ?thesis using merge_pools_comparable_runs [OF m, of "sample_chunk ''tuned'' (sample_run [3])"] m
    by (auto simp: sample_chunk_def)
qed

text \<open>The modes are compared with the first chunk's only: when that chunk names none, a
  standard-baseline and a tuned run are pooled.\<close>

lemma merge_mixes_modes:
  "\<exists>out notes. mergeChunks sample_io [''a'', ''b'', ''c''] [sample_chunk [] (sample_run [1]),
     sample_chunk ''standard-baseline'' (sample_run [2]), sample_chunk ''tuned'' (sample_run [3])]
     [''00'', ''01'', ''02''] = Some (Inr (out, notes)) \<and> notes = []"
  by (simp add: merge_eval missing_notes_def uniqueStrings_def add_string_def status_hierarchy
      isWorseStatus_def status_rank_def i64_def)

subsection \<open>The command as a whole\<close>

lemma fold_add_file:
  "distinct acc \<Longrightarrow> distinct (fold add_file fs acc) \<and> set (fold add_file fs acc) = set acc \<union> set fs"
  by (induction fs arbitrary: acc) (auto simp: add_file_def)

lemma resolveChunkFiles_ok:
  assumes "resolveChunkFiles io glob args = Inr files"
  shows "sorted files \<and> distinct files \<and> set args \<subseteq> set files"
proof -
  obtain ms where "(if glob \<noteq> [] then mioGlob io glob else Inr []) = Inr ms"
    "files = sort (fold add_file args (fold add_file ms []))"
    using assms unfolding resolveChunkFiles_def by (auto split: sum.splits)
  moreover have "distinct (fold add_file ms [])" using fold_add_file [of "[]" ms] by simp
  ultimately show ?thesis using fold_add_file [of "fold add_file ms []" args] by simp
qed

lemma read_chunks_length: "read_chunks io fs = Inr chs \<Longrightarrow> length chs = length fs"
  by (induction fs arbitrary: chs) (auto split: sum.splits)

lemma check_chunks_no_panic: "i + length cs \<le> length files \<Longrightarrow> check_chunks files first i cs \<noteq> None"
  by (induction cs arbitrary: i) auto

lemma mergeChunks_no_panic:
  assumes "length chunks = length files" "length hashes = length files"
  shows "mergeChunks io files chunks hashes \<noteq> None"
proof (cases chunks)
  case (Cons first rest)
  then have "check_chunks files first 1 rest \<noteq> None" using assms check_chunks_no_panic [of 1 rest files first] by simp
  moreover have "merge_sources files chunks hashes \<noteq> None" using assms by (simp add: merge_sources_def)
  ultimately show ?thesis
    using Cons by (auto simp: mergeChunks_def Let_def split: option.split sum.split)
qed (simp add: mergeChunks_def)

text \<open>The command never panics. What it writes is the merge of at least two different files, each a
  readable chunk, taken in sorted order; in strict mode there was no warning.\<close>

lemma merge_main_no_panic: "merge_main io createErr encodeErr out glob args keep strict \<noteq> None"
proof -
  have "mergeChunks io files (map fst chs) (map snd chs) \<noteq> None" if "read_chunks io files = Inr chs" for files chs
    using read_chunks_length [OF that] by (intro mergeChunks_no_panic) simp_all
  then show ?thesis
    by (fastforce simp: merge_main_def Let_def split: sum.split option.split)
qed

lemma merge_main_output:
  assumes "merge_main io createErr encodeErr out glob args keep strict = Some (Inr f)"
  shows "\<exists>files chs m ws. sorted files \<and> distinct files \<and> 2 \<le> length files \<and> read_chunks io files = Inr chs
    \<and> mergeChunks io files (map fst chs) (map snd chs) = Some (Inr (m, ws)) \<and> (strict \<longrightarrow> ws = [])
    \<and> f\<lparr>mResults := mResults m\<rparr> = m \<and> map Path (mResults f) = map Path (mResults m)"
  using assms
  by (fastforce simp: merge_main_def Let_def comp_def split: if_splits sum.splits option.splits
      dest: resolveChunkFiles_ok)

end
