(* ===== verification/Ingest_Bench.thy ===== *)
theory Ingest_Bench
  imports Bench_Merge Shim Lifecycle
begin

section \<open>The ingest bench (cmd/eo-ingest-bench/main.go)\<close>

text \<open>
  The load generator that times the three ingest paths, from its flags to the file it writes. A run
  is described by what its attempts met: for HTTP and gRPC the outcome of every request, for
  AgenticUDP the outcome of every connection attempt of the modelled client and of every \<open>SendCycle\<close>
  together with the counters the bench reads from the client while the client's own goroutines run.
  The fixed text of the footer and of the flags is left out. Random bytes and the clock are arguments.

  The lemmas show that no attempt of an HTTP or gRPC run is lost, that the drain loops end once
  the clock advances, that the UDP path counts unacknowledged datagrams as further attempts, and that
  the written file is one the chunk merger accepts.
\<close>

subsection \<open>Flags\<close>

fun split_csv :: "string \<Rightarrow> string \<Rightarrow> string list" where
  "split_csv cur [] = (if cur \<noteq> [] then [cur] else [])"
| "split_csv cur (c # cs) =
     (if c = CHR '','' \<or> c = CHR '' '' then (if cur \<noteq> [] then cur # split_csv [] cs else split_csv cur cs)
      else split_csv (cur @ [c]) cs)"

definition splitCSV :: "string \<Rightarrow> string list" where
  "splitCSV s = split_csv [] s"

fun enable_paths :: "string list \<Rightarrow> string list \<Rightarrow> string + string list" where
  "enable_paths [] enabled = Inr enabled"
| "enable_paths (t # ts) enabled =
     (if t \<notin> {''http'', ''grpc'', ''udp''} then Inl t else enable_paths ts (List.insert t enabled))"

text \<open>The error carries the offending token, empty for an empty flag. The map of enabled paths is
  the list of its true keys.\<close>

definition parsePathsFlag :: "string \<Rightarrow> string + string list" where
  "parsePathsFlag s = (let tokens = splitCSV (to_lower s)
     in if length tokens = 0 then Inl [] else enable_paths tokens [])"

subsection \<open>Classifying errors\<close>

record bench_err =
  beDeadline :: bool
  beUrlTimeout :: bool
  beGrpcCode :: "nat option"
  beMsg :: string

definition classifyHTTPError :: "bench_err option \<Rightarrow> bool \<times> bool" where
  "classifyHTTPError err = (case err of
     None \<Rightarrow> (False, False)
   | Some e \<Rightarrow>
       if beDeadline e then (True, False)
       else if beUrlTimeout e then (True, False)
       else if contains ''Client.Timeout exceeded'' (beMsg e) \<or> contains ''context deadline exceeded'' (beMsg e)
         then (True, False)
       else if take 5 (beMsg e) = ''http '' then (False, True)
       else (False, False))"

text \<open>gRPC status codes: 0 is OK, 4 is DeadlineExceeded.\<close>

definition classifyGRPCError :: "bench_err option \<Rightarrow> bool \<times> bool" where
  "classifyGRPCError err = (case err of
     None \<Rightarrow> (False, False)
   | Some e \<Rightarrow> (case beGrpcCode e of
       None \<Rightarrow> if beDeadline e then (True, False) else (False, False)
     | Some code \<Rightarrow> if code = 4 then (True, False) else if code = 0 then (False, False) else (False, True)))"

subsection \<open>Tallying attempts\<close>

record bench_acc =
  baSamples :: "real list"
  baFailed :: "real list"
  baFb :: FailureBreakdown

definition no_attempts :: bench_acc where
  "no_attempts = \<lparr>baSamples = [], baFailed = [],
     baFb = \<lparr>fbTimeouts = 0, fbNonOK = 0, fbOtherErrors = 0, fbFailedSamples = [], fbLast = []\<rparr>\<rparr>"

definition millis :: "duration \<Rightarrow> real" where
  "millis d = of_int (microseconds d) / 1000"

definition failed_sample :: "duration \<Rightarrow> bench_acc \<Rightarrow> bench_acc" where
  "failed_sample d a = (if d > 0 then a\<lparr>baFailed := baFailed a @ [millis d]\<rparr> else a)"

definition good_sample :: "duration \<Rightarrow> bench_acc \<Rightarrow> bench_acc" where
  "good_sample d a = a\<lparr>baSamples := baSamples a @ [millis d]\<rparr>"

definition count_failure :: "bool \<times> bool \<Rightarrow> FailureBreakdown \<Rightarrow> FailureBreakdown" where
  "count_failure cls fb = (case cls of (timeout, nonOK) \<Rightarrow>
     if timeout then fb\<lparr>fbTimeouts := i64 (fbTimeouts fb + 1)\<rparr>
     else if nonOK then fb\<lparr>fbNonOK := i64 (fbNonOK fb + 1)\<rparr>
     else fb\<lparr>fbOtherErrors := i64 (fbOtherErrors fb + 1)\<rparr>)"

text \<open>One round of the loops of \<open>runHTTP\<close> and \<open>runGRPC\<close>, which differ in the classifier.\<close>

definition tally :: "(bench_err option \<Rightarrow> bool \<times> bool) \<Rightarrow> duration \<times> bench_err option \<Rightarrow> bench_acc \<Rightarrow> bench_acc" where
  "tally classify attempt a = (case attempt of
     (d, None) \<Rightarrow> good_sample d a
   | (d, Some e) \<Rightarrow>
       let a = a\<lparr>baFb := count_failure (classify (Some e)) ((baFb a)\<lparr>fbLast := beMsg e\<rparr>)\<rparr>
       in failed_sample d a)"

subsection \<open>Payloads\<close>

text \<open>\<open>rand.Read\<close> fills the buffer or fails (\<open>None\<close>); the fallback reads the clock for every byte.\<close>

definition randBytes :: "bytes option \<Rightarrow> (nat \<Rightarrow> gotime) \<Rightarrow> nat \<Rightarrow> bytes" where
  "randBytes filled clock n = (case filled of
     Some b \<Rightarrow> b
   | None \<Rightarrow> map (\<lambda>i. of_int ((clock i + int i) mod 256)) [0..<n])"

text \<open>\<open>rnd i n\<close> is the result of the \<open>i\<close>-th call of \<open>randBytes(n)\<close>.\<close>

definition buildOTLPRequest :: "u64 \<Rightarrow> (nat \<Rightarrow> nat \<Rightarrow> bytes) \<Rightarrow> nat \<Rightarrow> string \<Rightarrow> ResourceSpans option list" where
  "buildOTLPRequest now rnd n serviceName =
     [Some \<lparr>rsResource = [Some (''service.name'', StringValue serviceName)],
        rsScopeSpans = [Some \<lparr>ssScopeName = ''eo-ingest-bench'', ssSpans = map (\<lambda>i.
          Some \<lparr>spTraceId = rnd (2 * i) 16, spSpanId = rnd (2 * i + 1) 8, spParentSpanId = [], spName = ''bench-span'',
            spKind = 1, spStart = now, spEnd = now + 15000000, spStatus = None, spAttributes = []\<rparr>) [0..<n]\<rparr>]\<rparr>]"

definition buildStorageTracesJSON ::
  "(gotime \<Rightarrow> string) \<Rightarrow> gotime \<Rightarrow> (nat \<Rightarrow> nat \<Rightarrow> bytes) \<Rightarrow> nat \<Rightarrow> json list" where
  "buildStorageTracesJSON fmtT now rnd n = map (\<lambda>i. JObj
     [(''trace_id'', JStr (hex_encode (rnd (2 * i) 16))), (''span_id'', JStr (hex_encode (rnd (2 * i + 1) 8))),
      (''parent_span_id'', JStr []), (''service_name'', JStr ''bench-udp''), (''operation_name'', JStr ''bench-span''),
      (''start_time'', JStr (fmtT now)), (''end_time'', JStr (fmtT (now + 15 * millisecond))),
      (''duration_us'', JNum 15000), (''status_code'', JStr ''OK''), (''span_kind'', JStr ''INTERNAL''),
      (''attributes'', JObj [])]) [0..<n]"

subsection \<open>HTTP and gRPC\<close>

text \<open>What the network answers: marshalling, building a request, and the outcome of the \<open>i\<close>-th call, an
  error or a status code, with its duration. The clock and the random bytes of the payload of the
  \<open>i\<close>-th attempt come with them.\<close>

record bench_request =
  hqURL :: string
  hqHeaders :: "(string, string) gomap"
  hqBody :: bytes

record bench_http =
  bhNow :: "nat \<Rightarrow> u64"
  bhRnd :: "nat \<Rightarrow> nat \<Rightarrow> nat \<Rightarrow> bytes"
  bhMarshal :: "ResourceSpans option list \<Rightarrow> bench_err + bytes"
  bhNewRequest :: "string \<Rightarrow> bench_err option"
  bhDo :: "nat \<Rightarrow> bench_request \<Rightarrow> duration \<times> (bench_err + nat)"
  bhWall :: "gotime \<times> gotime"

definition otlp_http_request :: "string \<Rightarrow> string \<Rightarrow> string \<Rightarrow> string \<Rightarrow> bytes \<Rightarrow> bench_request" where
  "otlp_http_request url tenant key bearer body =
     \<lparr>hqURL = url,
      hqHeaders = [(''Content-Type'', ''application/x-protobuf''), (''X-Tenant'', tenant)]
        @ (if key \<noteq> [] then [(''X-Api-Key'', key)] else [])
        @ (if bearer \<noteq> [] then [(''Authorization'', ''Bearer '' @ bearer)] else []),
      hqBody = body\<rparr>"

definition send_http ::
  "bench_http \<Rightarrow> string \<Rightarrow> string \<Rightarrow> string \<Rightarrow> string \<Rightarrow> nat \<Rightarrow> nat \<Rightarrow> duration \<times> bench_err option" where
  "send_http io url tenant key bearer spans i =
     (case bhMarshal io (buildOTLPRequest (bhNow io i) (bhRnd io i) spans ''bench-http'') of
        Inl e \<Rightarrow> (0, Some (e\<lparr>beMsg := ''marshal: '' @ beMsg e\<rparr>))
      | Inr body \<Rightarrow> (case bhNewRequest io url of
          Some e \<Rightarrow> (0, Some e)
        | None \<Rightarrow> (case bhDo io i (otlp_http_request url tenant key bearer body) of
            (elapsed, Inl e) \<Rightarrow> (elapsed, Some e)
          | (elapsed, Inr status) \<Rightarrow>
              if status div 100 \<noteq> 2
              then (elapsed, Some \<lparr>beDeadline = False, beUrlTimeout = False, beGrpcCode = None,
                      beMsg = ''http '' @ format_int (int status)\<rparr>)
              else (elapsed, None))))"

text \<open>The attempts of a run are numbered; the first \<open>warmup\<close> are not counted.\<close>

definition runHTTP ::
  "bench_http \<Rightarrow> string \<Rightarrow> string \<Rightarrow> string \<Rightarrow> string \<Rightarrow> nat \<Rightarrow> nat \<Rightarrow> nat \<Rightarrow> PathResult" where
  "runHTTP io serverURL tenant key bearer spans iters warmup = (
     let url = serverURL @ ''/v1/traces'';
         a = fold (\<lambda>i. tally classifyHTTPError (send_http io url tenant key bearer spans i))
               [warmup..<warmup + iters] no_attempts;
         fb = (baFb a)\<lparr>fbFailedSamples := baFailed a\<rparr>;
         r = SummarizeWithFailures ''OTLP HTTP'' (baSamples a) fb (int spans)
     in AttachWallClock (Some (fst (bhWall io))) (Some (snd (bhWall io))) r)"

record bench_grpc =
  bgNow :: "nat \<Rightarrow> u64"
  bgRnd :: "nat \<Rightarrow> nat \<Rightarrow> nat \<Rightarrow> bytes"
  bgDial :: "string \<Rightarrow> bench_err option"
  bgExport :: "nat \<Rightarrow> (string \<times> string) list \<Rightarrow> ResourceSpans option list \<Rightarrow> duration \<times> bench_err option"
  bgWall :: "gotime \<times> gotime"

definition grpc_metadata :: "string \<Rightarrow> string \<Rightarrow> string \<Rightarrow> (string \<times> string) list" where
  "grpc_metadata tenant key bearer = [(''x-tenant'', tenant)]
     @ (if key \<noteq> [] then [(''x-api-key'', key)] else [])
     @ (if bearer \<noteq> [] then [(''authorization'', ''Bearer '' @ bearer)] else [])"

definition send_grpc :: "bench_grpc \<Rightarrow> (string \<times> string) list \<Rightarrow> nat \<Rightarrow> nat \<Rightarrow> duration \<times> bench_err option" where
  "send_grpc io md spans i = bgExport io i md (buildOTLPRequest (bgNow io i) (bgRnd io i) spans ''bench-grpc'')"

definition runGRPC ::
  "bench_grpc \<Rightarrow> string \<Rightarrow> string \<Rightarrow> string \<Rightarrow> string \<Rightarrow> nat \<Rightarrow> nat \<Rightarrow> nat \<Rightarrow> PathResult" where
  "runGRPC io grpcAddr tenant key bearer spans iters warmup = (case bgDial io grpcAddr of
     Some e \<Rightarrow> (empty_result ''OTLP gRPC'' (int spans))
         \<lparr>Status := ''FAIL_DIAL'', Note := beMsg e, LastFailureMsg := beMsg e\<rparr>
   | None \<Rightarrow>
       let md = grpc_metadata tenant key bearer;
           a = fold (\<lambda>i. tally classifyGRPCError (send_grpc io md spans i)) [warmup..<warmup + iters] no_attempts;
           fb = (baFb a)\<lparr>fbFailedSamples := baFailed a\<rparr>;
           r = SummarizeWithFailures ''OTLP gRPC'' (baSamples a) fb (int spans)
       in AttachWallClock (Some (fst (bgWall io))) (Some (snd (bgWall io))) r)"

subsection \<open>AgenticUDP\<close>

text \<open>\<open>connectUDPWithRetry\<close> over the client's own \<open>NewClient\<close>, \<open>Connect\<close> and \<open>Close\<close>; an attempt is what the
  sockets answer. \<open>None\<close> is a panic. With no attempt at all the source returns a nil client and a nil
  error, here \<open>Inl None\<close>.\<close>

record connect_obs =
  coResolveErr :: "string option"
  coDialErr :: "string option"
  coWriteErr :: "string option"
  coRead :: handshake_read

fun connect_loop ::
  "(string \<Rightarrow> string) \<Rightarrow> string \<Rightarrow> string \<Rightarrow> (nat \<Rightarrow> connect_obs) \<Rightarrow> nat \<Rightarrow> nat \<Rightarrow> err option
     \<Rightarrow> (err option + Client) option" where
  "connect_loop env udpAddr tenant att i 0 lastErr = Some (Inl lastErr)"
| "connect_loop env udpAddr tenant att i (Suc n) lastErr =
     (case NewClient env (coResolveErr (att i)) (coDialErr (att i)) udpAddr tenant of
        Inl e \<Rightarrow> connect_loop env udpAddr tenant att (Suc i) n (Some e)
      | Inr cli \<Rightarrow> do {
          (cli, res) \<leftarrow> Connect None (coWriteErr (att i)) (coRead (att i)) cli;
          (case res of
             Inr _ \<Rightarrow> Some (Inr cli)
           | Inl e \<Rightarrow> do {
               _ \<leftarrow> Close cli;
               connect_loop env udpAddr tenant att (Suc i) n (Some e) }) })"

definition connectUDPWithRetry ::
  "(string \<Rightarrow> string) \<Rightarrow> string \<Rightarrow> string \<Rightarrow> (nat \<Rightarrow> connect_obs) \<Rightarrow> nat \<Rightarrow> (err option + Client) option" where
  "connectUDPWithRetry env udpAddr tenant att attempts = connect_loop env udpAddr tenant att 0 attempts None"

text \<open>\<open>sendOne\<close>: the duration, the error of \<open>SendCycle\<close> and the sent counter before and after.\<close>

record send_obs =
  soElapsed :: duration
  soErr :: "string option"
  soBefore :: u64
  soAfter :: u64

definition sendOne :: "send_obs \<Rightarrow> duration \<times> bool \<times> string option" where
  "sendOne o1 = (case soErr o1 of
     Some e \<Rightarrow> (soElapsed o1, False, Some e)
   | None \<Rightarrow> if soAfter o1 = soBefore o1
       then (soElapsed o1, False, Some ''no datagrams sent (payload may be empty)'')
       else (soElapsed o1, True, None))"

definition tally_udp :: "send_obs \<Rightarrow> bench_acc \<Rightarrow> bench_acc" where
  "tally_udp o1 a = (case sendOne o1 of
     (d, ok, Some e) \<Rightarrow>
       failed_sample d (a\<lparr>baFb := (baFb a)\<lparr>fbLast := e, fbOtherErrors := i64 (fbOtherErrors (baFb a) + 1)\<rparr>\<rparr>)
   | (d, False, None) \<Rightarrow> failed_sample d (a\<lparr>baFb := (baFb a)\<lparr>fbTimeouts := i64 (fbTimeouts (baFb a) + 1)\<rparr>\<rparr>)
   | (d, True, None) \<Rightarrow> good_sample d a)"

text \<open>A drain loop: the \<open>i\<close>-th round reads the clock and the number of acknowledged datagrams. The
  result is the round in which it stops; \<open>None\<close> is a loop that never ends.\<close>

partial_function (option) drain_loop :: "(nat \<Rightarrow> gotime \<times> u64) \<Rightarrow> gotime \<Rightarrow> u64 \<Rightarrow> nat \<Rightarrow> nat option" where
  "drain_loop reading deadline target i =
     (if fst (reading i) < deadline
      then if snd (reading i) \<ge> target then Some i else drain_loop reading deadline target (Suc i)
      else Some i)"

text \<open>What the bench observes of a connected client: the outcome of every \<open>SendCycle\<close> of the given
  traces, the clock and the client's counters.\<close>

record udp_obs =
  uoSend :: "nat \<Rightarrow> json list \<Rightarrow> send_obs"
  uoNow :: "nat \<Rightarrow> gotime"
  uoRnd :: "nat \<Rightarrow> nat \<Rightarrow> nat \<Rightarrow> bytes"
  uoWarmSent :: u64
  uoWarmStart :: gotime
  uoWarmDrain :: "nat \<Rightarrow> gotime \<times> u64"
  uoWallStart :: gotime
  uoSentAtStart :: u64
  uoAckedAtStart :: u64
  uoSentAfter :: u64
  uoDrainStart :: gotime
  uoDrain :: "nat \<Rightarrow> gotime \<times> u64"
  uoWallEnd :: gotime
  uoAckedEnd :: u64
  uoSent :: u64
  uoAcked :: u64
  uoRetransmits :: u64
  uoDropped :: u64

text \<open>\<open>%d datagrams unACKed after %v drain\<close>; \<open>fmtD\<close> formats the duration.\<close>

definition unacked_note :: "(duration \<Rightarrow> string) \<Rightarrow> int \<Rightarrow> duration \<Rightarrow> string" where
  "unacked_note fmtD unacked ackTimeout =
     format_int unacked @ '' datagrams unACKed after '' @ fmtD ackTimeout @ '' drain''"

definition unacked_datagrams :: "udp_obs \<Rightarrow> int" where
  "unacked_datagrams ob =
     i64 (sint (uoSentAfter ob - uoSentAtStart ob) - sint (uoAckedEnd ob - uoAckedAtStart ob))"

definition udp_failures :: "(duration \<Rightarrow> string) \<Rightarrow> udp_obs \<Rightarrow> duration \<Rightarrow> bench_acc \<Rightarrow> FailureBreakdown" where
  "udp_failures fmtD ob ackTimeout a = (
     let unacked = unacked_datagrams ob;
         fb = baFb a;
         fb = (if unacked > 0 then
             let fb = fb\<lparr>fbTimeouts := i64 (fbTimeouts fb + unacked)\<rparr>
             in if fbLast fb = [] then fb\<lparr>fbLast := unacked_note fmtD unacked ackTimeout\<rparr> else fb
           else fb)
     in fb\<lparr>fbFailedSamples := baFailed a\<rparr>)"

text \<open>The observations depend on the client that is measured, \<open>ob\<close>, after its configuration.\<close>

record bench_udp =
  buEnv :: "string \<Rightarrow> string"
  buConnect :: "nat \<Rightarrow> connect_obs"
  buObs :: "Client \<Rightarrow> udp_obs"
  buFmtDuration :: "duration \<Rightarrow> string"
  buFmtTime :: "gotime \<Rightarrow> string"

definition udp_attempts :: "bench_udp \<Rightarrow> udp_obs \<Rightarrow> nat \<Rightarrow> nat \<Rightarrow> nat \<Rightarrow> bench_acc" where
  "udp_attempts io ob spans iters warmup =
     fold (\<lambda>i. tally_udp (uoSend ob i (buildStorageTracesJSON (buFmtTime io) (uoNow ob i) (uoRnd ob i) spans)))
       [warmup..<warmup + iters] no_attempts"

definition runUDP ::
  "bench_udp \<Rightarrow> string \<Rightarrow> string \<Rightarrow> nat \<Rightarrow> nat \<Rightarrow> nat \<Rightarrow> duration \<Rightarrow> int \<Rightarrow> PathResult option" where
  "runUDP io udpAddr tenant spans iters warmup ackTimeout baseRetransmitMs = do {
     conn \<leftarrow> connectUDPWithRetry (buEnv io) udpAddr tenant (buConnect io) 3;
     (case conn of
        Inl None \<Rightarrow> None
      | Inl (Some e) \<Rightarrow> Some ((empty_result ''AgenticUDP'' (int spans))
            \<lparr>Status := ''FAIL_HANDSHAKE'', Note := err_msg e, LastFailureMsg := err_msg e\<rparr>)
      | Inr cli \<Rightarrow> do {
          let cli = (if baseRetransmitMs > 0 then SetBaseRTO baseRetransmitMs cli else cli);
          let ob = buObs io cli;
          _ \<leftarrow> drain_loop (uoWarmDrain ob) (uoWarmStart ob + 30 * second) (uoWarmSent ob) 0;
          let a = udp_attempts io ob spans iters warmup;
          let totalMainSent = uoSentAfter ob - uoSentAtStart ob;
          _ \<leftarrow> drain_loop (\<lambda>i. (fst (uoDrain ob i), snd (uoDrain ob i) - uoAckedAtStart ob))
                 (uoDrainStart ob + ackTimeout) totalMainSent 0;
          let fb = udp_failures (buFmtDuration io) ob ackTimeout a;
          let r = SummarizeWithFailures ''AgenticUDP'' (baSamples a) fb (int spans);
          let r = r\<lparr>UDPSent := uoSent ob, UDPAcked := uoAcked ob, UDPRetransmits := uoRetransmits ob,
                    UDPDropped := uoDropped ob\<rparr>;
          Some (AttachWallClock (Some (uoWallStart ob)) (Some (uoWallEnd ob)) r) }) }"

subsection \<open>The whole run and its output\<close>

text \<open>\<open>probeBenchMode\<close>: the status and the decoded \<open>bench_mode\<close> field of the response, if there is one.\<close>

definition probeBenchMode :: "(nat \<times> string option) option \<Rightarrow> string option" where
  "probeBenchMode response = (case response of
     None \<Rightarrow> None
   | Some (status, body) \<Rightarrow> if status div 100 \<noteq> 2 then None
       else (case body of None \<Rightarrow> None | Some mode \<Rightarrow> if mode = [] then None else Some mode))"

definition written_results :: "bool \<Rightarrow> PathResult list \<Rightarrow> PathResult list" where
  "written_results keepSamples results =
     (if keepSamples then results else map (\<lambda>r. r\<lparr>Samples := [], FailedSamples := []\<rparr>) results)"

record bench_flags =
  bfServer :: string
  bfGrpc :: string
  bfUdp :: string
  bfTenant :: string
  bfApiKey :: string
  bfBearer :: string
  bfSpans :: int
  bfIters :: int
  bfWarmup :: int
  bfPaths :: string
  bfAckTimeoutMs :: int
  bfUdpRetransmitMs :: int
  bfJson :: string
  bfKeepSamples :: bool

record bench_env =
  beHttp :: bench_http
  beGrpc :: bench_grpc
  beUdp :: bench_udp
  beProbe :: "(nat \<times> string option) option"
  beNow :: string
  beCreateErr :: "string option"
  beEncodeErr :: "string option"

datatype bench_fatal = CountsNotPositive | PathsFlag string | WriteJSON string | EncodeJSON string

text \<open>The mode, the results as printed, and the file that is written, which has the fields the merger
  reads.\<close>

record bench_report =
  brMode :: string
  brResults :: "PathResult list"
  brFile :: "chunkFile option"

definition bench_results ::
  "bench_env \<Rightarrow> bench_flags \<Rightarrow> string list \<Rightarrow> PathResult list option" where
  "bench_results be fl enabled = do {
     let spans = nat (bfSpans fl);
     let iters = nat (bfIters fl);
     let warmup = nat (bfWarmup fl);
     let results = [];
     let results = (if ''http'' \<in> set enabled
       then results @ [runHTTP (beHttp be) (bfServer fl) (bfTenant fl) (bfApiKey fl) (bfBearer fl) spans iters warmup]
       else results);
     let results = (if ''grpc'' \<in> set enabled
       then results @ [runGRPC (beGrpc be) (bfGrpc fl) (bfTenant fl) (bfApiKey fl) (bfBearer fl) spans iters warmup]
       else results);
     (if ''udp'' \<in> set enabled
      then map_option (\<lambda>r. results @ [r])
        (runUDP (beUdp be) (bfUdp fl) (bfTenant fl) spans iters warmup
           (i64 (bfAckTimeoutMs fl * millisecond)) (bfUdpRetransmitMs fl))
      else Some results) }"

definition bench_file :: "bench_env \<Rightarrow> bench_flags \<Rightarrow> string \<Rightarrow> PathResult list \<Rightarrow> chunkFile" where
  "bench_file be fl benchMode results =
     \<lparr>cGeneratedAt = beNow be, cSpansPerCall = bfSpans fl, cIterations = bfIters fl, cWarmup = bfWarmup fl,
      cTenant = bfTenant fl, cBenchMode = benchMode, cResults = written_results (bfKeepSamples fl) results\<rparr>"

text \<open>\<open>None\<close> is a run that does not end.\<close>

definition bench_main :: "bench_env \<Rightarrow> bench_flags \<Rightarrow> (bench_fatal + bench_report) option" where
  "bench_main be fl =
     (if bfSpans fl \<le> 0 \<or> bfIters fl \<le> 0 then Some (Inl CountsNotPositive)
      else case parsePathsFlag (bfPaths fl) of
        Inl t \<Rightarrow> Some (Inl (PathsFlag t))
      | Inr enabled \<Rightarrow> do {
          let benchMode = (case probeBenchMode (beProbe be) of None \<Rightarrow> ''unknown'' | Some m \<Rightarrow> m);
          results \<leftarrow> bench_results be fl enabled;
          Some (if bfJson fl = []
            then Inr \<lparr>brMode = benchMode, brResults = results, brFile = None\<rparr>
            else case beCreateErr be of
              Some e \<Rightarrow> Inl (WriteJSON e)
            | None \<Rightarrow> (case beEncodeErr be of
                Some e \<Rightarrow> Inl (EncodeJSON e)
              | None \<Rightarrow> Inr \<lparr>brMode = benchMode, brResults = results,
                             brFile = Some (bench_file be fl benchMode results)\<rparr>)) })"

text \<open>The row of the table: \<open>fmtF d x\<close> is \<open>x\<close> with \<open>d\<close> decimals, \<open>quote\<close> is the verb \<open>%q\<close>. A figure per span
  that is not finite does not occur, since the number of spans is positive.\<close>

definition row_extras :: "PathResult \<Rightarrow> string list" where
  "row_extras r =
     (if Failures r > 0 then
        [''attempted='' @ format_int (Attempted r)]
        @ (if Timeouts r > 0 then [''timeouts='' @ format_int (Timeouts r)] else [])
        @ (if NonOK r > 0 then [''non_ok='' @ format_int (NonOK r)] else [])
        @ (if OtherErrors r > 0 then [''other_errors='' @ format_int (OtherErrors r)] else [])
      else [])
     @ (if UDPSent r > 0 \<or> UDPAcked r > 0 then
          [''sent='' @ digits_of (unat (UDPSent r)) @ '' acked='' @ digits_of (unat (UDPAcked r))
           @ '' retx='' @ digits_of (unat (UDPRetransmits r)) @ '' dropped='' @ digits_of (unat (UDPDropped r))]
        else [])"

definition table_row :: "(nat \<Rightarrow> real \<Rightarrow> string) \<Rightarrow> (string \<Rightarrow> string) \<Rightarrow> PathResult \<Rightarrow> string" where
  "table_row fmtF quote r =
     join '' '' [pad_right 12 (Path r), pad_left 6 (format_int (N r)), pad_left 8 (fmtF 2 (P50Ms r)),
       pad_left 8 (fmtF 2 (P90Ms r)), pad_left 8 (fmtF 2 (P99Ms r)), pad_left 8 (fmtF 2 (AvgMs r)),
       pad_left 14 (fmtF 3 (the_default 0 (MsPerSpanP50 r))), pad_left 14 (fmtF 1 (SpansPerSecond r)),
       pad_left 14 (fmtF 1 (SpansPerSecondWall r)), pad_left 10 (fmtF 1 (WallClockSeconds r)),
       pad_left 8 (format_int (Failures r)), pad_left 7 (fmtF 2 (FailureRatePct r)) @ ''%'', Status r]
     @ (if length (row_extras r) > 0 then ''  ('' @ join ''; '' (row_extras r) @ '')'' else [])
     @ (if LastFailureMsg r \<noteq> [] then ''  last_err='' @ quote (LastFailureMsg r)
        else if Note r \<noteq> [] then ''  note='' @ quote (Note r) else [])"

definition table_header :: string where
  "table_header =
     join '' '' ([pad_right 12 ''Path'', pad_left 6 ''N'']
       @ map (pad_left 8) [''p50_ms'', ''p90_ms'', ''p99_ms'', ''avg_ms'']
       @ map (pad_left 14) [''ms/span_p50'', ''spans/sec_avg'', ''spans/sec_wall'']
       @ [pad_left 10 ''wall_s'', pad_left 8 ''Fails'', pad_left 8 ''Fail%'', ''Status''])"

definition printTable :: "(nat \<Rightarrow> real \<Rightarrow> string) \<Rightarrow> (string \<Rightarrow> string) \<Rightarrow> PathResult list \<Rightarrow> string list" where
  "printTable fmtF quote rs = table_header # map (table_row fmtF quote) rs"

text \<open>The choice of the best paths in the footer and the lines that announce them.\<close>

definition passed :: "PathResult \<Rightarrow> bool" where
  "passed r \<longleftrightarrow> Status r = ''PASS'' \<or> Status r = ''PASS_WITH_FAILURES''"

definition better :: "(PathResult \<Rightarrow> real) \<Rightarrow> PathResult \<Rightarrow> PathResult option \<Rightarrow> PathResult option" where
  "better fig r best = (if \<not> passed r then best
     else case best of None \<Rightarrow> Some r | Some b \<Rightarrow> if fig r < fig b then Some r else Some b)"

definition best_p50 :: "PathResult list \<Rightarrow> PathResult option" where
  "best_p50 rs = fold (better P50Ms) rs None"

definition best_per_span :: "PathResult list \<Rightarrow> PathResult option" where
  "best_per_span rs = fold (better (\<lambda>r. the_default 0 (MsPerSpanP50 r))) rs None"

definition failure_warning :: "(nat \<Rightarrow> real \<Rightarrow> string) \<Rightarrow> PathResult \<Rightarrow> string" where
  "failure_warning fmtF b = (if Failures b > 0
     then '' [WARN: '' @ format_int (Failures b) @ ''/'' @ format_int (Attempted b) @ '' iterations failed (''
       @ fmtF 2 (FailureRatePct b) @ ''%); p50 reflects the SUCCESSFUL '' @ format_int (N b) @ '' only]''
     else [])"

text \<open>\<open>dash\<close> is the dash of the source, which is not an ASCII character.\<close>

definition footer_lines :: "(nat \<Rightarrow> real \<Rightarrow> string) \<Rightarrow> string \<Rightarrow> string \<Rightarrow> PathResult list \<Rightarrow> string list" where
  "footer_lines fmtF dash benchMode rs =
     (case best_p50 rs of None \<Rightarrow> []
      | Some b \<Rightarrow> [''Best p50 (per request): '' @ Path b @ '' ('' @ fmtF 2 (P50Ms b) @ '' ms) '' @ dash
          @ '' bench_mode='' @ benchMode @ failure_warning fmtF b])
     @ (case best_per_span rs of None \<Rightarrow> []
      | Some b \<Rightarrow> [''Best p50 ms-per-span : '' @ Path b @ '' ('' @ fmtF 3 (the_default 0 (MsPerSpanP50 b)) @ '' ms/span @ ''
          @ format_int (SpansPerCall b) @ '' spans/call) '' @ dash @ '' bench_mode='' @ benchMode
          @ failure_warning fmtF b])"

subsection \<open>Flags and payloads\<close>

lemma enable_paths_valid:
  "enable_paths ts en = Inr e \<Longrightarrow> set e = set en \<union> set ts \<and> set ts \<subseteq> {''http'', ''grpc'', ''udp''}"
  by (induction ts arbitrary: en) (auto split: if_splits)

lemma split_csv_nonempty: "[] \<notin> set (split_csv cur s)"
  by (induction cur s rule: split_csv.induct) auto

text \<open>Only the three known paths can be enabled, and at least one is.\<close>

lemma parsePathsFlag_valid:
  "parsePathsFlag s = Inr en \<Longrightarrow> en \<noteq> [] \<and> set en \<subseteq> {''http'', ''grpc'', ''udp''}"
  by (auto simp: parsePathsFlag_def Let_def split: if_splits dest!: enable_paths_valid) 

text \<open>The fallback of \<open>randBytes\<close> is meant to give bytes that are not zero; it gives a zero byte whenever
  the clock plus the index is a multiple of 256.\<close>

lemma fallback_bytes_may_be_zero: "randBytes None (\<lambda>_. 256 * t) 1 = [0]"
  by (simp add: randBytes_def)

lemma randBytes_length: "(\<And>b. filled = Some b \<Longrightarrow> length b = n) \<Longrightarrow> length (randBytes filled clock n) = n"
  by (simp add: randBytes_def split: option.split)

lemma bench_request_spans:
  "length (spans_of (buildOTLPRequest now rnd n svc)) = n" "countSpans (buildOTLPRequest now rnd n svc) = n"
  by (simp_all add: buildOTLPRequest_def spans_of_def non_nil_def countSpans_def comp_def)

subsection \<open>No attempt is lost\<close>

text \<open>After \<open>n\<close> attempts every one of them is a sample or in exactly one failure counter.\<close>

definition tally_ok :: "nat \<Rightarrow> bench_acc \<Rightarrow> bool" where
  "tally_ok n a \<longleftrightarrow> 0 \<le> fbTimeouts (baFb a) \<and> 0 \<le> fbNonOK (baFb a) \<and> 0 \<le> fbOtherErrors (baFb a)
     \<and> int (length (baSamples a)) + fbTimeouts (baFb a) + fbNonOK (baFb a) + fbOtherErrors (baFb a) = int n"

lemma tally_ok_step:
  assumes "tally_ok n a" "int n + 1 < 2 ^ 63"
  shows "tally_ok (Suc n) (tally cls attempt a)" "tally_ok (Suc n) (tally_udp ob a)"
proof -
  have [simp]: "i64 (fbTimeouts (baFb a) + 1) = fbTimeouts (baFb a) + 1" "i64 (fbNonOK (baFb a) + 1) = fbNonOK (baFb a) + 1"
    "i64 (fbOtherErrors (baFb a) + 1) = fbOtherErrors (baFb a) + 1"
    using assms by (auto simp: tally_ok_def in_i64_def)
  show "tally_ok (Suc n) (tally cls attempt a)"
    using assms(1) by (auto simp: tally_def tally_ok_def failed_sample_def good_sample_def count_failure_def Let_def
        split: prod.split option.split)
  show "tally_ok (Suc n) (tally_udp ob a)"
    using assms(1) by (auto simp: tally_udp_def sendOne_def tally_ok_def failed_sample_def good_sample_def Let_def
        split: option.split)
qed

lemma tally_ok_fold:
  assumes "\<And>i n a. tally_ok n a \<Longrightarrow> int n + 1 < 2 ^ 63 \<Longrightarrow> tally_ok (Suc n) (f i a)"
    and "int (n + length xs) < 2 ^ 63" "tally_ok n a"
  shows "tally_ok (n + length xs) (fold f xs a)"
  using assms(2,3)
proof (induction xs arbitrary: n a)
  case (Cons i xs)
  then have "tally_ok (Suc n) (f i a)" using assms(1) by simp
  then show ?case using Cons.IH [of "Suc n" "f i a"] Cons.prems by simp
qed simp

lemma tally_ok_none [simp]: "tally_ok 0 no_attempts"
  by (simp add: tally_ok_def no_attempts_def)

lemma attempts_tallied:
  assumes "int iters < 2 ^ 63"
  shows "tally_ok iters (fold (\<lambda>i. tally cls (att i)) [w..<w + iters] no_attempts)"
    "tally_ok iters (fold (\<lambda>i. tally_udp (ob i)) [w..<w + iters] no_attempts)"
  using assms tally_ok_fold [where f = "\<lambda>i. tally cls (att i)" and n = 0 and xs = "[w..<w + iters]" and a = no_attempts]
    tally_ok_fold [where f = "\<lambda>i. tally_udp (ob i)" and n = 0 and xs = "[w..<w + iters]" and a = no_attempts]
    tally_ok_step by simp_all

lemma AttachWallClock_fields [simp]:
  "Attempted (AttachWallClock s e r) = Attempted r" "N (AttachWallClock s e r) = N r"
  "Failures (AttachWallClock s e r) = Failures r" "Status (AttachWallClock s e r) = Status r"
  "Timeouts (AttachWallClock s e r) = Timeouts r" "NonOK (AttachWallClock s e r) = NonOK r"
  "OtherErrors (AttachWallClock s e r) = OtherErrors r"
  by (simp_all add: AttachWallClock_def Let_def split: option.split)

lemma summary_counts:
  "Attempted (SummarizeWithFailures name xs fb sp) = i64 (int (length xs) + Total fb)"
  "Failures (SummarizeWithFailures name xs fb sp) = Total fb"
  by (simp_all add: SummarizeWithFailures_def Let_def)

lemma Total_tallied:
  assumes "tally_ok n a" "int n < 2 ^ 63"
    and "fbTimeouts fb = fbTimeouts (baFb a)" "fbNonOK fb = fbNonOK (baFb a)" "fbOtherErrors fb = fbOtherErrors (baFb a)"
  shows "Total fb = fbTimeouts (baFb a) + fbNonOK (baFb a) + fbOtherErrors (baFb a)"
  using assms by (simp add: Total_def tally_ok_def in_i64_def)

lemma counted_result:
  assumes "tally_ok iters a" "int iters < 2 ^ 63"
  shows "let r = SummarizeWithFailures name (baSamples a) ((baFb a)\<lparr>fbFailedSamples := fs\<rparr>) spans in
    Attempted r = int iters \<and> N r + Failures r = int iters \<and> 0 \<le> Failures r"
  using assms Total_tallied [OF assms, of "(baFb a)\<lparr>fbFailedSamples := fs\<rparr>"]
  by (auto simp: summary_counts tally_ok_def in_i64_def Let_def)

text \<open>No attempt of an HTTP run, or of a gRPC run whose connection was made, is lost
  from the published result: whatever the outcomes, samples and failures together are the
  iterations of the run, and the attempts are their number.\<close>

theorem bench_loses_no_attempt:
  assumes "int iters < 2 ^ 63" "bgDial io' addr = None"
  shows "(let r = runHTTP io url tenant key bearer spans iters warmup in
      Attempted r = int iters \<and> N r + Failures r = int iters \<and> 0 \<le> Failures r)
    \<and> (let r = runGRPC io' addr tenant key bearer spans iters warmup in
      Attempted r = int iters \<and> N r + Failures r = int iters \<and> 0 \<le> Failures r)"
  using counted_result [OF attempts_tallied(1) [OF assms(1)] assms(1)] assms(2)
  by (simp add: runHTTP_def runGRPC_def Let_def)

definition sample_http :: bench_http where
  "sample_http = \<lparr>bhNow = (\<lambda>_. 5), bhRnd = (\<lambda>_ _ n. replicate n 7), bhMarshal = (\<lambda>_. Inr [1]), bhNewRequest = (\<lambda>_. None),
     bhDo = (\<lambda>i _. (5000, Inr (if even i then 200 else 503))), bhWall = (1, 2)\<rparr>"

definition sample_grpc :: bench_grpc where
  "sample_grpc = \<lparr>bgNow = (\<lambda>_. 5), bgRnd = (\<lambda>_ _ n. replicate n 7), bgDial = (\<lambda>_. None),
     bgExport = (\<lambda>_ _ _. (7000, None)), bgWall = (1, 2)\<rparr>"

theorem bench_loses_no_attempt_witness:
  "Attempted (runHTTP sample_http ''http://h'' ''t'' [] [] 10 4 1) = 4
   \<and> Attempted (runGRPC sample_grpc ''h:4317'' ''t'' [] [] 10 4 1) = 4"
  using bench_loses_no_attempt [of 4 sample_grpc "''h:4317''" sample_http "''http://h''" "''t''" "[]" "[]" 10 1]
  by (simp add: Let_def sample_grpc_def)

subsection \<open>The UDP run\<close>

lemma drain_loop_ends:
  assumes "deadline \<le> fst (reading k)" "i \<le> k"
  shows "\<exists>j. drain_loop reading deadline target i = Some j"
  using assms(2)
proof (induction "k - i" arbitrary: i)
  case 0
  then show ?case using assms(1) by (subst drain_loop.simps) auto
next
  case (Suc d)
  then have "\<exists>j. drain_loop reading deadline target (Suc i) = Some j" by simp
  then show ?case by (subst drain_loop.simps) auto
qed

lemma udp_failures_total:
  assumes "tally_ok iters a" "0 < unacked_datagrams ob" "int iters + unacked_datagrams ob < 2 ^ 63"
  shows "Total (udp_failures fmtD ob ackTimeout a)
    = fbTimeouts (baFb a) + unacked_datagrams ob + fbNonOK (baFb a) + fbOtherErrors (baFb a)"
  using assms by (simp add: Total_def udp_failures_def Let_def tally_ok_def in_i64_def)

text \<open>Connecting never panics, and it ends with an error or with an established client.\<close>

lemma NewClient_conn: "NewClient env re de host tenant = Inr c \<Longrightarrow> \<not> connNil c \<and> \<not> useDTLS c"
  by (auto simp: NewClient_def zeroClient_def Let_def split: option.splits)

lemma Connect_result:
  assumes "\<not> connNil c" "\<not> useDTLS c"
  shows "\<exists>c' res. Connect dialErr writeErr rd c = Some (c', res) \<and> \<not> connNil c'
    \<and> (\<forall>ls. res = Inr ls \<longrightarrow> established c')"
  using assms by (simp add: Connect_def doHandshake_def log_write_def Let_def split: option.split handshake_read.split)

lemma connect_loop_result:
  "\<exists>res. connect_loop env host tenant att i n le = Some res
    \<and> (\<forall>cli. res = Inr cli \<longrightarrow> established cli) \<and> (0 < n \<or> le \<noteq> None \<longrightarrow> res \<noteq> Inl None)"
proof (induction n arbitrary: i le)
  case (Suc n)
  show ?case
  proof (cases "NewClient env (coResolveErr (att i)) (coDialErr (att i)) host tenant")
    case (Inl e)
    then show ?thesis using Suc [of "Suc i" "Some e"] by simp
  next
    case (Inr c)
    obtain c' res where c': "Connect None (coWriteErr (att i)) (coRead (att i)) c = Some (c', res)" "\<not> connNil c'"
      "\<And>ls. res = Inr ls \<Longrightarrow> established c'"
      using Connect_result NewClient_conn [OF Inr] by blast
    show ?thesis
    proof (cases res)
      case (Inl e)
      then show ?thesis using Inr c' Suc [of "Suc i" "Some e"] by (simp add: Close_def Let_def)
    qed (use Inr c' in simp)
  qed
qed simp

lemma connectUDPWithRetry_result:
  "(\<exists>e. connectUDPWithRetry env host tenant att 3 = Some (Inl (Some e)))
    \<or> (\<exists>cli. connectUDPWithRetry env host tenant att 3 = Some (Inr cli) \<and> established cli)"
  using connect_loop_result [of env host tenant att 0 3 None]
  by (auto simp: connectUDPWithRetry_def) (metis option.exhaust sum.exhaust)

lemma udp_tallied: "int iters < 2 ^ 63 \<Longrightarrow> tally_ok iters (udp_attempts io ob spans iters warmup)"
  unfolding udp_attempts_def by (rule attempts_tallied(2))

text \<open>Property C33. The UDP run always ends once the clock passes its two drain deadlines, and its
  attempts are not its iterations: every datagram that is still unacknowledged after the drain
  is counted as one more attempted iteration, on top of the iteration that sent it.\<close>

theorem udp_attempts_include_datagrams:
  assumes "connectUDPWithRetry (buEnv io) addr tenant (buConnect io) 3 = Some (Inr cli)"
    and "ob = buObs io (if baseMs > 0 then SetBaseRTO baseMs cli else cli)"
    and "uoWarmStart ob + 30 * second \<le> fst (uoWarmDrain ob k)"
    and "uoDrainStart ob + ackTimeout \<le> fst (uoDrain ob l)"
    and "0 < unacked_datagrams ob" "int iters + unacked_datagrams ob < 2 ^ 63"
  shows "\<exists>r. runUDP io addr tenant spans iters warmup ackTimeout baseMs = Some r
    \<and> Attempted r = int iters + unacked_datagrams ob \<and> N r + Failures r = int iters + unacked_datagrams ob"
proof -
  let ?a = "udp_attempts io ob spans iters warmup"
  have a: "tally_ok iters ?a" using udp_tallied assms(5,6) by simp
  obtain i j where "drain_loop (uoWarmDrain ob) (uoWarmStart ob + 30 * second) (uoWarmSent ob) 0 = Some i"
    "drain_loop (\<lambda>i. (fst (uoDrain ob i), snd (uoDrain ob i) - uoAckedAtStart ob))
       (uoDrainStart ob + ackTimeout) (uoSentAfter ob - uoSentAtStart ob) 0 = Some j"
    using drain_loop_ends [of _ "uoWarmDrain ob" k 0] assms(3,4)
      drain_loop_ends [of _ "\<lambda>i. (fst (uoDrain ob i), snd (uoDrain ob i) - uoAckedAtStart ob)" l 0] by fastforce
  moreover have "int (length (baSamples ?a)) + Total (udp_failures (buFmtDuration io) ob ackTimeout ?a)
      = int iters + unacked_datagrams ob"
    using udp_failures_total [OF a assms(5,6), of "buFmtDuration io" ackTimeout] a by (simp add: tally_ok_def)
  ultimately show ?thesis
    using assms(1,5,6) by (simp add: runUDP_def Let_def summary_counts in_i64_def flip: assms(2))
qed

definition sample_udp :: udp_obs where
  "sample_udp = \<lparr>uoSend = (\<lambda>i _. \<lparr>soElapsed = 1000, soErr = None, soBefore = of_nat i, soAfter = of_nat i + 1\<rparr>),
     uoNow = (\<lambda>_. 0), uoRnd = (\<lambda>_ _ n. replicate n 7),
     uoWarmSent = 0, uoWarmStart = 0, uoWarmDrain = (\<lambda>i. (int i * 40 * second, 0)), uoWallStart = 1, uoSentAtStart = 0,
     uoAckedAtStart = 0, uoSentAfter = 2, uoDrainStart = 0, uoDrain = (\<lambda>i. (int i * second, 0)), uoWallEnd = 2,
     uoAckedEnd = 0, uoSent = 2, uoAcked = 0, uoRetransmits = 0, uoDropped = 0\<rparr>"

definition sample_bench_udp :: bench_udp where
  "sample_bench_udp = \<lparr>buEnv = (\<lambda>_. []),
     buConnect = (\<lambda>i. \<lparr>coResolveErr = None, coDialErr = (if i = 0 then Some ''refused'' else None), coWriteErr = None,
       coRead = ReadBytes (buildPacketV2 pktHandshake 0 0 0 0 0 [])\<rparr>),
     buObs = (\<lambda>_. sample_udp), buFmtDuration = (\<lambda>_. ''10s''), buFmtTime = (\<lambda>_. ''t'')\<rparr>"

lemma sample_bench_connects:
  "\<exists>cli. connectUDPWithRetry (buEnv sample_bench_udp) addr tenant (buConnect sample_bench_udp) 3 = Some (Inr cli)"
  by (simp add: connectUDPWithRetry_def sample_bench_udp_def numeral_3_eq_3 NewClient_def Connect_def doHandshake_def
      zeroClient_def buildPacketV2_eq buildPacket_layout log_write_def Let_def)

theorem udp_attempts_include_datagrams_witness:
  "\<exists>r. runUDP sample_bench_udp ''h:4320'' ''t'' 5 2 0 (10 * second) 100 = Some r \<and> Attempted r = 4"
proof -
  have u: "unacked_datagrams sample_udp = 2" by (simp add: unacked_datagrams_def sample_udp_def i64_def)
  obtain cli where c: "connectUDPWithRetry (buEnv sample_bench_udp) ''h:4320'' ''t'' (buConnect sample_bench_udp) 3 = Some (Inr cli)"
    using sample_bench_connects by blast
  have o: "sample_udp = buObs sample_bench_udp (if 100 > 0 then SetBaseRTO 100 cli else cli)"
    by (simp add: sample_bench_udp_def)
  have d: "uoWarmStart sample_udp + 30 * second \<le> fst (uoWarmDrain sample_udp 1)"
    "uoDrainStart sample_udp + 10 * second \<le> fst (uoDrain sample_udp 10)" by (simp_all add: sample_udp_def)
  show ?thesis
    using udp_attempts_include_datagrams [OF c o d, of 2 5 0] by (auto simp: u)
qed

subsection \<open>From the bench to the merger\<close>

lemma summary_samples:
  assumes "passed (SummarizeWithFailures name xs fb sp)"
  shows "xs \<noteq> []"
  using assms
  by (auto simp: passed_def SummarizeWithFailures_def Summarize_def empty_result_def Let_def split: if_splits)

lemma AttachWallClock_samples [simp]:
  "Samples (AttachWallClock s e r) = Samples r" "passed (AttachWallClock s e r) = passed r"
  by (simp_all add: AttachWallClock_def passed_def Let_def split: option.split)

lemma passed_counters [simp]:
  "passed (r\<lparr>UDPSent := a, UDPAcked := b, UDPRetransmits := c, UDPDropped := d\<rparr>) = passed r"
  by (simp add: passed_def)

lemma passed_literal [simp]:
  "passed ((empty_result n sp)\<lparr>Status := st, Note := x, LastFailureMsg := y\<rparr>) \<longleftrightarrow> st = ''PASS'' \<or> st = ''PASS_WITH_FAILURES''"
  by (simp add: passed_def)

text \<open>Whatever a path meets, a result that claims success carries its samples.\<close>

lemma path_results_have_samples:
  "passed (runHTTP io url tenant key bearer spans iters warmup) \<Longrightarrow> Samples (runHTTP io url tenant key bearer spans iters warmup) \<noteq> []"
  "passed (runGRPC io' addr tenant key bearer spans iters warmup) \<Longrightarrow> Samples (runGRPC io' addr tenant key bearer spans iters warmup) \<noteq> []"
  "runUDP io'' addr tenant spans iters warmup ackT baseMs = Some r \<Longrightarrow> passed r \<Longrightarrow> Samples r \<noteq> []"
  subgoal by (auto simp: runHTTP_def Let_def dest!: summary_samples)
  subgoal by (auto simp: runGRPC_def Let_def dest!: summary_samples split: option.splits)
  subgoal by (auto simp: runUDP_def Let_def dest!: summary_samples split: Option.bind_splits sum.splits option.splits)
  done

lemma bench_results_shape:
  assumes "bench_results be fl enabled = Some rs" "enabled \<noteq> []" "set enabled \<subseteq> {''http'', ''grpc'', ''udp''}"
  shows "rs \<noteq> [] \<and> (\<forall>r \<in> set rs. passed r \<longrightarrow> Samples r \<noteq> [])"
proof
  show "rs \<noteq> []"
    using assms by (cases enabled) (auto simp: bench_results_def Let_def split: if_splits)
  show "\<forall>r \<in> set rs. passed r \<longrightarrow> Samples r \<noteq> []"
    using assms(1) path_results_have_samples by (auto simp: bench_results_def Let_def split: if_splits)
qed

lemma samples_missing_None: "samples_missing rs = None \<longleftrightarrow> (\<forall>r \<in> set rs. passed r \<longrightarrow> Samples r \<noteq> [])"
  by (induction rs) (auto simp: passed_def)

lemma bench_main_file:
  assumes "bench_main be fl = Some (Inr rep)" "brFile rep = Some f"
  shows "\<exists>rs. f = bench_file be fl (brMode rep) rs \<and> brResults rep = rs \<and> rs \<noteq> []
    \<and> (\<forall>r \<in> set rs. passed r \<longrightarrow> Samples r \<noteq> [])"
  using assms
  by (auto simp: bench_main_def Let_def split: if_splits sum.splits option.splits Option.bind_splits
      dest!: parsePathsFlag_valid dest: bench_results_shape)

text \<open>Property C35. The files of the bench are what the merger needs: a file written with
  \<open>-keep-samples\<close> is always accepted as a chunk, whatever happened on the paths, and one written
  without is refused exactly when some path succeeded, so that no merge pools a run whose samples were
  dropped. The JSON decoder is assumed to read back what was encoded.\<close>

theorem bench_file_is_chunk:
  assumes "bench_main be fl = Some (Inr rep)" "brFile rep = Some f"
    and "mioReadFile io path = Inr data" "mioUnmarshal io data = Inr f"
  shows "(bfKeepSamples fl \<longrightarrow> readChunk io path = Inr (f, mioSha256Hex io data))
    \<and> (\<not> bfKeepSamples fl \<longrightarrow> ((\<exists>p st. readChunk io path = Inl (MissingSamples p st)) \<longleftrightarrow> (\<exists>r \<in> set (brResults rep). passed r))
         \<and> ((\<exists>r. readChunk io path = Inr r) \<longleftrightarrow> \<not> (\<exists>r \<in> set (brResults rep). passed r)))"
proof -
  obtain rs where rs: "f = bench_file be fl (brMode rep) rs" "brResults rep = rs" "rs \<noteq> []"
    "\<forall>r \<in> set rs. passed r \<longrightarrow> Samples r \<noteq> []" using bench_main_file [OF assms(1,2)] by blast
  have cleared: "passed (r\<lparr>Samples := x, FailedSamples := y\<rparr>) = passed r" for r x y by (simp add: passed_def)
  have "samples_missing (cResults f) = None \<longleftrightarrow> bfKeepSamples fl \<or> \<not> (\<exists>r \<in> set rs. passed r)"
    using rs(4) by (auto simp: rs(1) samples_missing_None bench_file_def written_results_def cleared)
  moreover have "cResults f \<noteq> []" using rs(1,3) by (simp add: bench_file_def written_results_def)
  ultimately show ?thesis
    using assms(3,4) rs(2) by (auto simp: readChunk_def Let_def split: option.split)
qed

definition sample_flags :: bench_flags where
  "sample_flags = \<lparr>bfServer = ''http://h'', bfGrpc = ''h:4317'', bfUdp = ''h:4320'', bfTenant = ''t'', bfApiKey = [], bfBearer = [],
     bfSpans = 10, bfIters = 4, bfWarmup = 1, bfPaths = ''http,GRPC'', bfAckTimeoutMs = 10000, bfUdpRetransmitMs = 0,
     bfJson = ''out.json'', bfKeepSamples = True\<rparr>"

definition sample_bench_env :: bench_env where
  "sample_bench_env = \<lparr>beHttp = sample_http, beGrpc = sample_grpc, beUdp = sample_bench_udp,
     beProbe = Some (200, Some ''tuned''), beNow = ''now'', beCreateErr = None, beEncodeErr = None\<rparr>"

lemma sample_bench_runs:
  "\<exists>rep f. bench_main sample_bench_env sample_flags = Some (Inr rep) \<and> brFile rep = Some f \<and> cBenchMode f = ''tuned''"
proof -
  have "parsePathsFlag ''http,GRPC'' = Inr [''grpc'', ''http'']" by code_simp
  then show ?thesis
    by (simp add: bench_main_def bench_results_def sample_flags_def sample_bench_env_def probeBenchMode_def bench_file_def Let_def)
qed

theorem bench_file_is_chunk_witness:
  "\<exists>rep f. bench_main sample_bench_env sample_flags = Some (Inr rep) \<and> brFile rep = Some f
    \<and> readChunk \<lparr>mioGlob = (\<lambda>_. Inr []), mioReadFile = (\<lambda>_. Inr [1]), mioSha256Hex = (\<lambda>_. ''h''),
        mioUnmarshal = (\<lambda>_. Inr f), mioNowRFC3339 = ''now''\<rparr> ''out.json'' = Inr (f, ''h'')"
proof -
  obtain rep f where b: "bench_main sample_bench_env sample_flags = Some (Inr rep)" "brFile rep = Some f"
    using sample_bench_runs by blast
  have "bfKeepSamples sample_flags" by (simp add: sample_flags_def)
  with bench_file_is_chunk [OF b, where data = "[1]" and path = "''out.json''" and io = "\<lparr>mioGlob = (\<lambda>_. Inr []),
      mioReadFile = (\<lambda>_. Inr [1]), mioSha256Hex = (\<lambda>_. ''h''), mioUnmarshal = (\<lambda>_. Inr f), mioNowRFC3339 = ''now''\<rparr>"] b
  show ?thesis by auto
qed

subsection \<open>The footer\<close>

text \<open>The path announced as the best one succeeded, and no other successful path has a smaller figure.\<close>

lemma better_fold:
  assumes "fold (better fig) rs acc = Some b" "\<And>c. acc = Some c \<Longrightarrow> passed c"
  shows "passed b \<and> (b \<in> set rs \<or> acc = Some b) \<and> (\<forall>r \<in> set rs. passed r \<longrightarrow> fig b \<le> fig r)
    \<and> (\<forall>c. acc = Some c \<longrightarrow> fig b \<le> fig c)"
  using assms
proof (induction rs arbitrary: acc)
  case (Cons r rs)
  have acc: "\<And>c. better fig r acc = Some c \<Longrightarrow> passed c"
    using Cons.prems(2) by (auto simp: better_def split: if_splits option.splits)
  have "fold (better fig) rs (better fig r acc) = Some b" using Cons.prems(1) by simp
  from Cons.IH [OF this acc] show ?case
    by (force simp: better_def split: if_splits option.splits)
qed simp

lemma best_p50_is_best:
  assumes "best_p50 rs = Some b"
  shows "b \<in> set rs \<and> passed b \<and> (\<forall>r \<in> set rs. passed r \<longrightarrow> P50Ms b \<le> P50Ms r)"
  using better_fold [OF assms [unfolded best_p50_def]] by simp

end
