(* ===== verification/Spec2Isabelle.thy ===== *)
theory Spec2Isabelle
  imports Client_V3 Client_Race Receiver Coalescer Ingest_Pipeline Otel_Receiver Ingest_Api Dtls Shim Lifecycle Bench_Merge Ingest_Bench
begin

text \<open>
  AgenticUDP carries telemetry (metrics, traces, logs, fingerprints) from an agent to a core over
  UDP with application-level reliability. This development models the agent's transport and OTLP
  shim, the two receivers, the storage batchers behind the core receiver and the benchmark tools,
  and proves what makes each of them correct, and what holds when client and receiver are put
  together. File names are relative to \<open>src/\<close>; \<open>transport\<close> is
  \<open>entropyops-helper/internal/transport\<close>, \<open>receiver\<close> is \<open>entropyops-v2/internal/ingest/receiver\<close>.

  \<^bold>\<open>The program and how its parts interact.\<close> An application's OTLP export reaches the shim
  (\<open>otlpshim\<close>), which translates it and hands it to the client as JSON rows (path B) or as a
  protobuf batch (path C), or passes it on over gRPC (path A). The agent's own telemetry is
  converted by \<open>transport/sender.go\<close> and \<open>sender_proto.go\<close>. The client wraps a payload in an
  envelope, chooses a reliability tier (rules, Thompson sampling or an LLM, with a congestion
  predictor behind it), chunks or fragments what is too large, keeps every reliable datagram in
  flight until it is acknowledged, and retransmits with exponential back-off. The core receiver
  verifies a datagram, opens a session, acknowledges, suppresses duplicates, reassembles fragments,
  decodes the envelope and routes the records to the pipeline, the physics engine and the store, the
  last through coalescers that batch per tenant; a configuration waiting for a host goes back with a
  keep-alive. A second, smaller receiver lives in the OpenTelemetry collector. The bench measures
  the three paths; the merger pools its chunks.

  \<^bold>\<open>Theories.\<close>
  \<^item> \<open>Prelude\<close>: how Go's types are read in HOL (words, \<open>i64\<close>, byte slices, times, maps visited in any
    order, \<open>range\<close> loops that may panic), with the shared lemmas and \<open>named_theorems\<close>.
  \<^item> \<open>Wire_Format\<close>: packet builders, parser, one's-complement checksum and FNV content hash of
    \<open>transport/agenticudp.go\<close>, \<open>agenticudp_v3.go\<close> and \<open>receiver/agenticudp.go\<close>. Round trip, detection of every
    single corrupted byte, and the checksum loop against its specification.
  \<^item> \<open>Client_Config\<close>: environment knobs and \<open>computeRTO\<close>. \<open>Congestion\<close>, \<open>Features\<close>, \<open>Classifier\<close>:
    \<open>transport/ai_congestion.go\<close>, \<open>ai_features.go\<close>, \<open>ai_classifier.go\<close>, with the reachable states of the
    predictor and of the classifier's cache as inductive predicates and invariants by rule induction.
  \<^item> \<open>Client_V2\<close>: the \<open>Client\<close> structure, its acknowledgement, retransmission, keep-alive and tuner
    steps and \<open>transmitWithFlags\<close>; a session is any sequence of \<open>client_event\<close>s. The locale \<open>tracked_session\<close>
    states what the V2 and the V3 client share, that sent = acknowledged + given up + in flight; it is
    interpreted here, in \<open>Client_V3\<close> and in \<open>Client_Race\<close>, where the write of a datagram and its entry in the
    in-flight map are two steps and other goroutines may run in between.
  \<^item> \<open>Client_Send\<close>: the operations a caller uses (\<open>sendSignal\<close>, chunked sends, protobuf sends,
    \<open>transport/agenticudp_pipeline.go\<close>) while the background goroutines run. \<open>Client_V3\<close>: \<open>ClientV3\<close>, its
    fragmentation and selective acknowledgements.
  \<^item> \<open>Records\<close>, \<open>Receiver_Route\<close>, \<open>Receiver\<close>: the core receiver (\<open>receiver/agenticudp.go\<close>) from the storage
    rows up: protobuf conversion, routing and storage, and the packet layer with sessions, duplicate
    table, fragment buffers, collectors and read loops. A run is any sequence of \<open>rcv_event\<close>s.
  \<^item> \<open>Reassembly\<close>: the contract of fragment reassembly as the locale \<open>reassembler\<close>, under which parts may
    arrive in any order; interpreted by \<open>Receiver\<close> and by \<open>Otel_Receiver\<close>
    (\<open>otelcol/receiver/agenticudpreceiver\<close>).
  \<^item> \<open>Coalescer\<close>: \<open>receiver/agenticudp_coalescer.go\<close>, with the locale \<open>batcher\<close> (nothing is lost or
    duplicated) and its extension \<open>open_batcher\<close> (a tick writes what is held) interpreted for the plain and
    for the trace coalescer, the refinement between them, and the bounds of channel, buffers and batches.
  \<^item> \<open>Ingest_Pipeline\<close>: the core receiver with its three coalescers: handlers and batching goroutines in any
    order. No row is lost or duplicated on the way to the store while the receiver runs; rows that wait in
    a channel when it is stopped are.
  \<^item> \<open>Ingest_Api\<close>: \<open>Diagnostics\<close>, the status handlers of \<open>entropyops-v2/internal/api\<close> and
    \<open>receiver/otlp_baseline_dispatch.go\<close>. \<open>Dtls\<close>: the two \<open>agenticudp_dtls.go\<close>.
  \<^item> \<open>Lifecycle\<close>: \<open>Connect\<close> of the clients, \<open>Start\<close>, \<open>Stop\<close> and the read loops of both receivers, and the
    statistics logger of the coalescers, and the background loops of the clients and of the receiver as
    functions of the cases they select. A loop does what the events of a run do and returns when its
    context is cancelled.
  \<^item> \<open>Sender\<close>, \<open>Otlp_Translate\<close>, \<open>Shim\<close>: the agent's conversions and \<open>otlpshim\<close>. Both encodings of a
    request are shown to store the same rows; the locale \<open>signal_path\<close> carries this to the shim's handlers
    for each signal of path B and of path C.
  \<^item> \<open>Bench_Stats\<close>, \<open>Bench_Merge\<close>, \<open>Ingest_Bench\<close>: \<open>internal/benchstats\<close>, \<open>cmd/eo-bench-merge\<close> and
    \<open>cmd/eo-ingest-bench\<close>, from the flags to the written file; the bench connects the modelled client, and
    its file is a chunk the merger accepts.
  \<^item> This theory: client, core receiver and coalescers composed over the bytes on the wire, from the send to
    the store and back to the settled datagram, also when an acknowledgement is lost.

  \<^bold>\<open>Conventions.\<close> A structure is a record with the source's field names where HOL allows them
  (prefixed where two structures share one). Code that runs under one lock is one atomic step; goroutines
  are interleavings of such steps. A send is one step in \<open>Client_V2\<close> and two in \<open>Client_Race\<close>. What comes from outside the repository (clock, operating system,
  random numbers, JSON and protobuf codecs, HTTP and gRPC, store, pipeline, planner, physics engine) is
  an argument or a field of an environment record (\<open>ai_env\<close>, \<open>send_env\<close>, \<open>rcv_env\<close>, \<open>merge_io\<close>), and calls to
  it are recorded in order (\<open>wlog\<close>, \<open>replies\<close>, \<open>actions\<close>, \<open>shCalls\<close>). A \<open>float64\<close> is a real number, so
  rounding, infinities and NaN are outside the model. Error results are values of sum types; a panic or
  a call that does not return is \<open>None\<close>.

  \<^bold>\<open>Loops without fuel.\<close> No definition uses fuel. Loops that may run for ever are
  \<open>partial_function (option)\<close>: the wait for the in-flight window (\<open>wait_loop\<close>), the Gamma sampler, the
  \<open>uint16\<close> reassembly loops and the drain loop of the bench. The waits and the drain are proved to
  end once the clock passes the deadline, the reassembly loops unless the last fragment is number 65535 and
  everything before it is present, where they are proved not to end. The sampler may reject for ever on an
  adverse sequence of random numbers; nothing is claimed of it then. A read loop that serves until it is
  stopped is a function of the list of its turns.

  \<^bold>\<open>Assumptions the theorems name.\<close> Sequence numbers in flight span fewer than 2^16
  (\<open>seq_window\<close>) where a wire sequence number has to identify a datagram; fewer than 2^32 sends where
  in-flight keys must not repeat; fingerprint identifiers have twelve bytes (\<open>ids_ok\<close>), because the
  receiver slices them; a \<open>range\<close> visits a map in some permutation (\<open>is_range\<close>).

  \<^bold>\<open>Not modelled.\<close> The generated message code under \<open>entropyops-v2/pkg/sppv1\<close> (its messages are
  records here); the fixed explanatory text and flag help the two benchmark commands print; the text of
  log messages; a DTLS connection whose remote address is no UDP address; the inside of third-party
  libraries, which appear as arguments.
\<close>

section \<open>AgenticUDP: client and receiver together\<close>

subsection \<open>One datagram end to end\<close>

lemma transmit_reliable:
  fixes c :: Client and tr fl :: u8 and st :: u16 and p :: bytes
  assumes "client_ok c" "seqCounter c \<noteq> - 1" "tr \<noteq> TierBesteff" "headerSize + length p \<le> maxPayload"
  defines "k \<equiv> seqCounter c + 1"
  defines "d \<equiv> buildPacket pktData tr fl (ucast (seqCounter c + 1)) st (fnv1a p) p"
  shows "\<exists>c1. transmitWithFlags None t p tr st fl c = (c1, None) \<and> wlog c1 = wlog c @ [d]
    \<and> inflight c1 = inflight c @ [(k, \<lparr>pData = d, pSeq = ucast k, pStreamID = st, pTier = tr, pSentAt = t, pRetries = 0\<rparr>)]
    \<and> acked c1 = acked c \<and> client_ok c1 \<and> k \<notin> fst ` set (inflight c)"
proof -
  have fresh: "k \<notin> fst ` set (inflight c)"
  proof
    assume "k \<in> fst ` set (inflight c)"
    then obtain q where "(k, q) \<in> set (inflight c)" by force
    with assms(1) have "k \<le> seqCounter c" by (auto simp: client_ok_def entry_ok_def)
    with word_less_plus_one [OF assms(2)] show False by (simp add: k_def)
  qed
  then have upd: "AList.update k q (inflight c) = inflight c @ [(k, q)]" for q
    by (simp add: update_fresh)
  have "client_ok (fst (transmitWithFlags None t p tr st fl c))"
    using assms(1,2) by (rule client_ok_transmit)
  with fresh upd show ?thesis
    using assms(3,4) by (auto simp: transmitWithFlags_def Let_def log_write_def d_def k_def)
qed

text \<open>What the receiver answers to a datagram settles its entry in the client.\<close>

lemma ack_settles_entry:
  assumes "client_ok c" "seq_window c" "is_range rng" "map_of (inflight c) k = Some q"
  shows "inflight (ackLoop_step rng now (buildPacketV2 pktACK 0 0 (pSeq q) (pStreamID q) ci []) c) = AList.delete k (inflight c)
    \<and> acked (ackLoop_step rng now (buildPacketV2 pktACK 0 0 (pSeq q) (pStreamID q) ci []) c) = acked c + 1"
proof -
  let ?a = "buildPacket pktACK 0 0 (pSeq q) (pStreamID q) ci []"
  have "wire_ids ?a = (pSeq q, pStreamID q)" by (rule buildPacket_wire_ids)
  then have step: "ackLoop_step rng now ?a c = fst (processACK rng now (pSeq q) (pStreamID q) c)"
    by (simp add: ackLoop_step_def wire_ids_def buildPacket_layout)
  have kq: "(k, q) \<in> set (inflight c)" "match_wire (pSeq q) (pStreamID q) (k, q)"
    using assms(4) by (auto simp: match_wire_def dest: map_of_SomeD)
  from assms(1,3) show ?thesis
  proof (cases rule: processACK_cases [where sq = "pSeq q" and st = "pStreamID q" and now = now])
    case (one j p)
    then have "(j, p) = (k, q)" using match_unique [OF assms(1,2) _ kq(1) _ kq(2)] by blast
    with one show ?thesis by (simp add: step buildPacketV2_eq)
  qed (use kq in blast)
qed

text \<open>A datagram that is sent and then acknowledged leaves the client as it was, but for the counters.\<close>

lemma sent_then_acked:
  fixes c :: Client and tr fl :: u8 and st :: u16 and p :: bytes
  assumes "client_ok c" "seqCounter c \<noteq> - 1" "seq_window (fst (transmitWithFlags None t p tr st fl c))"
    and "is_range rng" "tr \<noteq> TierBesteff" "headerSize + length p \<le> maxPayload"
  defines "sq \<equiv> ucast (seqCounter c + 1) :: u16"
  defines "ack \<equiv> buildPacketV2 pktACK 0 0 sq st (fnv1a p) []"
  shows "\<exists>c1. transmitWithFlags None t p tr st fl c = (c1, None)
    \<and> wlog c1 = wlog c @ [buildPacket pktData tr fl sq st (fnv1a p) p]
    \<and> inflight (ackLoop_step rng now ack c1) = inflight c \<and> acked (ackLoop_step rng now ack c1) = acked c + 1"
proof -
  let ?k = "seqCounter c + 1"
  let ?d = "buildPacket pktData tr fl (ucast ?k) st (fnv1a p) p"
  let ?q = "\<lparr>pData = ?d, pSeq = ucast ?k, pStreamID = st, pTier = tr, pSentAt = t, pRetries = 0\<rparr>"
  obtain c1 where c1: "transmitWithFlags None t p tr st fl c = (c1, None)" "wlog c1 = wlog c @ [?d]"
    "inflight c1 = inflight c @ [(?k, ?q)]" "acked c1 = acked c" "client_ok c1" "?k \<notin> fst ` set (inflight c)"
    using transmit_reliable [OF assms(1,2,5,6)] by blast
  have "map_of (inflight c1) ?k = Some ?q"
    using c1(3,6) by (simp add: map_add_def map_of_eq_None_iff [symmetric] split: option.splits)
  moreover have "seq_window c1" using assms(3) c1(1) by simp
  moreover have "AList.delete ?k (inflight c1) = inflight c"
    using c1(3,6) by (simp add: AList.delete_eq filter_id_conv) force
  ultimately show ?thesis
    using ack_settles_entry [OF c1(5) _ assms(4), of ?k ?q now "fnv1a p"] c1 by (auto simp: sq_def ack_def)
qed

lemma seq_window_tick:
  assumes "client_ok c" "seq_window c" "is_range rng"
  shows "seq_window (runRetransmitTick rng now lnow c)"
proof -
  have "k \<in> fst ` set (inflight c)" if "k \<in> fst ` set (inflight (runRetransmitTick rng now lnow c))" for k
  proof -
    have "map_of (inflight (runRetransmitTick rng now lnow c)) k \<noteq> None"
      using that by (simp add: map_of_eq_None_iff)
    then have "map_of (inflight c) k \<noteq> None"
      using tick_lookup [OF assms(3) client_okD(1) [OF assms(1)], of now lnow k] by (auto split: option.splits)
    then show ?thesis by (simp add: map_of_eq_None_iff)
  qed
  then have "fst ` set (inflight (runRetransmitTick rng now lnow c)) \<subseteq> fst ` set (inflight c)" by (rule subsetI)
  with assms(2) show ?thesis unfolding seq_window_def by (meson subsetD)
qed

subsection \<open>Properties\<close>

text \<open>Property C1. From the send to the store and back: a client sends an envelope of trace rows in a reliable
  datagram that the core has not seen. The core acknowledges it, and once the batching goroutine has taken
  the entries from its channel and its ticker has fired, the rows have been given to the store, under the
  tenant of the envelope and exactly once, with everything that was accepted before them; the
  acknowledgement settles this datagram in the client and leaves the others in flight.\<close>

theorem end_to_end_delivery:
  assumes client: "client_ok c" "seqCounter c \<noteq> - 1" "seq_window (fst (transmitWithFlags None t p tr st fl c))"
      "is_range rng" "tr \<noteq> TierBesteff" "headerSize + length p \<le> maxPayload"
    and core: "ingest_ok g" "cRunning (igTrace g)" "rConn (igRcv g)" "traceBatcher (igRcv g)"
      "map_of (dedup (igRcv g)) (fnv1a p) = None" "is_range rng'"
    and rows: "trace_datagram e fl p tenant rows" "ids_ok e"
      "(ucast (seqCounter c + 1) :: u16) \<noteq> - 1 \<or> and fl flagLastFragment = 0"
  shows "\<exists>c1 d g' ack. transmitWithFlags None t p tr st fl c = (c1, None) \<and> wlog c1 = wlog c @ [d]
    \<and> ingest_run (Handle (Datagram e True d a) ch
          # replicate (Suc (length (cIn (igTrace g)))) (TraceGoroutine (Coalescer.Receive dur rng'))
          @ [TraceGoroutine (TickerFires dur rng')]) g = Some g'
    \<and> (\<forall>u. of_tenant u (cFlushed (igTrace g'))
          = of_tenant u (routed_traces (actions (igRcv g))) + (if u = tenant then mset rows else {#}))
    \<and> replies (igRcv g') = replies (igRcv g) @ [(addrKey a, ack)]
    \<and> inflight (ackLoop_step rng now ack c1) = inflight c
    \<and> acked (ackLoop_step rng now ack c1) = acked c + 1"
  using sent_then_acked [OF client, of now]
    acked_rows_reach_store [OF core(1-4) rows(1,2) client(5) core(5) rows(3) core(6), of st a ch dur]
  by blast

theorem end_to_end_delivery_witness:
  "\<exists>c1 d g' ack. transmitWithFlags None 0 [1, 2] TierGuaranteed 0 0 (zeroClient ''acme'') = (c1, None)
    \<and> wlog c1 = wlog (zeroClient ''acme'') @ [d]
    \<and> ingest_run [Handle (Datagram trace_env True d sample_addr) (\<lambda>_. (True, 0)),
        TraceGoroutine (Coalescer.Receive (\<lambda>_. 0) rev), TraceGoroutine (TickerFires (\<lambda>_. 0) rev)] sample_ingest = Some g'
    \<and> sample_trace \<in># of_tenant ''acme'' (cFlushed (igTrace g'))
    \<and> replies (igRcv g') = replies (igRcv sample_ingest) @ [(addrKey sample_addr, ack)]
    \<and> inflight (ackLoop_step rev 9 ack c1) = inflight (zeroClient ''acme'')"
proof -
  let ?c = "zeroClient ''acme''"
  have c: "client_ok ?c" "seqCounter ?c \<noteq> - 1" "(ucast (seqCounter ?c + 1) :: u16) \<noteq> - 1"
    by (simp_all add: zeroClient_def client_ok_def)
  have "seq_window (fst (transmitWithFlags None 0 [1, 2] TierGuaranteed 0 0 ?c))"
    by (simp add: transmitWithFlags_def Let_def zeroClient_def log_write_def seq_window_def)
  from end_to_end_delivery [OF c(1,2) this is_range_rev _ _ sample_ingest_ready(1-4,6) is_range_rev sample_trace_datagram,
      of sample_addr "\<lambda>_. (True, 0)" "\<lambda>_. 0" 9] c(3) sample_ingest_ready(5)
  obtain c1 d g' ack where r: "transmitWithFlags None 0 [1, 2] TierGuaranteed 0 0 ?c = (c1, None)" "wlog c1 = wlog ?c @ [d]"
    "ingest_run [Handle (Datagram trace_env True d sample_addr) (\<lambda>_. (True, 0)),
        TraceGoroutine (Coalescer.Receive (\<lambda>_. 0) rev), TraceGoroutine (TickerFires (\<lambda>_. 0) rev)] sample_ingest = Some g'"
    "\<forall>u. of_tenant u (cFlushed (igTrace g'))
          = of_tenant u (routed_traces (actions (igRcv sample_ingest))) + (if u = ''acme'' then mset [sample_trace] else {#})"
    "replies (igRcv g') = replies (igRcv sample_ingest) @ [(addrKey sample_addr, ack)]"
    "inflight (ackLoop_step rev 9 ack c1) = inflight ?c"
    by (auto simp del: ingest_run.simps)
  from r(4) have "sample_trace \<in># of_tenant ''acme'' (cFlushed (igTrace g'))" by simp
  with r show ?thesis by blast
qed

text \<open>Property C2. A reliable datagram makes the round trip: what the client sends, the receiver
  acknowledges, and the acknowledgement settles exactly this datagram, leaving everything else in
  flight as it was. This holds for any well-formed receiver with a UDP socket, any map order and
  any payload that fits one datagram (not the last fragment numbered 65535), while the sequence
  numbers in flight span fewer than 2^16.\<close>

theorem reliable_round_trip:
  assumes "client_ok c" "seqCounter c \<noteq> - 1" "seq_window (fst (transmitWithFlags None t p tr st fl c))"
    and "is_range rng" "tr \<noteq> TierBesteff" "headerSize + length p \<le> maxPayload"
    and "rConn r" "rcv_ok r" "ids_ok e"
    and "(ucast (seqCounter c + 1) :: u16) \<noteq> - 1 \<or> and fl flagLastFragment = 0"
  shows "\<exists>c1 d r' ack. transmitWithFlags None t p tr st fl c = (c1, None) \<and> wlog c1 = wlog c @ [d]
    \<and> receive_raw e True d a r = Some r' \<and> replies r' = replies r @ [(addrKey a, ack)]
    \<and> inflight (ackLoop_step rng now ack c1) = inflight c
    \<and> acked (ackLoop_step rng now ack c1) = acked c + 1"
proof -
  let ?sq = "ucast (seqCounter c + 1) :: u16"
  obtain r' where "receive_raw e True (buildPacket pktData tr fl ?sq st (fnv1a p) p) a r = Some r'"
    "replies r' = replies r @ [(addrKey a, buildPacketV2 pktACK 0 0 ?sq st (fnv1a p) [])]"
    using core_acks [of tr p r e ?sq fl st "fnv1a p" a] assms(5-10) by auto
  then show ?thesis using sent_then_acked [OF assms(1-6), of now] by auto
qed

theorem reliable_round_trip_witness:
  "\<exists>c1 d r' ack. transmitWithFlags None 0 [7] TierGuaranteed 0 0 (zeroClient []) = (c1, None) \<and> wlog c1 = wlog (zeroClient []) @ [d]
    \<and> receive_raw (sample_rcv_env 5) True d sample_addr sample_rcv = Some r'
    \<and> replies r' = replies sample_rcv @ [(addrKey sample_addr, ack)]
    \<and> inflight (ackLoop_step rev 9 ack c1) = inflight (zeroClient [])
    \<and> acked (ackLoop_step rev 9 ack c1) = acked (zeroClient []) + 1"
proof (rule reliable_round_trip)
  show "client_ok (zeroClient [])" by (simp add: zeroClient_def client_ok_def)
  show "seq_window (fst (transmitWithFlags None 0 [7] TierGuaranteed 0 0 (zeroClient [])))"
    using sample_client_inflight(1) by (auto simp: seq_window_def sample_client_def [symmetric])
qed (simp_all add: sample_ok zeroClient_def)

text \<open>Property C3. Exactly-once processing when an acknowledgement is lost: a datagram in flight has been
  received, its ACK got lost, and a retransmit tick puts the same bytes back on the wire. Whatever the
  receiver has handled in between (duplicate-table ticks not later than 60 seconds), the second copy
  changes nothing that is stored or published, it is acknowledged again, and this acknowledgement
  settles the datagram in the client.\<close>

theorem lost_ack_exactly_once:
  assumes client: "client_ok c" "seq_window c" "is_range rng" "is_range rng'"
    "map_of (inflight c) k = Some q" "(k, q) \<in> set (retransmitted rng now c)"
    and data: "pData q = buildPacket pktData tr fl sq st ci p" "tr \<noteq> TierBesteff" "length p \<le> 65521"
      "and fl flagFragment = 0"
    and first: "map_of (dedup r) ci = None" "receive_raw e True (pData q) a r = Some r1"
    and between: "rcv_run evs r1 = Some r2" "\<forall>t. DedupTick t \<in> set evs \<longrightarrow> t \<le> rNow e + 60 * second" "rConn r2"
  shows "\<exists>r3 ack. pData q \<in> set (drop (length (wlog c)) (wlog (runRetransmitTick rng now lnow c)))
    \<and> receive_raw e' True (pData q) a r2 = Some r3 \<and> actions r3 = actions r2
    \<and> replies r3 = replies r2 @ [(addrKey a, ack)]
    \<and> map_of (inflight (ackLoop_step rng' now' ack (runRetransmitTick rng now lnow c))) k = None
    \<and> acked (ackLoop_step rng' now' ack (runRetransmitTick rng now lnow c)) = acked c + 1"
proof -
  let ?c = "runRetransmitTick rng now lnow c"
  have ok: "client_ok ?c" using client by (intro client_ok_tick)
  have el: "eligible (baseRTOMs c) (maxRTOMs c) now q"
    using set_retransmitted [OF client(3), of now c] client(6) by auto
  then have q: "map_of (inflight ?c) k = Some (retry_pkt now q)"
    using tick_lookup [OF client(3) client_okD(1) [OF client(1)], of now lnow k] client(5,6)
    by (simp add: eligible_def expired_def)
  have ids: "pSeq q = sq" "pStreamID q = st"
    using client_ok_lookup [OF client(1,5)] data(1) by (auto simp: entry_ok_def buildPacket_wire_ids)
  have "pData q \<in> set (drop (length (wlog c)) (wlog ?c))"
    using client(6) by (force simp: runRetransmitTick_fields(1))
  moreover obtain r3 where "receive_raw e' True (pData q) a r2 = Some r3" "actions r3 = actions r2"
    "replies r3 = replies r2 @ [(addrKey a, buildPacketV2 pktACK 0 0 (pSeq q) (pStreamID q) ci [])]"
    using core_dedups [OF data(3,3,4) first(1) first(2) [unfolded data(1)] between(1,2)] between(3) data(1,2) ids by auto
  moreover have "seq_window ?c" by (rule seq_window_tick [OF client(1-3)])
  ultimately show ?thesis
    using ack_settles_entry [OF ok _ client(4) q, of now' ci]
    by (auto simp: retry_pkt_def runRetransmitTick_fields(5) delete_conv')
qed

lemma sample_retransmits:
  "\<exists>q. map_of (inflight sample_client) 1 = Some q \<and> (1, q) \<in> set (retransmitted rev 3000000000 sample_client)
     \<and> pData q = buildPacket pktData 0 0 1 0 (fnv1a [7]) [7]"
proof -
  let ?d = "buildPacket pktData 0 0 1 0 (fnv1a [7]) [7]"
  let ?q = "\<lparr>pData = ?d, pSeq = 1, pStreamID = 0, pTier = 0, pSentAt = 0, pRetries = 0\<rparr>"
  have i: "inflight sample_client = [(1, ?q)]"
    by (simp add: sample_client_def transmitWithFlags_def Let_def zeroClient_def log_write_def)
  have "effective_budget sample_client = 64" by (simp add: effective_budget_def sample_client_inflight)
  moreover have "eligible (baseRTOMs sample_client) (maxRTOMs sample_client) 3000000000 ?q"
    by (simp add: sample_client_inflight eligible_def rto_elapsed_def maxRetries_def computeRTO_def time_sub_def i64_def Let_def)
  ultimately have "(1, ?q) \<in> set (retransmitted rev 3000000000 sample_client)"
    by (simp add: retransmitted_def i)
  with i show ?thesis by simp
qed

theorem lost_ack_exactly_once_witness:
  "\<exists>(q :: inflightPkt) r1 r3 ack. receive_raw (sample_rcv_env 5) True (pData q) sample_addr sample_rcv = Some r1
    \<and> pData q \<in> set (drop (length (wlog sample_client)) (wlog (runRetransmitTick rev 3000000000 3000000000 sample_client)))
    \<and> receive_raw (sample_rcv_env 9) True (pData q) sample_addr r1 = Some r3 \<and> actions r3 = actions r1
    \<and> replies r3 = replies r1 @ [(addrKey sample_addr, ack)]
    \<and> map_of (inflight (ackLoop_step rev 4000000000 ack (runRetransmitTick rev 3000000000 3000000000 sample_client))) 1 = None"
proof -
  obtain q where q: "map_of (inflight sample_client) 1 = Some q" "(1, q) \<in> set (retransmitted rev 3000000000 sample_client)"
    "pData q = buildPacket pktData 0 0 1 0 (fnv1a [7]) [7]" using sample_retransmits by blast
  obtain r1 where r1: "receive_raw (sample_rcv_env 5) True (pData q) sample_addr sample_rcv = Some r1" "rConn r1"
    using core_acks [of 0 "[7]" sample_rcv "sample_rcv_env 5" 1 0 0 "fnv1a [7]" sample_addr] sample_ok q(3)
      rConn_raw [of "sample_rcv_env 5" 0 0 1 0 "fnv1a [7]" "[7]" sample_addr sample_rcv]
    by auto
  have "seq_window sample_client" using sample_client_inflight(1) by (auto simp: seq_window_def)
  moreover have "map_of (dedup sample_rcv) (fnv1a [7]) = None"
    by (simp add: sample_rcv_def SetPipeline_def NewAgenticUDPReceiver_def)
  ultimately obtain r3 ack where
    "pData q \<in> set (drop (length (wlog sample_client)) (wlog (runRetransmitTick rev 3000000000 3000000000 sample_client)))"
    "receive_raw (sample_rcv_env 9) True (pData q) sample_addr r1 = Some r3" "actions r3 = actions r1"
    "replies r3 = replies r1 @ [(addrKey sample_addr, ack)]"
    "map_of (inflight (ackLoop_step rev 4000000000 ack (runRetransmitTick rev 3000000000 3000000000 sample_client))) 1 = None"
    using lost_ack_exactly_once [OF sample_client_ok _ is_range_rev is_range_rev q _ _ _ _ r1(1),
        where evs = "[]" and ?r2.0 = r1 and e' = "sample_rcv_env 9" and lnow = 3000000000 and now' = 4000000000] r1(2)
    by auto
  with r1(1) show ?thesis by blast
qed

end
